theory Spec2Isabelle
  imports Main
begin

section \<open>Python strings\<close>

text \<open>
  Strings of the library are character lists. The methods of Python's \<open>str\<close> that
  \<open>Process.py\<close> calls are written out here: \<open>upper\<close>, \<open>lower\<close>, \<open>startswith\<close>,
  \<open>endswith\<close> and \<open>replace\<close>. Case conversion is the ASCII one.
\<close>

definition CR :: char where
  "CR = CHR 0x0D"

definition LF :: char where
  "LF = CHR 0x0A"

definition lower_letters :: string where
  "lower_letters = ''abcdefghijklmnopqrstuvwxyz''"

definition upper_letters :: string where
  "upper_letters = ''ABCDEFGHIJKLMNOPQRSTUVWXYZ''"

definition upper_char :: "char \<Rightarrow> char" where
  "upper_char c = (case map_of (zip lower_letters upper_letters) c of Some u \<Rightarrow> u | None \<Rightarrow> c)"

definition lower_char :: "char \<Rightarrow> char" where
  "lower_char c = (case map_of (zip upper_letters lower_letters) c of Some l \<Rightarrow> l | None \<Rightarrow> c)"

definition upper :: "string \<Rightarrow> string" where
  "upper s = map upper_char s"

definition lower :: "string \<Rightarrow> string" where
  "lower s = map lower_char s"

definition startswith :: "string \<Rightarrow> string \<Rightarrow> bool" where
  "startswith s p = (take (length p) s = p)"

definition endswith :: "string \<Rightarrow> string \<Rightarrow> bool" where
  "endswith s p = (length p \<le> length s \<and> drop (length s - length p) s = p)"

text \<open>
  \<open>s.replace(old, new)\<close> for a non-empty \<open>old\<close>: the occurrences of \<open>old\<close> are found
  from the left and do not overlap. (With an empty \<open>old\<close> Python inserts \<open>new\<close> around
  every character; the library never calls it so, and the model returns \<open>s\<close>.)
\<close>

function str_replace :: "string \<Rightarrow> string \<Rightarrow> string \<Rightarrow> string" where
  "str_replace old new s =
     (if old = [] then s
      else if s = [] then []
      else if take (length old) s = old then new @ str_replace old new (drop (length old) s)
      else hd s # str_replace old new (tl s))"
  by pat_completeness auto
termination
  by (relation "measure (\<lambda>(old, new, s). length s)") (auto simp: neq_Nil_conv)

declare str_replace.simps [simp del]

text \<open>
  Two notions used to say what \<open>replace\<close> achieves: a text that holds an occurrence of
  a pattern, and the pieces of a text joined by a separator (Python's \<open>sep.join\<close>).
\<close>

fun occurs_in :: "string \<Rightarrow> string \<Rightarrow> bool" where
  "occurs_in p [] = (p = [])"
| "occurs_in p (c # cs) = (take (length p) (c # cs) = p \<or> occurs_in p cs)"

fun join_with :: "string \<Rightarrow> string list \<Rightarrow> string" where
  "join_with sep [] = []"
| "join_with sep [s] = s"
| "join_with sep (s # t # ts) = s @ sep @ join_with sep (t # ts)"

section \<open>Collaborators outside the library\<close>

text \<open>
  \<open>Process.py\<close> imports \<open>console_decode\<close>, \<open>console_encode\<close>, \<open>system_encode\<close>,
  \<open>system_decode\<close>, \<open>timestr_to_secs\<close>, \<open>secs_to_timestr\<close> and the flag \<open>WINDOWS\<close>
  from \<open>robot.utils\<close>, and it asks the interpreter for \<open>os.path\<close> functions,
  \<open>os.devnull\<close>, \<open>os.environ\<close> and for what the platform offers (\<open>hasattr(os,
  "killpg")\<close> and the like). None of these is code of \<open>Process.py\<close>; they are
  parameters of the model, collected in one record that the functions below take as
  their first argument.

  A timeout given to a keyword is \<open>None\<close>, a string or a number. Times are seconds with
  millisecond resolution and are kept as a count of milliseconds, so \<open>0.1\<close> is \<open>100\<close>,
  \<open>KILL_TIMEOUT\<close> is \<open>10000\<close> and \<open>TERMINATE_TIMEOUT\<close> is \<open>30000\<close>. Parsing a
  time string can fail.
\<close>

datatype error =
    RuntimeError string
  | OSError
  | KeyError
  | ValueError
  | TimeoutExceeded
  | ConfigurationError
  | LookupError

datatype timeout_arg = TNone | TStr string | TNum int

type_synonym dict = "(string \<times> string) list"

datatype command = CmdList "string list" | CmdStr string

record externals =
  console_decode :: "string \<Rightarrow> string \<Rightarrow> string"
  console_encode :: "string \<Rightarrow> string \<Rightarrow> string"
  system_encode :: "string \<Rightarrow> string"
  system_decode :: "string \<Rightarrow> string"
  timestr_to_secs :: "timeout_arg \<Rightarrow> error + int"
  secs_to_timestr :: "int \<Rightarrow> string"
  WINDOWS :: bool
  normpath :: "string \<Rightarrow> string"
  path_join :: "string \<Rightarrow> string \<Rightarrow> string"
  abspath :: "string \<Rightarrow> string"
  devnull :: string
  environ :: dict
  has_killpg :: bool
  has_CTRL_BREAK_EVENT :: bool
  has_terminate :: bool
  can_spawn :: "command \<Rightarrow> bool"

definition KILL_TIMEOUT :: int where
  "KILL_TIMEOUT = 10000"

definition TERMINATE_TIMEOUT :: int where
  "TERMINATE_TIMEOUT = 30000"

section \<open>ExecutionResult: output formatting\<close>

text \<open>
  \<^verbatim>\<open>
  def _format_output(self, output):
      if output is None:
          return None
      output = console_decode(output, self._output_encoding)
      output = output.replace("\r\n", "\n")
      if output.endswith("\n"):
          output = output[:-1]
      return output
  \<close>
  A leading underscore of a Python name is dropped in the model.
\<close>

definition format_output :: "externals \<Rightarrow> string \<Rightarrow> string option \<Rightarrow> string option" where
  "format_output X output_encoding output =
     (case output of
        None \<Rightarrow> None
      | Some out \<Rightarrow>
          (let out1 = console_decode X out output_encoding;
               out2 = str_replace [CR, LF] [LF] out1;
               out3 = (if endswith out2 [LF] then butlast out2 else out2)
           in Some out3))"

text \<open>
  An interpreter for concrete runs: a POSIX platform whose codecs leave their input
  alone, where a number is its own time and the only time string is the empty one.
\<close>

definition posix :: externals where
  "posix = \<lparr>console_decode = (\<lambda>s enc. s), console_encode = (\<lambda>s enc. s),
     system_encode = (\<lambda>s. s), system_decode = (\<lambda>s. s),
     timestr_to_secs = (\<lambda>t. case t of TNum n \<Rightarrow> Inr n | _ \<Rightarrow> Inl ValueError),
     secs_to_timestr = (\<lambda>n. ''some time''), WINDOWS = False,
     normpath = (\<lambda>p. p), path_join = (\<lambda>d f. d @ ''/'' @ f), abspath = (\<lambda>p. ''/work''),
     devnull = ''/dev/null'', environ = [(''HOME'', ''/root'')],
     has_killpg = True, has_CTRL_BREAK_EVENT = False, has_terminate = True,
     can_spawn = (\<lambda>c. True)\<rparr>"

section \<open>Objects and the state of a run\<close>

text \<open>
  Python objects that the library shares and mutates live in stores, and a reference
  is a number. A file object has a name, a closed flag and what \<open>read()\<close> will
  return (\<open>None\<close>: \<open>read()\<close> raises \<open>IOError\<close>). A stream handed to
  \<open>subprocess.Popen\<close> is the marker \<open>subprocess.PIPE\<close>, the marker
  \<open>subprocess.STDOUT\<close> or a file object; Python's \<open>None\<close> is the \<open>None\<close> of
  \<open>stream option\<close>.
\<close>

record file_obj =
  name :: string
  closed :: bool
  content :: "string option"

datatype stream = PIPE | STDOUT | FileObj nat

text \<open>
  A \<open>subprocess.Popen\<close> object: its pid, its three pipe ends (a file object each, or
  \<open>None\<close> when the stream is not a pipe) and the return code once it has been seen.
\<close>

record popen =
  pid :: nat
  p_stdin :: "nat option"
  p_stdout :: "nat option"
  p_stderr :: "nat option"
  returncode :: "int option"

text \<open>
  An \<open>ExecutionResult\<close>. The public attributes keep their names; the private ones
  (\<open>_process\<close>, \<open>_output_encoding\<close>, \<open>_stdout\<close>, \<open>_stderr\<close>, \<open>_custom_streams\<close>) carry
  the prefix \<open>r_\<close>, since \<open>stdout\<close> and \<open>stderr\<close> are the names of the properties.
\<close>

record ExecutionResult =
  r_process :: nat
  stdout_path :: "string option"
  stderr_path :: "string option"
  rc :: "int option"
  r_output_encoding :: string
  r_stdout :: "string option"
  r_stderr :: "string option"
  r_custom_streams :: "nat list"

text \<open>
  Modelled from the spec: \<open>ConnectionCache\<close> of \<open>robot.utils\<close>, the registry behind
  \<open>self._processes\<close>, is not among the sources. The spec describes it as an ordered
  collection of handles keyed by 1-based insertion index and, optionally, alias, with
  one current (active) pointer. Aliases are unique at registration time, and a
  duplicate alias registration is an error that leaves the registry unaffected. A
  lookup by an unspecified handle resolves to the active pointer; a lookup by an
  out-of-range index or an unknown alias fails. A handle is also the process object
  that \<open>start_process\<close> returned.
\<close>

record ConnectionCache =
  connections :: "nat list"
  aliases :: "(string \<times> nat) list"
  current :: "nat option"

datatype handle = Active | Index int | Alias string | Process nat

definition register :: "ConnectionCache \<Rightarrow> nat \<Rightarrow> string option \<Rightarrow> error + ConnectionCache" where
  "register cache process alias =
     (case alias of
        None \<Rightarrow>
          Inr (cache\<lparr>connections := connections cache @ [process], current := Some process\<rparr>)
      | Some a \<Rightarrow>
          if map_of (aliases cache) a \<noteq> None then Inl ConfigurationError
          else Inr (cache\<lparr>connections := connections cache @ [process],
                 aliases := aliases cache @ [(a, Suc (length (connections cache)))],
                 current := Some process\<rparr>))"

definition by_index :: "ConnectionCache \<Rightarrow> int \<Rightarrow> error + nat" where
  "by_index cache i =
     (if 1 \<le> i \<and> i \<le> int (length (connections cache))
      then Inr (connections cache ! (nat i - 1)) else Inl LookupError)"

definition getitem :: "ConnectionCache \<Rightarrow> handle \<Rightarrow> error + nat" where
  "getitem cache h =
     (case h of
        Active \<Rightarrow> (case current cache of None \<Rightarrow> Inl LookupError | Some p \<Rightarrow> Inr p)
      | Index i \<Rightarrow> by_index cache i
      | Alias a \<Rightarrow>
          (case map_of (aliases cache) a of
             None \<Rightarrow> Inl LookupError
           | Some i \<Rightarrow> by_index cache (int i))
      | Process p \<Rightarrow> if List.member (connections cache) p then Inr p else Inl LookupError)"

text \<open>
  What the operating system does in a run is given with the run. For every process:
  its pid; what \<open>poll()\<close> observes at each moment (\<open>None\<close> while it runs, its exit
  status after); the outcomes of the successive \<open>communicate(timeout=0.1)\<close> calls
  made on it; for which ways of signalling it the delivery raises \<open>OSError\<close>; and
  what its output pipes hold. A \<open>communicate\<close> call ends in one of three ways: the
  0.1 seconds pass (\<open>subprocess.TimeoutExpired\<close>), Robot Framework's own timeout
  fires in it (\<open>TimeoutExceeded\<close>), or the process has ended and its outputs and exit
  status are returned. When the listed outcomes are used up, every further call is a
  \<open>TimeoutExpired\<close>: the process never ends.
\<close>

datatype signal = SIGKILL | SIGTERM | CTRL_BREAK_EVENT

datatype delivery = Killpg signal | Send_signal signal | Kill | Terminate

datatype communicated = TimeoutExpired | Cancelled | Done string string int

record os_process =
  os_pid :: nat
  poll_at :: "int \<Rightarrow> int option"
  communicate_script :: "communicated list"
  delivery_fails :: "delivery \<Rightarrow> bool"
  out_data :: "string option"
  err_data :: "string option"

datatype fs_entry = Missing | Unreadable | Contents string

datatype event = Info string | Debug string | Sent nat delivery

text \<open>
  The state of a run: the two attributes of the library object (\<open>_processes\<close> and
  \<open>_results\<close>, a dictionary keyed by process object), the stores of \<open>Popen\<close> and file
  objects, the file system (what a path holds, and whether it can be opened for
  writing), the clock in milliseconds, the operating system's side of each process,
  and what has been logged and signalled so far.
\<close>

record state =
  processes :: ConnectionCache
  results :: "nat \<Rightarrow> ExecutionResult option"
  popens :: "nat \<Rightarrow> popen"
  next_popen :: nat
  heap :: "nat \<Rightarrow> file_obj"
  next_obj :: nat
  disk :: "string \<Rightarrow> fs_entry"
  writable :: "string \<Rightarrow> bool"
  now :: int
  os :: "nat \<Rightarrow> os_process"
  trace :: "event list"

definition logger :: "event \<Rightarrow> state \<Rightarrow> state" where
  "logger e s = s\<lparr>trace := trace s @ [e]\<rparr>"

definition alloc :: "file_obj \<Rightarrow> state \<Rightarrow> nat \<times> state" where
  "alloc f s = (next_obj s, s\<lparr>heap := (heap s)(next_obj s := f), next_obj := Suc (next_obj s)\<rparr>)"

definition close :: "nat \<Rightarrow> state \<Rightarrow> state" where
  "close i s = s\<lparr>heap := (heap s)(i := (heap s i)\<lparr>closed := True\<rparr>)\<rparr>"

definition set_popen :: "nat \<Rightarrow> popen \<Rightarrow> state \<Rightarrow> state" where
  "set_popen p v s = s\<lparr>popens := (popens s)(p := v)\<rparr>"

definition set_result :: "nat \<Rightarrow> ExecutionResult \<Rightarrow> state \<Rightarrow> state" where
  "set_result p r s = s\<lparr>results := (results s)(p := Some r)\<rparr>"

text \<open>Python's truth value of an optional string: \<open>None\<close> and \<open>""\<close> are false.\<close>

definition truthy :: "string option \<Rightarrow> bool" where
  "truthy x = (case x of None \<Rightarrow> False | Some v \<Rightarrow> v \<noteq> [])"

section \<open>ExecutionResult\<close>

text \<open>
  \<^verbatim>\<open>
  def _get_path(self, stream):
      return stream.name if self._is_custom_stream(stream) else None

  def _is_custom_stream(self, stream):
      return stream not in (subprocess.PIPE, subprocess.STDOUT, None)

  def _is_open(self, stream):
      return stream and not stream.closed
  \<close>
  \<open>_is_open\<close> is asked of file objects and of \<open>None\<close> only.
\<close>

definition is_custom_stream :: "stream option \<Rightarrow> bool" where
  "is_custom_stream stream = (\<not> List.member [Some PIPE, Some STDOUT, None] stream)"

definition get_path :: "state \<Rightarrow> stream option \<Rightarrow> string option" where
  "get_path s stream =
     (if is_custom_stream stream
      then (case stream of Some (FileObj i) \<Rightarrow> Some (name (heap s i)) | _ \<Rightarrow> None)
      else None)"

definition custom_objects :: "stream option list \<Rightarrow> nat list" where
  "custom_objects streams =
     concat (map (\<lambda>stream. case stream of Some (FileObj i) \<Rightarrow> [i] | _ \<Rightarrow> [])
       (filter is_custom_stream streams))"

definition ExecutionResult_init ::
  "state \<Rightarrow> nat \<Rightarrow> stream option \<Rightarrow> stream option \<Rightarrow> stream option \<Rightarrow> string \<Rightarrow> ExecutionResult"
where
  "ExecutionResult_init s process stdout' stderr' stdin' encoding =
     \<lparr>r_process = process,
      stdout_path = get_path s stdout',
      stderr_path = get_path s stderr',
      rc = None,
      r_output_encoding = encoding,
      r_stdout = None,
      r_stderr = None,
      r_custom_streams = custom_objects [stdout', stderr', stdin']\<rparr>"

definition is_open :: "state \<Rightarrow> nat option \<Rightarrow> bool" where
  "is_open s stream = (case stream of None \<Rightarrow> False | Some i \<Rightarrow> \<not> closed (heap s i))"

text \<open>
  \<^verbatim>\<open>
  def _read_stream(self, stream_path, stream):
      if stream_path:
          stream = open(stream_path, "rb")
      elif not self._is_open(stream):
          return ""
      try:
          content = stream.read()
      except IOError:
          content = ""
      finally:
          if stream_path:
              stream.close()
      return self._format_output(content)
  \<close>
  Opening a path that holds no file raises (\<open>OSError\<close>), outside the \<open>try\<close>. Reading
  takes what the object holds and leaves it at its end.
\<close>

definition open_rb :: "string \<Rightarrow> state \<Rightarrow> (error + nat) \<times> state" where
  "open_rb path s =
     (case disk s path of
        Missing \<Rightarrow> (Inl OSError, s)
      | Unreadable \<Rightarrow>
          (let (f, s1) = alloc \<lparr>name = path, closed = False, content = None\<rparr> s in (Inr f, s1))
      | Contents c \<Rightarrow>
          (let (f, s1) = alloc \<lparr>name = path, closed = False, content = Some c\<rparr> s in (Inr f, s1)))"

definition read_or_empty :: "nat \<Rightarrow> state \<Rightarrow> string \<times> state" where
  "read_or_empty i s =
     (case content (heap s i) of
        None \<Rightarrow> ([], s)
      | Some c \<Rightarrow> (c, s\<lparr>heap := (heap s)(i := (heap s i)\<lparr>content := Some []\<rparr>)\<rparr>))"

definition read_stream ::
  "externals \<Rightarrow> string \<Rightarrow> string option \<Rightarrow> nat option \<Rightarrow> state \<Rightarrow> (error + string option) \<times> state"
where
  "read_stream X encoding stream_path stream s =
     (if truthy stream_path then
        (case open_rb (case stream_path of Some path \<Rightarrow> path | None \<Rightarrow> []) s of
           (Inl e, s1) \<Rightarrow> (Inl e, s1)
         | (Inr f, s1) \<Rightarrow>
             (let (c, s2) = read_or_empty f s1;
                  s3 = close f s2
              in (Inr (format_output X encoding (Some c)), s3)))
      else if \<not> is_open s stream then (Inr (Some []), s)
      else
        (case stream of
           None \<Rightarrow> (Inr (Some []), s)
         | Some i \<Rightarrow>
             (let (c, s1) = read_or_empty i s
              in (Inr (format_output X encoding (Some c)), s1))))"

text \<open>
  Methods of a result take the result and the state and give both back, with what they
  return or raise.
  \<^verbatim>\<open>
  def _read_stdout(self):
      self._stdout = self._read_stream(self.stdout_path, self._process.stdout)

  @property
  def stdout(self):
      if self._stdout is None:
          self._read_stdout()
      return self._stdout

  @stdout.setter
  def stdout(self, stdout):
      self._stdout = self._format_output(stdout)
  \<close>
  and the same for \<open>stderr\<close>.
\<close>

definition read_stdout ::
  "externals \<Rightarrow> ExecutionResult \<Rightarrow> state \<Rightarrow> (error + unit) \<times> ExecutionResult \<times> state"
where
  "read_stdout X r s =
     (case read_stream X (r_output_encoding r) (stdout_path r) (p_stdout (popens s (r_process r))) s of
        (Inl e, s1) \<Rightarrow> (Inl e, r, s1)
      | (Inr v, s1) \<Rightarrow> (Inr (), r\<lparr>r_stdout := v\<rparr>, s1))"

definition read_stderr ::
  "externals \<Rightarrow> ExecutionResult \<Rightarrow> state \<Rightarrow> (error + unit) \<times> ExecutionResult \<times> state"
where
  "read_stderr X r s =
     (case read_stream X (r_output_encoding r) (stderr_path r) (p_stderr (popens s (r_process r))) s of
        (Inl e, s1) \<Rightarrow> (Inl e, r, s1)
      | (Inr v, s1) \<Rightarrow> (Inr (), r\<lparr>r_stderr := v\<rparr>, s1))"

definition stdout ::
  "externals \<Rightarrow> ExecutionResult \<Rightarrow> state \<Rightarrow> (error + string option) \<times> ExecutionResult \<times> state"
where
  "stdout X r s =
     (if r_stdout r = None then
        (case read_stdout X r s of
           (Inl e, r1, s1) \<Rightarrow> (Inl e, r1, s1)
         | (Inr _, r1, s1) \<Rightarrow> (Inr (r_stdout r1), r1, s1))
      else (Inr (r_stdout r), r, s))"

definition stderr ::
  "externals \<Rightarrow> ExecutionResult \<Rightarrow> state \<Rightarrow> (error + string option) \<times> ExecutionResult \<times> state"
where
  "stderr X r s =
     (if r_stderr r = None then
        (case read_stderr X r s of
           (Inl e, r1, s1) \<Rightarrow> (Inl e, r1, s1)
         | (Inr _, r1, s1) \<Rightarrow> (Inr (r_stderr r1), r1, s1))
      else (Inr (r_stderr r), r, s))"

definition set_stdout :: "externals \<Rightarrow> string option \<Rightarrow> ExecutionResult \<Rightarrow> ExecutionResult" where
  "set_stdout X v r = r\<lparr>r_stdout := format_output X (r_output_encoding r) v\<rparr>"

definition set_stderr :: "externals \<Rightarrow> string option \<Rightarrow> ExecutionResult \<Rightarrow> ExecutionResult" where
  "set_stderr X v r = r\<lparr>r_stderr := format_output X (r_output_encoding r) v\<rparr>"

text \<open>
  \<^verbatim>\<open>
  def close_streams(self):
      standard_streams = self._get_and_read_standard_streams(self._process)
      for stream in standard_streams + self._custom_streams:
          if self._is_open(stream):
              stream.close()

  def _get_and_read_standard_streams(self, process):
      stdin, stdout, stderr = process.stdin, process.stdout, process.stderr
      if self._is_open(stdout):
          self._read_stdout()
      if self._is_open(stderr):
          self._read_stderr()
      return [stdin, stdout, stderr]
  \<close>
\<close>

definition get_and_read_standard_streams ::
  "externals \<Rightarrow> ExecutionResult \<Rightarrow> state \<Rightarrow> (error + nat option list) \<times> ExecutionResult \<times> state"
where
  "get_and_read_standard_streams X r s =
     (let process = popens s (r_process r);
          stdin' = p_stdin process; stdout' = p_stdout process; stderr' = p_stderr process
      in case (if is_open s stdout' then read_stdout X r s else (Inr (), r, s)) of
           (Inl e, r1, s1) \<Rightarrow> (Inl e, r1, s1)
         | (Inr _, r1, s1) \<Rightarrow>
             (case (if is_open s1 stderr' then read_stderr X r1 s1 else (Inr (), r1, s1)) of
                (Inl e, r2, s2) \<Rightarrow> (Inl e, r2, s2)
              | (Inr _, r2, s2) \<Rightarrow> (Inr [stdin', stdout', stderr'], r2, s2)))"

fun close_open :: "nat option list \<Rightarrow> state \<Rightarrow> state" where
  "close_open [] s = s"
| "close_open (stream # streams) s =
     close_open streams
       (case stream of None \<Rightarrow> s | Some i \<Rightarrow> if is_open s (Some i) then close i s else s)"

definition close_streams ::
  "externals \<Rightarrow> ExecutionResult \<Rightarrow> state \<Rightarrow> (error + unit) \<times> ExecutionResult \<times> state"
where
  "close_streams X r s =
     (case get_and_read_standard_streams X r s of
        (Inl e, r1, s1) \<Rightarrow> (Inl e, r1, s1)
      | (Inr standard_streams, r1, s1) \<Rightarrow>
          (Inr (), r1, close_open (standard_streams @ map Some (r_custom_streams r1)) s1))"

section \<open>ProcessConfiguration\<close>

text \<open>
  The keyword arguments of \<open>start_process\<close>. \<open>stdin\<close> is a \<open>pathlib.Path\<close>, a string
  or any other value, which is passed on as it is (\<open>None\<close>, a marker or a file
  object). \<open>env\<close> and the extra keyword arguments are dictionaries, kept as lists of
  pairs in insertion order.
\<close>

datatype stdin_arg = StdinPath string | StdinStr string | StdinOther "stream option"

record arguments =
  a_cwd :: "string option"
  a_shell :: bool
  a_stdout :: "string option"
  a_stderr :: "string option"
  a_stdin :: stdin_arg
  a_output_encoding :: string
  a_alias :: "string option"
  a_env :: "dict option"
  a_env_extra :: dict

text \<open>The attribute \<open>alias\<close> is written \<open>alias'\<close>: the plain word is taken.\<close>

record ProcessConfiguration =
  cwd :: string
  shell :: bool
  alias' :: "string option"
  output_encoding :: string
  stdout_stream :: stream
  stderr_stream :: stream
  stdin_stream :: "stream option"
  env :: "dict option"

text \<open>
  \<^verbatim>\<open>
  def _new_stream(self, name):
      if name == "DEVNULL":
          return open(os.devnull, "w", encoding=LOCALE_ENCODING)
      if name:
          path = os.path.normpath(os.path.join(self.cwd, name))
          return open(path, "w", encoding=LOCALE_ENCODING)
      return subprocess.PIPE

  def _get_stderr(self, stderr, stdout, stdout_stream):
      if stderr and stderr in ["STDOUT", stdout]:
          if stdout_stream != subprocess.PIPE:
              return stdout_stream
          return subprocess.STDOUT
      return self._new_stream(stderr)
  \<close>
  Opening a file for writing makes it empty; it fails where the path cannot be
  written. A file opened for writing cannot be read through its object.
\<close>

definition open_w :: "string \<Rightarrow> state \<Rightarrow> (error + stream) \<times> state" where
  "open_w path s =
     (if writable s path then
        (let (f, s1) = alloc \<lparr>name = path, closed = False, content = None\<rparr>
                         (s\<lparr>disk := (disk s)(path := Contents [])\<rparr>)
         in (Inr (FileObj f), s1))
      else (Inl OSError, s))"

definition new_stream :: "externals \<Rightarrow> string \<Rightarrow> string option \<Rightarrow> state \<Rightarrow> (error + stream) \<times> state" where
  "new_stream X cwd' name' s =
     (if name' = Some ''DEVNULL'' then open_w (devnull X) s
      else if truthy name' then
        open_w (normpath X (path_join X cwd' (case name' of Some n \<Rightarrow> n | None \<Rightarrow> []))) s
      else (Inr PIPE, s))"

definition get_stderr ::
  "externals \<Rightarrow> string \<Rightarrow> string option \<Rightarrow> string option \<Rightarrow> stream \<Rightarrow> state \<Rightarrow> (error + stream) \<times> state"
where
  "get_stderr X cwd' stderr' stdout' stdout_stream' s =
     (if truthy stderr' \<and> List.member [Some ''STDOUT'', stdout'] stderr' then
        (if stdout_stream' \<noteq> PIPE then (Inr stdout_stream', s) else (Inr STDOUT, s))
      else new_stream X cwd' stderr' s)"

text \<open>
  \<^verbatim>\<open>
  def _get_stdin(self, stdin):
      if isinstance(stdin, Path):
          stdin = str(stdin)
      elif not isinstance(stdin, str):
          return stdin
      elif stdin.upper() == "NONE":
          return None
      elif stdin == "PIPE":
          return subprocess.PIPE
      path = os.path.normpath(os.path.join(self.cwd, stdin))
      if os.path.isfile(path):
          return open(path, encoding=LOCALE_ENCODING)
      stdin_file = TemporaryFile()
      stdin_file.write(console_encode(stdin, self.output_encoding, force=True))
      stdin_file.seek(0)
      return stdin_file
  \<close>
\<close>

definition stdin_from_text ::
  "externals \<Rightarrow> string \<Rightarrow> string \<Rightarrow> string \<Rightarrow> state \<Rightarrow> (error + stream option) \<times> state"
where
  "stdin_from_text X cwd' encoding text s =
     (let path = normpath X (path_join X cwd' text) in
      if disk s path \<noteq> Missing then
        (case open_rb path s of
           (Inl e, s1) \<Rightarrow> (Inl e, s1)
         | (Inr f, s1) \<Rightarrow> (Inr (Some (FileObj f)), s1))
      else
        (let (f, s1) = alloc \<lparr>name = ''<temporary file>'', closed = False,
                               content = Some (console_encode X text encoding)\<rparr> s
         in (Inr (Some (FileObj f)), s1)))"

definition get_stdin ::
  "externals \<Rightarrow> string \<Rightarrow> string \<Rightarrow> stdin_arg \<Rightarrow> state \<Rightarrow> (error + stream option) \<times> state"
where
  "get_stdin X cwd' encoding stdin' s =
     (case stdin' of
        StdinPath p \<Rightarrow> stdin_from_text X cwd' encoding p s
      | StdinOther v \<Rightarrow> (Inr v, s)
      | StdinStr text \<Rightarrow>
          if upper text = ''NONE'' then (Inr None, s)
          else if text = ''PIPE'' then (Inr (Some PIPE), s)
          else stdin_from_text X cwd' encoding text s)"

text \<open>
  \<^verbatim>\<open>
  def _construct_env(self, env, extra):
      env = self._get_initial_env(env, extra)
      if env is None:
          return None
      if WINDOWS:
          env = NormalizedDict(env, spaceless=False)
      self._add_to_env(env, extra)
      if WINDOWS:
          env = {key.upper(): env[key] for key in env}
      return env

  def _get_initial_env(self, env, extra):
      if env:
          return {system_encode(k): system_encode(env[k]) for k in env}
      if extra:
          return os.environ.copy()
      return None

  def _add_to_env(self, env, extra):
      for name in extra:
          if not name.startswith("env:"):
              raise RuntimeError(
                  f"Keyword argument '{name}' is not supported by this keyword."
              )
          env[system_encode(name[4:])] = system_encode(extra[name])
  \<close>
  A dictionary is a list of pairs with distinct keys, in insertion order; storing
  under a key that is there replaces its value in place, as Python does.

  Modelled from the spec: \<open>NormalizedDict\<close> of \<open>robot.utils\<close> is not among the
  sources; the spec says that on case-insensitive platforms keys are normalized. It is
  modelled as a dictionary whose keys are compared ignoring case and that keeps the
  spelling of the key stored first.
\<close>

fun dict_set :: "(string \<Rightarrow> string) \<Rightarrow> dict \<Rightarrow> string \<Rightarrow> string \<Rightarrow> dict" where
  "dict_set norm [] k v = [(k, v)]"
| "dict_set norm ((k', v') # d) k v =
     (if norm k' = norm k then (k', v) # d else (k', v') # dict_set norm d k v)"

definition setitem :: "dict \<Rightarrow> string \<Rightarrow> string \<Rightarrow> dict" where
  "setitem d k v = dict_set (\<lambda>key. key) d k v"

definition normalized_setitem :: "dict \<Rightarrow> string \<Rightarrow> string \<Rightarrow> dict" where
  "normalized_setitem d k v = dict_set lower d k v"

definition get_initial_env :: "externals \<Rightarrow> dict option \<Rightarrow> dict \<Rightarrow> dict option" where
  "get_initial_env X env' extra =
     (if env' \<noteq> None \<and> env' \<noteq> Some [] then
        Some (fold (\<lambda>(k, v) d. setitem d (system_encode X k) (system_encode X v))
                (case env' of Some e \<Rightarrow> e | None \<Rightarrow> []) [])
      else if extra \<noteq> [] then Some (environ X)
      else None)"

fun add_to_env ::
  "externals \<Rightarrow> (dict \<Rightarrow> string \<Rightarrow> string \<Rightarrow> dict) \<Rightarrow> dict \<Rightarrow> dict \<Rightarrow> error + dict"
where
  "add_to_env X store env' [] = Inr env'"
| "add_to_env X store env' ((name', v) # extra) =
     (if \<not> startswith name' ''env:''
      then Inl (RuntimeError (''Keyword argument '' @ [CHR 0x27] @ name' @ [CHR 0x27]
                  @ '' is not supported by this keyword.''))
      else add_to_env X store (store env' (system_encode X (drop 4 name')) (system_encode X v)) extra)"

definition construct_env :: "externals \<Rightarrow> dict option \<Rightarrow> dict \<Rightarrow> error + dict option" where
  "construct_env X env' extra =
     (case get_initial_env X env' extra of
        None \<Rightarrow> Inr None
      | Some initial \<Rightarrow>
          if WINDOWS X then
            (case add_to_env X normalized_setitem
                    (fold (\<lambda>(k, v) d. normalized_setitem d k v) initial []) extra of
               Inl e \<Rightarrow> Inl e
             | Inr merged \<Rightarrow> Inr (Some (fold (\<lambda>(k, v) d. setitem d (upper k) v) merged [])))
          else
            (case add_to_env X setitem initial extra of
               Inl e \<Rightarrow> Inl e
             | Inr merged \<Rightarrow> Inr (Some merged)))"

text \<open>
  \<^verbatim>\<open>
  def __init__(self, cwd=None, shell=False, stdout=None, stderr=None, stdin=None,
               output_encoding="CONSOLE", alias=None, env=None, **env_extra):
      self.cwd = os.path.normpath(cwd) if cwd else os.path.abspath(".")
      self.shell = shell
      self.alias = alias
      self.output_encoding = output_encoding
      self.stdout_stream = self._new_stream(stdout)
      self.stderr_stream = self._get_stderr(stderr, stdout, self.stdout_stream)
      self.stdin_stream = self._get_stdin(stdin)
      self.env = self._construct_env(env, env_extra)
  \<close>
  Files that were opened stay open when a later step raises.
\<close>

definition ProcessConfiguration_init ::
  "externals \<Rightarrow> arguments \<Rightarrow> state \<Rightarrow> (error + ProcessConfiguration) \<times> state"
where
  "ProcessConfiguration_init X a s =
     (let cwd' = (if truthy (a_cwd a)
                  then normpath X (case a_cwd a of Some d \<Rightarrow> d | None \<Rightarrow> [])
                  else abspath X ''.'')
      in case new_stream X cwd' (a_stdout a) s of
           (Inl e, s1) \<Rightarrow> (Inl e, s1)
         | (Inr out, s1) \<Rightarrow>
             (case get_stderr X cwd' (a_stderr a) (a_stdout a) out s1 of
                (Inl e, s2) \<Rightarrow> (Inl e, s2)
              | (Inr err, s2) \<Rightarrow>
                  (case get_stdin X cwd' (a_output_encoding a) (a_stdin a) s2 of
                     (Inl e, s3) \<Rightarrow> (Inl e, s3)
                   | (Inr inp, s3) \<Rightarrow>
                       (case construct_env X (a_env a) (a_env_extra a) of
                          Inl e \<Rightarrow> (Inl e, s3)
                        | Inr env' \<Rightarrow>
                            (Inr \<lparr>cwd = cwd', shell = a_shell a, alias' = a_alias a,
                                  output_encoding = a_output_encoding a,
                                  stdout_stream = out, stderr_stream = err,
                                  stdin_stream = inp, env = env'\<rparr>, s3)))))"

section \<open>Command lines\<close>

text \<open>
  \<open>subprocess.list2cmdline\<close> of the Python library, which \<open>join_command_line\<close> and
  \<open>get_command\<close> call, written out from its source: an argument that is empty or
  holds a space or a tab is put in double quotes; a double quote becomes
  backslash-quote and the backslashes in front of it are doubled; backslashes at the
  end of a quoted argument are doubled; other backslashes stay. The arguments are
  separated by one space. \<open>bs\<close> is the length of the buffer \<open>bs_buf\<close>.
\<close>

definition backslash :: char where
  "backslash = CHR 0x5C"

definition dquote :: char where
  "dquote = CHR 0x22"

definition squote :: char where
  "squote = CHR 0x27"

definition space :: char where
  "space = CHR 0x20"

definition tab :: char where
  "tab = CHR 0x09"

fun list2cmdline_chars :: "nat \<Rightarrow> string \<Rightarrow> string \<times> nat" where
  "list2cmdline_chars bs [] = ([], bs)"
| "list2cmdline_chars bs (c # cs) =
     (if c = backslash then list2cmdline_chars (Suc bs) cs
      else if c = dquote then
        (let (out, bs') = list2cmdline_chars 0 cs
         in (replicate (2 * bs) backslash @ [backslash, dquote] @ out, bs'))
      else
        (let (out, bs') = list2cmdline_chars 0 cs
         in (replicate bs backslash @ [c] @ out, bs')))"

definition list2cmdline_arg :: "string \<Rightarrow> string" where
  "list2cmdline_arg arg =
     (let needquote = (List.member arg space \<or> List.member arg tab \<or> arg = []);
          (out, bs) = list2cmdline_chars 0 arg
      in (if needquote then [dquote] else []) @ out @ replicate bs backslash
         @ (if needquote then replicate bs backslash @ [dquote] else []))"

definition list2cmdline :: "string list \<Rightarrow> string" where
  "list2cmdline seq =
     fold (\<lambda>arg result. (if result \<noteq> [] then result @ [space] else result) @ list2cmdline_arg arg)
       seq []"

text \<open>
  \<^verbatim>\<open>
  def join_command_line(self, *args) -> str:
      if len(args) == 1 and is_list_like(args[0]):
          args = args[0]
      return subprocess.list2cmdline(str(a) for a in args)
  \<close>
  The keyword is called with strings, or with one list of strings.
\<close>

datatype join_args = Strings "string list" | OneList "string list"

definition join_command_line :: "join_args \<Rightarrow> string" where
  "join_command_line args = list2cmdline (case args of Strings xs \<Rightarrow> xs | OneList xs \<Rightarrow> xs)"

text \<open>
  Modelled from the spec: \<open>cmdline2list\<close> of \<open>robot.utils\<close>, which
  \<open>split_command_line\<close> returns the value of, is not among the sources. The spec
  says that split honours quoting; the keyword's documentation says that the string
  is split from spaces, that an argument surrounded in quotes may contain spaces, and
  that backslash is an escape character only when \<open>escaping\<close> is true, where it can
  escape unquoted spaces and quotes inside quotes. The model reads the string from
  the left as a POSIX shell lexer does: white space (space, tab, carriage return,
  line feed) ends an argument, a part between two double quotes or two single quotes
  is taken as it is, an argument is dropped only when it is empty and had no quotes,
  and a quote that is not closed, or an escape with nothing after it, is an error.
\<close>

datatype lexer_state = Between | InWord | InQuote char | Escaped "char option"

definition is_whitespace :: "char \<Rightarrow> bool" where
  "is_whitespace c = List.member [space, tab, CR, LF] c"

definition is_quote :: "char \<Rightarrow> bool" where
  "is_quote c = List.member [dquote, squote] c"

definition emit :: "string \<Rightarrow> error + string list \<Rightarrow> error + string list" where
  "emit token rest = (case rest of Inl e \<Rightarrow> Inl e | Inr tokens \<Rightarrow> Inr (token # tokens))"

fun lexer :: "bool \<Rightarrow> lexer_state \<Rightarrow> string \<Rightarrow> bool \<Rightarrow> string \<Rightarrow> error + string list" where
  "lexer escaping st token quoted [] =
     (case st of
        Between \<Rightarrow> Inr []
      | InWord \<Rightarrow> if token \<noteq> [] \<or> quoted then Inr [token] else Inr []
      | InQuote q \<Rightarrow> Inl ValueError
      | Escaped q \<Rightarrow> Inl ValueError)"
| "lexer escaping st token quoted (c # cs) =
     (case st of
        Between \<Rightarrow>
          if is_whitespace c then lexer escaping Between [] False cs
          else if escaping \<and> c = backslash then lexer escaping (Escaped None) [] False cs
          else if is_quote c then lexer escaping (InQuote c) [] True cs
          else lexer escaping InWord [c] False cs
      | InWord \<Rightarrow>
          if is_whitespace c then
            (if token \<noteq> [] \<or> quoted then emit token (lexer escaping Between [] False cs)
             else lexer escaping Between [] False cs)
          else if is_quote c then lexer escaping (InQuote c) token True cs
          else if escaping \<and> c = backslash then lexer escaping (Escaped None) token quoted cs
          else lexer escaping InWord (token @ [c]) quoted cs
      | InQuote q \<Rightarrow>
          if c = q then lexer escaping InWord token True cs
          else if escaping \<and> c = backslash then lexer escaping (Escaped (Some q)) token True cs
          else lexer escaping (InQuote q) (token @ [c]) True cs
      | Escaped None \<Rightarrow> lexer escaping InWord (token @ [c]) quoted cs
      | Escaped (Some q) \<Rightarrow>
          lexer escaping (InQuote q)
            (token @ (if c \<noteq> backslash \<and> c \<noteq> q then [backslash] else []) @ [c]) True cs)"

definition cmdline2list :: "string \<Rightarrow> bool \<Rightarrow> error + string list" where
  "cmdline2list args escaping = lexer escaping Between [] False args"

text \<open>
  \<^verbatim>\<open>
  def split_command_line(self, args, escaping=False) -> list:
      return cmdline2list(args, escaping=escaping)
  \<close>
\<close>

definition split_command_line :: "string \<Rightarrow> bool \<Rightarrow> error + string list" where
  "split_command_line args escaping = cmdline2list args escaping"

text \<open>
  Arguments that come back from joining and splitting, as shown below: those with no
  double quote, single quote, carriage return or line feed in them which do not both
  hold a space or tab and end in a backslash. \<open>needquote\<close> is the test of
  \<open>list2cmdline\<close> for putting an argument in quotes.
\<close>

definition needquote :: "string \<Rightarrow> bool" where
  "needquote a = (List.member a space \<or> List.member a tab \<or> a = [])"

definition survives :: "string \<Rightarrow> bool" where
  "survives a =
     (list_all (\<lambda>c. \<not> List.member [dquote, squote, CR, LF] c) a
      \<and> \<not> ((List.member a space \<or> List.member a tab) \<and> endswith a [backslash]))"

text \<open>
  \<^verbatim>\<open>
  def get_command(self, command, arguments):
      command = [system_encode(item) for item in (command, *arguments)]
      if not self.shell:
          return command
      if arguments:
          return subprocess.list2cmdline(command)
      return command[0]
  \<close>
\<close>

definition get_command :: "externals \<Rightarrow> ProcessConfiguration \<Rightarrow> string \<Rightarrow> string list \<Rightarrow> command" where
  "get_command X conf command' arguments' =
     (let encoded = map (system_encode X) (command' # arguments') in
      if \<not> shell conf then CmdList encoded
      else if arguments' \<noteq> [] then CmdStr (list2cmdline encoded)
      else CmdStr (system_encode X command'))"

section \<open>Starting a process\<close>

text \<open>
  \<open>subprocess.Popen(command, **conf.popen_config)\<close>: the call raises \<open>OSError\<close> when
  the command cannot be started. Otherwise there is a new process object, with a pipe
  end for each stream that was asked for as \<open>PIPE\<close> and \<open>None\<close> for the others.
\<close>

definition make_pipe :: "bool \<Rightarrow> string option \<Rightarrow> state \<Rightarrow> nat option \<times> state" where
  "make_pipe wanted data s =
     (if wanted then
        (let (f, s1) = alloc \<lparr>name = ''<pipe>'', closed = False, content = data\<rparr> s
         in (Some f, s1))
      else (None, s))"

definition Popen :: "externals \<Rightarrow> command \<Rightarrow> ProcessConfiguration \<Rightarrow> state \<Rightarrow> (error + nat) \<times> state" where
  "Popen X command' conf s =
     (if \<not> can_spawn X command' then (Inl OSError, s)
      else
        (let p = next_popen s;
             (inp, s1) = make_pipe (stdin_stream conf = Some PIPE) None s;
             (out, s2) = make_pipe (stdout_stream conf = PIPE) (out_data (os s p)) s1;
             (err, s3) = make_pipe (stderr_stream conf = PIPE) (err_data (os s p)) s2;
             process = \<lparr>pid = os_pid (os s p), p_stdin = inp, p_stdout = out, p_stderr = err,
                        returncode = None\<rparr>
         in (Inr p, s3\<lparr>popens := (popens s3)(p := process), next_popen := Suc p\<rparr>)))"

text \<open>
  \<^verbatim>\<open>
  def _log_start(self, command, config):
      if is_list_like(command):
          command = self.join_command_line(command)
      logger.info(f"Starting process:\n{system_decode(command)}")
      logger.debug(f"Process configuration:\n{config}")
  \<close>
  The text of the configuration is left out of the logged message.
\<close>

definition log_start :: "externals \<Rightarrow> command \<Rightarrow> ProcessConfiguration \<Rightarrow> state \<Rightarrow> state" where
  "log_start X command' config s =
     (let text = (case command' of CmdList items \<Rightarrow> join_command_line (OneList items) | CmdStr c \<Rightarrow> c)
      in logger (Debug ''Process configuration:'')
           (logger (Info (''Starting process:'' @ [LF] @ system_decode X text)) s))"

text \<open>
  \<^verbatim>\<open>
  conf = ProcessConfiguration(cwd=cwd, shell=shell, stdout=stdout, stderr=stderr,
                              stdin=stdin, output_encoding=output_encoding,
                              alias=alias, env=env, **env_extra)
  command = conf.get_command(command, list(arguments))
  self._log_start(command, conf)
  process = subprocess.Popen(command, **conf.popen_config)
  self._results[process] = ExecutionResult(process, **conf.result_config)
  self._processes.register(process, alias=conf.alias)
  return self._processes.current
  \<close>
\<close>

definition start_process ::
  "externals \<Rightarrow> string \<Rightarrow> string list \<Rightarrow> arguments \<Rightarrow> state \<Rightarrow> (error + nat option) \<times> state"
where
  "start_process X command' arguments' a s =
     (case ProcessConfiguration_init X a s of
        (Inl e, s1) \<Rightarrow> (Inl e, s1)
      | (Inr conf, s1) \<Rightarrow>
          (let cmd = get_command X conf command' arguments';
               s2 = log_start X cmd conf s1
           in case Popen X cmd conf s2 of
                (Inl e, s3) \<Rightarrow> (Inl e, s3)
              | (Inr process, s3) \<Rightarrow>
                  (let s4 = set_result process
                              (ExecutionResult_init s3 process (Some (stdout_stream conf))
                                 (Some (stderr_stream conf)) (stdin_stream conf)
                                 (output_encoding conf)) s3
                   in case register (processes s4) process (alias' conf) of
                        Inl e \<Rightarrow> (Inl e, s4)
                      | Inr cache \<Rightarrow> (Inr (current cache), s4\<lparr>processes := cache\<rparr>))))"

text \<open>
  What the steps of \<open>start_process\<close> before the registration leave alone: a state
  reached from another by opening files, creating pipes, writing files and logging
  has the same registry, results, process objects, clock and processes of the
  operating system, and the file objects that were there are as they were.
\<close>

definition only_new_objects :: "state \<Rightarrow> state \<Rightarrow> bool" where
  "only_new_objects s s' =
     (processes s' = processes s \<and> results s' = results s \<and> popens s' = popens s
      \<and> next_popen s' = next_popen s \<and> os s' = os s \<and> now s' = now s
      \<and> next_obj s \<le> next_obj s' \<and> (\<forall>i. i < next_obj s \<longrightarrow> heap s' i = heap s i))"

section \<open>Waiting, terminating and killing\<close>

text \<open>
  \<open>process.poll()\<close> returns the return code it has, or asks the operating system and
  keeps what it learns. \<open>time.sleep\<close> moves the clock; nothing else does, but a
  \<open>communicate\<close> call that times out.
  \<^verbatim>\<open>
  def _process_is_stopped(self, process, timeout):
      stopped = lambda: process.poll() is not None
      max_time = time.time() + timeout
      while time.time() <= max_time and not stopped():
          time.sleep(min(0.1, timeout))
      return stopped()
  \<close>
  The library calls it with a positive timeout. With a timeout of zero the loop of
  the model ends after one look, as it does when the real clock moves on by itself.
\<close>

definition poll :: "nat \<Rightarrow> state \<Rightarrow> int option \<times> state" where
  "poll process s =
     (case returncode (popens s process) of
        Some code \<Rightarrow> (Some code, s)
      | None \<Rightarrow>
          (let seen = poll_at (os s process) (now s)
           in (seen, set_popen process ((popens s process)\<lparr>returncode := seen\<rparr>) s)))"

definition sleep :: "int \<Rightarrow> state \<Rightarrow> state" where
  "sleep d s = s\<lparr>now := now s + d\<rparr>"

function stopped_loop :: "nat \<Rightarrow> int \<Rightarrow> int \<Rightarrow> state \<Rightarrow> state" where
  "stopped_loop process max_time step s =
     (if now s \<le> max_time \<and> fst (poll process s) = None \<and> 0 < step
      then stopped_loop process max_time step (sleep step (snd (poll process s)))
      else snd (poll process s))"
  by pat_completeness auto
termination
  by (relation "measure (\<lambda>(process, max_time, step, s). nat (max_time + 1 - now s))")
     (auto simp: sleep_def poll_def set_popen_def Let_def split: option.splits)

declare stopped_loop.simps [simp del]

definition process_is_stopped :: "nat \<Rightarrow> int \<Rightarrow> state \<Rightarrow> bool \<times> state" where
  "process_is_stopped process timeout s =
     (let max_time = now s + timeout;
          s1 = (if now s \<le> max_time then stopped_loop process max_time (min 100 timeout) s else s);
          (seen, s2) = poll process s1
      in (seen \<noteq> None, s2))"

text \<open>
  Signalling: the delivery raises \<open>OSError\<close>, or the signal is on its way and the
  run's record says so.
  \<^verbatim>\<open>
  def _kill(self, process):
      logger.info("Forcefully killing process.")
      if hasattr(os, "killpg"):
          os.killpg(process.pid, signal_module.SIGKILL)
      else:
          process.kill()
      if not self._process_is_stopped(process, self.KILL_TIMEOUT):
          raise RuntimeError("Failed to kill process.")

  def _terminate(self, process):
      logger.info("Gracefully terminating process.")
      if hasattr(os, "killpg"):
          os.killpg(process.pid, signal_module.SIGTERM)
      elif hasattr(signal_module, "CTRL_BREAK_EVENT"):
          process.send_signal(signal_module.CTRL_BREAK_EVENT)
      else:
          process.terminate()
      if not self._process_is_stopped(process, self.TERMINATE_TIMEOUT):
          logger.info("Graceful termination failed.")
          self._kill(process)
  \<close>
\<close>

definition deliver :: "nat \<Rightarrow> delivery \<Rightarrow> state \<Rightarrow> (error + unit) \<times> state" where
  "deliver process d s =
     (if delivery_fails (os s process) d then (Inl OSError, s)
      else (Inr (), logger (Sent process d) s))"

definition kill_delivery :: "externals \<Rightarrow> delivery" where
  "kill_delivery X = (if has_killpg X then Killpg SIGKILL else Kill)"

definition kill :: "externals \<Rightarrow> nat \<Rightarrow> state \<Rightarrow> (error + unit) \<times> state" where
  "kill X process s =
     (let s1 = logger (Info ''Forcefully killing process.'') s in
      case deliver process (kill_delivery X) s1 of
        (Inl e, s2) \<Rightarrow> (Inl e, s2)
      | (Inr _, s2) \<Rightarrow>
          (let (stopped, s3) = process_is_stopped process KILL_TIMEOUT s2 in
           if \<not> stopped then (Inl (RuntimeError ''Failed to kill process.''), s3)
           else (Inr (), s3)))"

definition terminate :: "externals \<Rightarrow> nat \<Rightarrow> state \<Rightarrow> (error + unit) \<times> state" where
  "terminate X process s =
     (let s1 = logger (Info ''Gracefully terminating process.'') s in
      case deliver process
             (if has_killpg X then Killpg SIGTERM
              else if has_CTRL_BREAK_EVENT X then Send_signal CTRL_BREAK_EVENT
              else Terminate) s1 of
        (Inl e, s2) \<Rightarrow> (Inl e, s2)
      | (Inr _, s2) \<Rightarrow>
          (let (stopped, s3) = process_is_stopped process TERMINATE_TIMEOUT s2 in
           if \<not> stopped then kill X process (logger (Info ''Graceful termination failed.'') s3)
           else (Inr (), s3)))"

text \<open>
  A \<open>communicate\<close> call that returns has waited for the process: the return code is
  set, the pipe ends are closed, and for each of \<open>stdout\<close> and \<open>stderr\<close> it returns
  the data of the pipe, or \<open>None\<close> where the stream was not a pipe.
  \<^verbatim>\<open>
  def _wait(self, process):
      result = self._results[process]
      if process.stdin and process.stdin.closed:
          process.stdin = None
      while True:
          try:
              result.stdout, result.stderr = process.communicate(timeout=0.1)
          except subprocess.TimeoutExpired:
              continue
          except TimeoutExceeded:
              logger.info("Timeout exceeded.")
              self._kill(process)
              raise
          else:
              break
      result.rc = process.returncode
      result.close_streams()
      logger.info("Process completed.")
      return result
  \<close>
  The loop runs over the outcomes of the \<open>communicate\<close> calls that the run holds for
  the process. When they are used up the loop never ends, and there is no outcome:
  \<open>None\<close>. \<open>cancelled\<close> is the handler of \<open>TimeoutExceeded\<close>, \<open>completed\<close> what
  follows a \<open>communicate\<close> call that returned; \<open>kill_delivery\<close> names the way
  \<open>_kill\<close> signals on the platform. The result object is written back to
  \<open>_results\<close> wherever the method leaves after changing it.
\<close>

definition communicate_returns ::
  "nat \<Rightarrow> string \<Rightarrow> string \<Rightarrow> int \<Rightarrow> state \<Rightarrow> (string option \<times> string option) \<times> state"
where
  "communicate_returns process out err code s =
     (let pr = popens s process;
          pr1 = pr\<lparr>returncode := (case returncode pr of None \<Rightarrow> Some code | Some c \<Rightarrow> Some c)\<rparr>;
          s1 = close_open [p_stdin pr, p_stdout pr, p_stderr pr] (set_popen process pr1 s)
      in ((if p_stdout pr = None then None else Some out,
           if p_stderr pr = None then None else Some err), s1))"

definition take_outcome :: "nat \<Rightarrow> communicated list \<Rightarrow> state \<Rightarrow> state" where
  "take_outcome process script s =
     s\<lparr>os := (os s)(process := (os s process)\<lparr>communicate_script := script\<rparr>)\<rparr>"

definition cancelled :: "externals \<Rightarrow> nat \<Rightarrow> state \<Rightarrow> ((error + ExecutionResult) \<times> state) option" where
  "cancelled X process s =
     (case kill X process (logger (Info ''Timeout exceeded.'') s) of
        (Inl e, s1) \<Rightarrow> Some (Inl e, s1)
      | (Inr _, s1) \<Rightarrow> Some (Inl TimeoutExceeded, s1))"

definition completed ::
  "externals \<Rightarrow> nat \<Rightarrow> ExecutionResult \<Rightarrow> string \<Rightarrow> string \<Rightarrow> int \<Rightarrow> state
     \<Rightarrow> ((error + ExecutionResult) \<times> state) option"
where
  "completed X process r out err code s =
     (let ((out', err'), s1) = communicate_returns process out err code s;
          r1 = set_stderr X err' (set_stdout X out' r);
          r2 = r1\<lparr>rc := returncode (popens s1 process)\<rparr>
      in case close_streams X r2 s1 of
           (Inl e, r3, s2) \<Rightarrow> Some (Inl e, set_result process r3 s2)
         | (Inr _, r3, s2) \<Rightarrow>
             Some (Inr r3, logger (Info ''Process completed.'') (set_result process r3 s2)))"

fun wait_loop ::
  "externals \<Rightarrow> nat \<Rightarrow> ExecutionResult \<Rightarrow> communicated list \<Rightarrow> state
     \<Rightarrow> ((error + ExecutionResult) \<times> state) option"
where
  "wait_loop X process r [] s = None"
| "wait_loop X process r (c # script) s =
     (let s1 = take_outcome process script s in
      case c of
        TimeoutExpired \<Rightarrow> wait_loop X process r script (sleep 100 s1)
      | Cancelled \<Rightarrow> cancelled X process s1
      | Done out err code \<Rightarrow> completed X process r out err code s1)"

definition forget_closed_stdin :: "nat \<Rightarrow> state \<Rightarrow> state" where
  "forget_closed_stdin process s =
     (if (case p_stdin (popens s process) of None \<Rightarrow> False | Some i \<Rightarrow> closed (heap s i))
      then set_popen process ((popens s process)\<lparr>p_stdin := None\<rparr>) s else s)"

definition wait :: "externals \<Rightarrow> nat \<Rightarrow> state \<Rightarrow> ((error + ExecutionResult) \<times> state) option" where
  "wait X process s =
     (case results s process of
        None \<Rightarrow> Some (Inl KeyError, s)
      | Some r \<Rightarrow>
          wait_loop X process r (communicate_script (os s process)) (forget_closed_stdin process s))"

text \<open>
  \<^verbatim>\<open>
  def terminate_process(self, handle=None, kill=False) -> Any:
      process = self._processes[handle]
      if not hasattr(process, "terminate"):
          raise RuntimeError(
              "Terminating processes is not supported by this Python version."
          )
      terminator = self._kill if kill else self._terminate
      try:
          terminator(process)
      except OSError:
          if not self._process_is_stopped(process, self.KILL_TIMEOUT):
              raise
          logger.debug("Ignored OSError because process was stopped.")
      return self._wait(process)
  \<close>
\<close>

definition terminate_process ::
  "externals \<Rightarrow> handle \<Rightarrow> bool \<Rightarrow> state \<Rightarrow> ((error + ExecutionResult) \<times> state) option"
where
  "terminate_process X h kill' s =
     (case getitem (processes s) h of
        Inl e \<Rightarrow> Some (Inl e, s)
      | Inr process \<Rightarrow>
          if \<not> has_terminate X then
            Some (Inl (RuntimeError ''Terminating processes is not supported by this Python version.''), s)
          else
            (case (if kill' then kill X process s else terminate X process s) of
               (Inl OSError, s1) \<Rightarrow>
                 (let (stopped, s2) = process_is_stopped process KILL_TIMEOUT s1 in
                  if \<not> stopped then Some (Inl OSError, s2)
                  else wait X process
                         (logger (Debug ''Ignored OSError because process was stopped.'') s2))
             | (Inl e, s1) \<Rightarrow> Some (Inl e, s1)
             | (Inr _, s1) \<Rightarrow> wait X process s1))"

text \<open>
  \<^verbatim>\<open>
  def wait_for_process(self, handle=None, timeout=None, on_timeout="continue") -> Any:
      process = self._processes[handle]
      logger.info("Waiting for process to complete.")
      timeout = self._get_timeout(timeout)
      if timeout > 0 and not self._process_is_stopped(process, timeout):
          logger.info(f"Process did not complete in {secs_to_timestr(timeout)}.")
          return self._manage_process_timeout(handle, on_timeout.lower())
      return self._wait(process)

  def _get_timeout(self, timeout):
      if (isinstance(timeout, str) and timeout.upper() == "NONE") or not timeout:
          return -1
      return timestr_to_secs(timeout)

  def _manage_process_timeout(self, handle, on_timeout):
      if on_timeout == "terminate":
          return self.terminate_process(handle)
      if on_timeout == "kill":
          return self.terminate_process(handle, kill=True)
      logger.info("Leaving process intact.")
      return None
  \<close>
  What the keyword returns is a result object or \<open>None\<close>.
\<close>

definition falsy :: "timeout_arg \<Rightarrow> bool" where
  "falsy timeout = (case timeout of TNone \<Rightarrow> True | TStr t \<Rightarrow> t = [] | TNum n \<Rightarrow> n = 0)"

definition get_timeout :: "externals \<Rightarrow> timeout_arg \<Rightarrow> error + int" where
  "get_timeout X timeout =
     (if (case timeout of TStr t \<Rightarrow> upper t = ''NONE'' | _ \<Rightarrow> False) \<or> falsy timeout
      then Inr (- 1000)
      else timestr_to_secs X timeout)"

definition returned ::
  "((error + ExecutionResult) \<times> state) option \<Rightarrow> ((error + ExecutionResult option) \<times> state) option"
where
  "returned outcome =
     (case outcome of
        None \<Rightarrow> None
      | Some (Inl e, s) \<Rightarrow> Some (Inl e, s)
      | Some (Inr r, s) \<Rightarrow> Some (Inr (Some r), s))"

definition manage_process_timeout ::
  "externals \<Rightarrow> handle \<Rightarrow> string \<Rightarrow> state \<Rightarrow> ((error + ExecutionResult option) \<times> state) option"
where
  "manage_process_timeout X h on_timeout s =
     (if on_timeout = ''terminate'' then returned (terminate_process X h False s)
      else if on_timeout = ''kill'' then returned (terminate_process X h True s)
      else Some (Inr None, logger (Info ''Leaving process intact.'') s))"

definition wait_for_process ::
  "externals \<Rightarrow> handle \<Rightarrow> timeout_arg \<Rightarrow> string \<Rightarrow> state
     \<Rightarrow> ((error + ExecutionResult option) \<times> state) option"
where
  "wait_for_process X h timeout on_timeout s =
     (case getitem (processes s) h of
        Inl e \<Rightarrow> Some (Inl e, s)
      | Inr process \<Rightarrow>
          (let s1 = logger (Info ''Waiting for process to complete.'') s in
           case get_timeout X timeout of
             Inl e \<Rightarrow> Some (Inl e, s1)
           | Inr t \<Rightarrow>
               if 0 < t \<and> \<not> fst (process_is_stopped process t s1) then
                 manage_process_timeout X h (lower on_timeout)
                   (logger (Info (''Process did not complete in '' @ secs_to_timestr X t @ ''.''))
                      (snd (process_is_stopped process t s1)))
               else
                 returned (wait X process
                   (if 0 < t then snd (process_is_stopped process t s1) else s1))))"

section \<open>Getting results\<close>

text \<open>
  \<^verbatim>\<open>
  def get_process_result(self, handle=None, rc=False, stdout=False, stderr=False,
                         stdout_path=False, stderr_path=False) -> Any:
      result = self._results[self._processes[handle]]
      if result.rc is None:
          raise RuntimeError(
              "Getting results of unfinished processes is not supported."
          )
      attributes = self._get_result_attributes(
          result, rc, stdout, stderr, stdout_path, stderr_path,
      )
      if not attributes:
          return result
      if len(attributes) == 1:
          return attributes[0]
      return attributes

  def _get_result_attributes(self, result, *includes):
      attributes = (
          result.rc, result.stdout, result.stderr,
          result.stdout_path, result.stderr_path,
      )
      return tuple(attr for attr, incl in zip(attributes, includes) if incl)
  \<close>
  Building the tuple \<open>attributes\<close> reads both output properties, whatever is asked
  for. What the keyword returns is a result object, one attribute or a tuple of
  attributes.
\<close>

datatype py_value = PyInt int | PyStr string | PyNone

datatype got = Result ExecutionResult | Attribute py_value | Attributes "py_value list"

definition of_int_option :: "int option \<Rightarrow> py_value" where
  "of_int_option v = (case v of None \<Rightarrow> PyNone | Some n \<Rightarrow> PyInt n)"

definition of_str_option :: "string option \<Rightarrow> py_value" where
  "of_str_option v = (case v of None \<Rightarrow> PyNone | Some t \<Rightarrow> PyStr t)"

definition get_result_attributes ::
  "externals \<Rightarrow> ExecutionResult \<Rightarrow> bool list \<Rightarrow> state
     \<Rightarrow> (error + py_value list) \<times> ExecutionResult \<times> state"
where
  "get_result_attributes X r includes s =
     (case stdout X r s of
        (Inl e, r1, s1) \<Rightarrow> (Inl e, r1, s1)
      | (Inr out, r1, s1) \<Rightarrow>
          (case stderr X r1 s1 of
             (Inl e, r2, s2) \<Rightarrow> (Inl e, r2, s2)
           | (Inr err, r2, s2) \<Rightarrow>
               (let attributes = [of_int_option (rc r), of_str_option out, of_str_option err,
                                  of_str_option (stdout_path r), of_str_option (stderr_path r)]
                in (Inr (map fst (filter snd (zip attributes includes))), r2, s2))))"

definition get_process_result ::
  "externals \<Rightarrow> handle \<Rightarrow> bool \<Rightarrow> bool \<Rightarrow> bool \<Rightarrow> bool \<Rightarrow> bool \<Rightarrow> state \<Rightarrow> (error + got) \<times> state"
where
  "get_process_result X h rc' stdout' stderr' stdout_path' stderr_path' s =
     (case getitem (processes s) h of
        Inl e \<Rightarrow> (Inl e, s)
      | Inr process \<Rightarrow>
          (case results s process of
             None \<Rightarrow> (Inl KeyError, s)
           | Some result \<Rightarrow>
               if rc result = None then
                 (Inl (RuntimeError ''Getting results of unfinished processes is not supported.''), s)
               else
                 (case get_result_attributes X result
                         [rc', stdout', stderr', stdout_path', stderr_path'] s of
                    (Inl e, r1, s1) \<Rightarrow> (Inl e, set_result process r1 s1)
                  | (Inr attributes, r1, s1) \<Rightarrow>
                      (if attributes = [] then Inr (Result r1)
                       else if length attributes = 1 then Inr (Attribute (hd attributes))
                       else Inr (Attributes attributes),
                       set_result process r1 s1))))"

text \<open>
  The attributes that were asked for, in the order return code, stdout, stderr, stdout
  path, stderr path.
\<close>

definition requested ::
  "py_value \<Rightarrow> py_value \<Rightarrow> py_value \<Rightarrow> py_value \<Rightarrow> py_value
     \<Rightarrow> bool \<Rightarrow> bool \<Rightarrow> bool \<Rightarrow> bool \<Rightarrow> bool \<Rightarrow> py_value list"
where
  "requested v_rc v_stdout v_stderr v_stdout_path v_stderr_path a b c d e =
     (if a then [v_rc] else []) @ (if b then [v_stdout] else []) @ (if c then [v_stderr] else [])
     @ (if d then [v_stdout_path] else []) @ (if e then [v_stderr_path] else [])"

section \<open>Concrete runs\<close>

text \<open>
  A library that has started nothing, on a machine where every path can be written
  and no file exists yet; a process started there runs for ever, prints nothing, and
  every signal can be delivered to it.
\<close>

definition fresh :: state where
  "fresh = \<lparr>processes = \<lparr>connections = [], aliases = [], current = None\<rparr>,
     results = (\<lambda>p. None),
     popens = (\<lambda>p. \<lparr>pid = 0, p_stdin = None, p_stdout = None, p_stderr = None, returncode = None\<rparr>),
     next_popen = 0,
     heap = (\<lambda>i. \<lparr>name = [], closed = True, content = None\<rparr>),
     next_obj = 0,
     disk = (\<lambda>path. Missing),
     writable = (\<lambda>path. True),
     now = 0,
     os = (\<lambda>p. \<lparr>os_pid = 100 + p, poll_at = (\<lambda>t. None), communicate_script = [],
                  delivery_fails = (\<lambda>d. False), out_data = Some [], err_data = Some []\<rparr>),
     trace = []\<rparr>"

text \<open>
  A library that tracks one process, started with the alias \<open>first\<close>, and holds the
  given result for it; a result of a process that has ended with its outputs
  captured, and one of a process that has not ended.
\<close>

definition done_result :: ExecutionResult where
  "done_result = \<lparr>r_process = 0, stdout_path = None, stderr_path = None, rc = Some 0,
     r_output_encoding = ''UTF-8'', r_stdout = Some ''hello'', r_stderr = Some [],
     r_custom_streams = []\<rparr>"

definition pending_result :: ExecutionResult where
  "pending_result = done_result\<lparr>rc := None, r_stdout := None, r_stderr := None\<rparr>"

definition tracking :: "ExecutionResult \<Rightarrow> state" where
  "tracking r = fresh\<lparr>processes := \<lparr>connections = [0], aliases = [(''first'', 1)], current = Some 0\<rparr>,
     results := (\<lambda>p. if p = 0 then Some r else None), next_popen := 1\<rparr>"

text \<open>The same interpreter on Windows.\<close>

definition windows :: externals where
  "windows = posix\<lparr>WINDOWS := True, has_killpg := False, has_CTRL_BREAK_EVENT := True\<rparr>"

text \<open>
  A run in which the wait of the tracked process is cancelled from outside: the first
  \<open>communicate\<close> call times out and the second is interrupted. What \<open>poll\<close> observes at
  each time, and which deliveries of a signal fail, are left open.
\<close>

definition cancelled_run :: "(int \<Rightarrow> int option) \<Rightarrow> (delivery \<Rightarrow> bool) \<Rightarrow> state" where
  "cancelled_run observed fails =
     (tracking pending_result)\<lparr>os := (\<lambda>p. (os fresh p)\<lparr>poll_at := observed,
        communicate_script := [TimeoutExpired, Cancelled], delivery_fails := fails\<rparr>)\<rparr>"

text \<open>
  A result of a process that has ended with its standard output redirected to the file
  \<open>/work/out.txt\<close> and not read yet; a library that tracks it with the file on disk.
\<close>

definition lost_result :: ExecutionResult where
  "lost_result = done_result\<lparr>stdout_path := Some ''/work/out.txt'', r_stdout := None\<rparr>"

definition filed :: state where
  "filed = (tracking lost_result)\<lparr>disk := (\<lambda>path. if path = ''/work/out.txt''
     then Contents (''line1'' @ [CR, LF] @ ''line2'' @ [CR, LF]) else Missing)\<rparr>"

text \<open>
  A library whose tracked process writes to two pipes, prints \<open>out\<close> and a line feed,
  and ends with return code 0 at the first \<open>communicate\<close> call.
\<close>

definition piped :: state where
  "piped = (tracking pending_result)\<lparr>
     popens := (\<lambda>p. \<lparr>pid = 100, p_stdin = None, p_stdout = Some 0, p_stderr = Some 1,
                      returncode = None\<rparr>),
     heap := (\<lambda>i. \<lparr>name = ''<pipe>'', closed = False, content = Some (''out'' @ [LF])\<rparr>),
     next_obj := 2,
     os := (\<lambda>p. (os fresh p)\<lparr>communicate_script := [Done (''out'' @ [LF]) [] 0]\<rparr>)\<rparr>"

text \<open>
  The keyword arguments of \<open>start_process\<close> when none is given: the defaults of its
  signature.
\<close>

definition defaults :: arguments where
  "defaults = \<lparr>a_cwd = None, a_shell = False, a_stdout = None, a_stderr = None,
     a_stdin = StdinOther None, a_output_encoding = ''CONSOLE'', a_alias = None,
     a_env = None, a_env_extra = []\<rparr>"

section \<open>Properties of output formatting\<close>

lemma CR_neq_LF [simp]: "CR \<noteq> LF" "LF \<noteq> CR"
  by (simp_all add: CR_def LF_def)

lemma str_replace_Nil [simp]: "str_replace old new [] = []"
  by (simp add: str_replace.simps)

lemma str_replace_crlf_hit [simp]:
  "str_replace [CR, LF] [LF] (CR # LF # s) = LF # str_replace [CR, LF] [LF] s"
  by (simp add: str_replace.simps [of "[CR, LF]" "[LF]" "CR # LF # s"])

lemma str_replace_crlf_miss:
  "\<not> (c = CR \<and> take (Suc 0) s = [LF]) \<Longrightarrow>
   str_replace [CR, LF] [LF] (c # s) = c # str_replace [CR, LF] [LF] s"
  by (simp add: str_replace.simps [of "[CR, LF]" "[LF]" "c # s"])

lemma str_replace_crlf_segment:
  "\<not> occurs_in [CR, LF] s \<Longrightarrow>
   str_replace [CR, LF] [LF] (s @ CR # LF # rest) = s @ LF # str_replace [CR, LF] [LF] rest"
proof (induction s)
  case Nil
  show ?case by simp
next
  case (Cons c s)
  from Cons.prems have miss: "\<not> (c = CR \<and> take (Suc 0) s = [LF])"
    and rest: "\<not> occurs_in [CR, LF] s"
    by simp_all
  have "\<not> (c = CR \<and> take (Suc 0) (s @ CR # LF # rest) = [LF])"
  proof (cases s)
    case Nil
    then show ?thesis by simp
  next
    case (Cons d s')
    with miss show ?thesis by simp
  qed
  then have "str_replace [CR, LF] [LF] (c # s @ CR # LF # rest)
      = c # str_replace [CR, LF] [LF] (s @ CR # LF # rest)"
    by (rule str_replace_crlf_miss)
  with Cons.IH [OF rest] show ?case by simp
qed

lemma str_replace_crlf_free:
  "\<not> occurs_in [CR, LF] s \<Longrightarrow> str_replace [CR, LF] [LF] s = s"
proof (induction s)
  case Nil
  show ?case by simp
next
  case (Cons c s)
  then have "\<not> (c = CR \<and> take (Suc 0) s = [LF])" and "\<not> occurs_in [CR, LF] s"
    by simp_all
  with Cons.IH show ?case by (simp add: str_replace_crlf_miss)
qed

lemma str_replace_crlf_join:
  "\<forall>s \<in> set segs. \<not> occurs_in [CR, LF] s \<Longrightarrow>
   str_replace [CR, LF] [LF] (join_with [CR, LF] segs) = join_with [LF] segs"
proof (induction segs rule: induct_list012)
  case 1
  show ?case by simp
next
  case (2 s)
  then show ?case by (simp add: str_replace_crlf_free)
next
  case (3 s t ts)
  then show ?case by (simp add: str_replace_crlf_segment)
qed

lemma str_replace_crlf_example:
  "str_replace [CR, LF] [LF] (''line1'' @ [CR, LF] @ ''line2'' @ [CR, LF])
     = ''line1'' @ [LF] @ ''line2'' @ [LF]"
  by (simp add: str_replace.simps CR_def LF_def)

lemma endswith_snoc [simp]: "endswith (t @ [c]) [c]"
  by (simp add: endswith_def)

text \<open>
  Claim C4. Every text that reaches a result's \<open>stdout\<close> or \<open>stderr\<close> goes through
  \<open>_format_output\<close>. Writing the decoded text as its pieces between the \<open>\r\n\<close>
  sequences, the replaced text is the same pieces joined by \<open>\n\<close>: every \<open>\r\n\<close> has
  become \<open>\n\<close>. Of the replaced text one trailing \<open>\n\<close> is dropped when there is one,
  and only one: what was in front of it is returned as it is, also when it ends in
  \<open>\n\<close> itself; a text with no trailing \<open>\n\<close> is returned unchanged. The raw output
  \<open>line1\r\nline2\r\n\<close> becomes \<open>line1\nline2\<close>.
\<close>

theorem format_output_normalises:
  "format_output X enc None = None
   \<and> ((\<forall>s \<in> set segs. \<not> occurs_in [CR, LF] s) \<and> console_decode X raw enc = join_with [CR, LF] segs
        \<longrightarrow> str_replace [CR, LF] [LF] (console_decode X raw enc) = join_with [LF] segs)
   \<and> (str_replace [CR, LF] [LF] (console_decode X raw enc) = t @ [LF]
        \<longrightarrow> format_output X enc (Some raw) = Some t)
   \<and> (\<not> endswith (str_replace [CR, LF] [LF] (console_decode X raw' enc)) [LF]
        \<longrightarrow> format_output X enc (Some raw')
            = Some (str_replace [CR, LF] [LF] (console_decode X raw' enc)))
   \<and> (console_decode X raw enc = ''line1'' @ [CR, LF] @ ''line2'' @ [CR, LF]
        \<longrightarrow> format_output X enc (Some raw) = Some (''line1'' @ [LF] @ ''line2''))"
proof (intro conjI impI)
  show "format_output X enc None = None"
    by (simp add: format_output_def)
next
  assume "(\<forall>s \<in> set segs. \<not> occurs_in [CR, LF] s)
    \<and> console_decode X raw enc = join_with [CR, LF] segs"
  then show "str_replace [CR, LF] [LF] (console_decode X raw enc) = join_with [LF] segs"
    by (simp add: str_replace_crlf_join)
next
  assume "str_replace [CR, LF] [LF] (console_decode X raw enc) = t @ [LF]"
  then show "format_output X enc (Some raw) = Some t"
    by (simp add: format_output_def)
next
  assume "\<not> endswith (str_replace [CR, LF] [LF] (console_decode X raw' enc)) [LF]"
  then show "format_output X enc (Some raw')
      = Some (str_replace [CR, LF] [LF] (console_decode X raw' enc))"
    by (simp add: format_output_def)
next
  assume "console_decode X raw enc = ''line1'' @ [CR, LF] @ ''line2'' @ [CR, LF]"
  with str_replace_crlf_example
  show "format_output X enc (Some raw) = Some (''line1'' @ [LF] @ ''line2'')"
    by (simp add: format_output_def endswith_def)
qed

theorem format_output_normalises_witness:
  "\<not> occurs_in [CR, LF] ''line1'' \<and> \<not> occurs_in [CR, LF] ''line2'' \<and> \<not> occurs_in [CR, LF] []
   \<and> console_decode posix (''line1'' @ [CR, LF] @ ''line2'' @ [CR, LF]) ''UTF-8''
       = join_with [CR, LF] [''line1'', ''line2'', []]
   \<and> str_replace [CR, LF] [LF] (''line1'' @ [CR, LF] @ ''line2'' @ [CR, LF])
       = (''line1'' @ [LF] @ ''line2'') @ [LF]
   \<and> \<not> endswith (str_replace [CR, LF] [LF] ''abc'') [LF]
   \<and> format_output posix ''UTF-8'' (Some (''line1'' @ [CR, LF] @ ''line2'' @ [CR, LF]))
       = Some (''line1'' @ [LF] @ ''line2'')
   \<and> format_output posix ''UTF-8'' (Some ''abc'') = Some ''abc''"
proof -
  have free: "\<not> occurs_in [CR, LF] ''line1''" "\<not> occurs_in [CR, LF] ''line2''"
      "\<not> occurs_in [CR, LF] []"
    by (simp_all add: CR_def LF_def)
  have abc: "str_replace [CR, LF] [LF] ''abc'' = ''abc''"
    by (simp add: str_replace.simps CR_def LF_def)
  have no_nl: "\<not> endswith ''abc'' [LF]"
    by (simp add: endswith_def LF_def)
  have dec: "console_decode posix s enc = s" for s enc
    by (simp add: posix_def)
  show ?thesis
    using format_output_normalises [of posix "''UTF-8''" "[''line1'', ''line2'', []]"
        "''line1'' @ [CR, LF] @ ''line2'' @ [CR, LF]" "''line1'' @ [LF] @ ''line2''" "''abc''"]
      str_replace_crlf_example free no_nl
    by (simp add: dec abc)
qed


section \<open>Properties of stream and environment resolution\<close>

lemma get_path_file: "get_path s (Some (FileObj f)) = Some (name (heap s f))"
  by (simp add: get_path_def is_custom_stream_def)

lemma get_path_marker: "get_path s (Some STDOUT) = None" "get_path s (Some PIPE) = None"
  by (simp_all add: get_path_def is_custom_stream_def)

text \<open>
  Claim C5, as the code has it. When the \<open>stderr\<close> value is given and not empty, and
  it is the marker \<open>STDOUT\<close> or equal to the \<open>stdout\<close> value, then \<open>stderr\<close>
  is the stream that \<open>stdout\<close> was resolved to, and \<open>subprocess.STDOUT\<close> if that is
  a pipe; nothing is opened. With \<open>stdout\<close> in a file, both streams are the one file
  object and the result's \<open>stderr_path\<close> is its \<open>stdout_path\<close>, the name of that
  file; with a pipe, the result has no \<open>stderr_path\<close>. In every other case, an absent
  or empty \<open>stderr\<close> value among them, \<open>stderr\<close> is resolved on its own by
  \<open>_new_stream\<close>.
\<close>

theorem get_stderr_merges_into_stdout:
  "(truthy stderr' \<and> (stderr' = Some ''STDOUT'' \<or> stderr' = stdout') \<longrightarrow>
      get_stderr X d stderr' stdout' (FileObj f) s = (Inr (FileObj f), s)
      \<and> get_stderr X d stderr' stdout' PIPE s = (Inr STDOUT, s)
      \<and> stderr_path (ExecutionResult_init s p (Some (FileObj f)) (Some (FileObj f)) inp enc)
          = stdout_path (ExecutionResult_init s p (Some (FileObj f)) (Some (FileObj f)) inp enc)
      \<and> stdout_path (ExecutionResult_init s p (Some (FileObj f)) (Some (FileObj f)) inp enc)
          = Some (name (heap s f))
      \<and> stderr_path (ExecutionResult_init s p (Some PIPE) (Some STDOUT) inp enc) = None)
   \<and> (\<not> (truthy other \<and> (other = Some ''STDOUT'' \<or> other = stdout')) \<longrightarrow>
        get_stderr X d other stdout' out s = new_stream X d other s)"
  by (auto simp: get_stderr_def ExecutionResult_init_def get_path_file get_path_marker)

theorem get_stderr_merges_into_stdout_witness:
  "truthy (Some ''STDOUT'')
   \<and> get_stderr posix ''/work'' (Some ''STDOUT'') (Some ''out.txt'') (FileObj 0) fresh
       = (Inr (FileObj 0), fresh)
   \<and> get_stderr posix ''/work'' (Some ''STDOUT'') (Some ''out.txt'') PIPE fresh = (Inr STDOUT, fresh)
   \<and> stderr_path (ExecutionResult_init fresh 0 (Some (FileObj 0)) (Some (FileObj 0)) None ''UTF-8'')
       = Some (name (heap fresh 0))
   \<and> \<not> truthy None
   \<and> get_stderr posix ''/work'' None (Some ''out.txt'') (FileObj 0) fresh
       = new_stream posix ''/work'' None fresh"
  using get_stderr_merges_into_stdout [of "Some ''STDOUT''" "Some ''out.txt''" posix "''/work''" 0
      fresh 0 None "''UTF-8''" None "FileObj 0"]
  by (simp add: truthy_def)

text \<open>
  The claim as it was stated fails where the two values are equal and empty, or both
  absent: each stream is then a pipe of its own.
\<close>

theorem get_stderr_counterexample:
  "get_stderr posix ''/work'' (Some []) (Some []) PIPE fresh = (Inr PIPE, fresh)
   \<and> get_stderr posix ''/work'' None None PIPE fresh = (Inr PIPE, fresh)"
  by (simp add: get_stderr_def truthy_def new_stream_def)

lemma map_of_dict_set_id: "map_of (dict_set (\<lambda>key. key) d k v) = (map_of d)(k \<mapsto> v)"
  by (induction d) (auto simp: fun_eq_iff)

lemma map_of_setitem: "map_of (setitem d k v) = (map_of d)(k \<mapsto> v)"
  by (simp add: setitem_def map_of_dict_set_id)

lemma keys_dict_set_id: "fst ` set (dict_set (\<lambda>key. key) d k v) = insert k (fst ` set d)"
proof (induction d)
  case Nil
  show ?case by simp
next
  case (Cons a d)
  then show ?case by (cases a) (simp add: insert_commute)
qed

lemma keys_setitem: "fst ` set (setitem d k v) = insert k (fst ` set d)"
  using keys_dict_set_id [of d k v] by (simp add: setitem_def)

lemma setitem_fresh: "k \<notin> fst ` set d \<Longrightarrow> setitem d k v = d @ [(k, v)]"
  unfolding setitem_def by (induction d) auto

lemma encode_fold:
  "distinct (map fst acc @ map (\<lambda>kv. enc (fst kv)) e) \<Longrightarrow>
   fold (\<lambda>(k, v) d. setitem d (enc k) (enc v)) e acc = acc @ map (\<lambda>(k, v). (enc k, enc v)) e"
proof (induction e arbitrary: acc)
  case Nil
  show ?case by simp
next
  case (Cons kv e)
  obtain k v where kv: "kv = (k, v)" by (cases kv)
  from Cons.prems kv have new: "enc k \<notin> fst ` set acc"
    by auto
  from Cons.prems kv
  have "distinct (map fst (acc @ [(enc k, enc v)]) @ map (\<lambda>kv. enc (fst kv)) e)"
    by auto
  from Cons.IH [OF this] new kv show ?case
    by (simp add: setitem_fresh)
qed

lemma get_initial_env_explicit:
  "env' \<noteq> [] \<Longrightarrow> distinct (map (\<lambda>kv. system_encode X (fst kv)) env') \<Longrightarrow>
   get_initial_env X (Some env') extra
     = Some (map (\<lambda>(k, v). (system_encode X k, system_encode X v)) env')"
  using encode_fold [of "[]" "system_encode X" env'] by (simp add: get_initial_env_def)

lemma add_to_env_layers:
  "\<forall>(n, v) \<in> set extra. startswith n ''env:'' \<Longrightarrow>
   \<exists>merged. add_to_env X setitem base extra = Inr merged
     \<and> map_of merged
         = fold (\<lambda>(n, v) m. m(system_encode X (drop 4 n) \<mapsto> system_encode X v)) extra (map_of base)"
proof (induction extra arbitrary: base)
  case Nil
  show ?case by simp
next
  case (Cons nv extra)
  obtain n v where nv: "nv = (n, v)" by (cases nv)
  from Cons.prems nv have ok: "startswith n ''env:''"
    and rest: "\<forall>(n, v) \<in> set extra. startswith n ''env:''"
    by auto
  from Cons.IH [OF rest, of "setitem base (system_encode X (drop 4 n)) (system_encode X v)"] ok nv
  show ?case by (simp add: map_of_setitem)
qed

lemma add_to_env_environ:
  "add_to_env (X\<lparr>environ := e\<rparr>) store base extra = add_to_env X store base extra"
  by (induction extra arbitrary: base) auto

lemma upper_char_idem: "upper_char (upper_char c) = upper_char c"
  by (simp add: upper_char_def lower_letters_def upper_letters_def)

lemma upper_idem: "upper (upper k) = upper k"
  by (simp add: upper_def upper_char_idem)

lemma keys_upper_fold:
  "fst ` set (fold (\<lambda>(k, v) d. setitem d (upper k) v) merged acc)
     = fst ` set acc \<union> upper ` fst ` set merged"
  by (induction merged arbitrary: acc) (auto simp: keys_setitem split: prod.splits)

lemma construct_env_windows_keys:
  assumes "WINDOWS W" and "construct_env W given extra = Inr (Some merged)"
  shows "\<forall>k \<in> fst ` set merged. upper k = k"
proof -
  from assms obtain m where "merged = fold (\<lambda>(k, v) d. setitem d (upper k) v) m []"
    by (auto simp: construct_env_def split: option.splits sum.splits)
  then have "fst ` set merged = upper ` fst ` set m"
    by (simp add: keys_upper_fold)
  then show ?thesis
    by (auto simp: upper_idem)
qed

lemma upper_lower_char: "upper_char (lower_char c) = upper_char c"
  by (simp add: upper_char_def lower_char_def lower_letters_def upper_letters_def)

lemma lower_upper_char: "lower_char (upper_char c) = lower_char c"
  by (simp add: upper_char_def lower_char_def lower_letters_def upper_letters_def)

lemma upper_lower: "upper (lower k) = upper k"
  by (simp add: upper_def lower_def upper_lower_char)

lemma lower_upper: "lower (upper k) = lower k"
  by (simp add: upper_def lower_def lower_upper_char)

lemma same_key: "(lower a = lower b) = (upper a = upper b)"
  by (metis upper_lower lower_upper)

lemma upper_keys_dict_set:
  "map_of (map (\<lambda>(k, v). (upper k, v)) (dict_set lower d k v))
     = (map_of (map (\<lambda>(k, v). (upper k, v)) d))(upper k \<mapsto> v)"
proof (induction d)
  case Nil
  show ?case by simp
next
  case (Cons a d)
  obtain k' v' where a: "a = (k', v')" by (cases a)
  show ?case
  proof (cases "lower k' = lower k")
    case True
    then have "upper k' = upper k" by (simp add: same_key)
    with True a show ?thesis by (simp add: fun_eq_iff)
  next
    case False
    then have "upper k' \<noteq> upper k" by (simp add: same_key)
    with False a Cons.IH show ?thesis by (auto simp: fun_eq_iff)
  qed
qed

lemma keys_dict_set_lower:
  "upper ` fst ` set (dict_set lower d k v) = insert (upper k) (upper ` fst ` set d)"
proof (induction d)
  case Nil
  show ?case by simp
next
  case (Cons a d)
  obtain k' v' where a: "a = (k', v')" by (cases a)
  show ?case
  proof (cases "lower k' = lower k")
    case True
    then have "upper k' = upper k" by (simp add: same_key)
    with True a show ?thesis by auto
  next
    case False
    with a Cons.IH show ?thesis by (simp add: insert_commute)
  qed
qed

lemma distinct_dict_set_lower:
  "distinct (map (\<lambda>kv. upper (fst kv)) d) \<Longrightarrow>
   distinct (map (\<lambda>kv. upper (fst kv)) (dict_set lower d k v))"
proof (induction d)
  case Nil
  show ?case by simp
next
  case (Cons a d)
  obtain k' v' where a: "a = (k', v')" by (cases a)
  show ?case
  proof (cases "lower k' = lower k")
    case True
    with a Cons.prems show ?thesis by simp
  next
    case False
    then have ne: "upper k' \<noteq> upper k" by (simp add: same_key)
    from Cons.prems a have new: "upper k' \<notin> upper ` fst ` set d" and rest: "distinct (map (\<lambda>kv. upper (fst kv)) d)"
      by (auto simp: image_image)
    from new ne have "upper k' \<notin> upper ` fst ` set (dict_set lower d k v)"
      by (simp add: keys_dict_set_lower)
    with False a Cons.IH [OF rest] show ?thesis
      by (auto simp: image_image)
  qed
qed

lemma normalized_fold:
  "map_of (map (\<lambda>(k, v). (upper k, v)) (fold (\<lambda>(k, v) d. normalized_setitem d k v) base acc))
     = fold (\<lambda>(k, v) m. m(upper k \<mapsto> v)) base (map_of (map (\<lambda>(k, v). (upper k, v)) acc))"
proof (induction base arbitrary: acc)
  case Nil
  show ?case by simp
next
  case (Cons a base)
  obtain k v where a: "a = (k, v)" by (cases a)
  from Cons.IH [of "normalized_setitem acc k v"] a show ?case
    by (simp add: normalized_setitem_def upper_keys_dict_set)
qed

lemma normalized_fold_distinct:
  "distinct (map (\<lambda>kv. upper (fst kv)) acc) \<Longrightarrow>
   distinct (map (\<lambda>kv. upper (fst kv)) (fold (\<lambda>(k, v) d. normalized_setitem d k v) base acc))"
proof (induction base arbitrary: acc)
  case Nil
  then show ?case by simp
next
  case (Cons a base)
  obtain k v where a: "a = (k, v)" by (cases a)
  from Cons.prems have "distinct (map (\<lambda>kv. upper (fst kv)) (normalized_setitem acc k v))"
    by (simp add: normalized_setitem_def distinct_dict_set_lower)
  from Cons.IH [OF this] a show ?case by simp
qed

lemma add_to_env_normalized:
  assumes "\<forall>(n, v) \<in> set extra. startswith n ''env:''"
    and "distinct (map (\<lambda>kv. upper (fst kv)) base)"
  shows "\<exists>merged. add_to_env X normalized_setitem base extra = Inr merged
     \<and> distinct (map (\<lambda>kv. upper (fst kv)) merged)
     \<and> map_of (map (\<lambda>(k, v). (upper k, v)) merged)
         = fold (\<lambda>(n, v) m. m(upper (system_encode X (drop 4 n)) \<mapsto> system_encode X v)) extra
             (map_of (map (\<lambda>(k, v). (upper k, v)) base))"
  using assms
proof (induction extra arbitrary: base)
  case Nil
  then show ?case by simp
next
  case (Cons nv extra)
  obtain n v where nv: "nv = (n, v)" by (cases nv)
  let ?b = "normalized_setitem base (system_encode X (drop 4 n)) (system_encode X v)"
  from Cons.prems nv have ok: "startswith n ''env:''"
    and rest: "\<forall>(n, v) \<in> set extra. startswith n ''env:''"
    by auto
  from Cons.prems have d: "distinct (map (\<lambda>kv. upper (fst kv)) ?b)"
    by (simp add: normalized_setitem_def distinct_dict_set_lower)
  from Cons.IH [OF rest d] ok nv show ?case
    by (simp add: normalized_setitem_def upper_keys_dict_set)
qed

lemma fold_updates:
  "distinct (map fst xs) \<Longrightarrow> fold (\<lambda>(k, v) m. m(k \<mapsto> v)) xs m0 = m0 ++ map_of xs"
proof (induction xs arbitrary: m0)
  case Nil
  show ?case by simp
next
  case (Cons a xs)
  obtain k v where a: "a = (k, v)" by (cases a)
  from Cons.prems a have new: "k \<notin> dom (map_of xs)" and rest: "distinct (map fst xs)"
    by (auto simp: dom_map_of_conv_image_fst)
  from new have "(m0(k \<mapsto> v)) ++ map_of xs = m0 ++ map_of ((k, v) # xs)"
    by (auto simp: fun_eq_iff map_add_def dom_def split: option.splits)
  then have last: "(m0(k \<mapsto> v)) ++ map_of xs = m0 ++ map_of (a # xs)"
    by (simp only: a)
  have "fold (\<lambda>(k, v) m. m(k \<mapsto> v)) (a # xs) m0
      = fold (\<lambda>(k, v) m. m(k \<mapsto> v)) xs (m0(k \<mapsto> v))"
    by (simp only: a fold_simps comp_apply case_prod_conv)
  also have "\<dots> = (m0(k \<mapsto> v)) ++ map_of xs"
    by (rule Cons.IH [OF rest])
  finally show ?case
    by (simp only: last)
qed

lemma map_of_upper_fold:
  "map_of (fold (\<lambda>(k, v) d. setitem d (upper k) v) merged acc)
     = fold (\<lambda>(k, v) m. m(upper k \<mapsto> v)) merged (map_of acc)"
proof (induction merged arbitrary: acc)
  case Nil
  show ?case by simp
next
  case (Cons a merged)
  obtain k v where a: "a = (k, v)" by (cases a)
  from Cons.IH [of "setitem acc (upper k) v"] a show ?case
    by (simp add: map_of_setitem)
qed

lemma upper_case_keys:
  assumes "distinct (map (\<lambda>kv. upper (fst kv)) merged)"
  shows "map_of (fold (\<lambda>(k, v) d. setitem d (upper k) v) merged [])
     = map_of (map (\<lambda>(k, v). (upper k, v)) merged)"
proof -
  have "fold (\<lambda>(k, v) m. m(upper k \<mapsto> v)) merged Map.empty
      = fold (\<lambda>(k, v) m. m(k \<mapsto> v)) (map (\<lambda>(k, v). (upper k, v)) merged) Map.empty"
    by (simp add: fold_map comp_def case_prod_unfold)
  also have "\<dots> = map_of (map (\<lambda>(k, v). (upper k, v)) merged)"
    using assms fold_updates [of "map (\<lambda>(k, v). (upper k, v)) merged" Map.empty]
    by (simp add: comp_def case_prod_unfold)
  finally show ?thesis
    by (simp add: map_of_upper_fold)
qed

lemma construct_env_windows_layers:
  assumes win: "WINDOWS W" and names: "\<forall>(n, v) \<in> set extra. startswith n ''env:''"
    and base: "get_initial_env W given extra = Some base"
  shows "\<exists>merged. construct_env W given extra = Inr (Some merged)
     \<and> map_of merged
         = fold (\<lambda>(n, v) m. m(upper (system_encode W (drop 4 n)) \<mapsto> system_encode W v)) extra
             (fold (\<lambda>(k, v) m. m(upper k \<mapsto> v)) base Map.empty)"
proof -
  let ?n = "fold (\<lambda>(k, v) d. normalized_setitem d k v) base []"
  have d: "distinct (map (\<lambda>kv. upper (fst kv)) ?n)"
    by (rule normalized_fold_distinct) simp
  from add_to_env_normalized [OF names d, of W] obtain merged where
    m: "add_to_env W normalized_setitem ?n extra = Inr merged"
    and md: "distinct (map (\<lambda>kv. upper (fst kv)) merged)"
    and mm: "map_of (map (\<lambda>(k, v). (upper k, v)) merged)
         = fold (\<lambda>(n, v) m. m(upper (system_encode W (drop 4 n)) \<mapsto> system_encode W v)) extra
             (map_of (map (\<lambda>(k, v). (upper k, v)) ?n))"
    by blast
  have "map_of (map (\<lambda>(k, v). (upper k, v)) ?n) = fold (\<lambda>(k, v) m. m(upper k \<mapsto> v)) base Map.empty"
    using normalized_fold [of base "[]"] by simp
  with mm upper_case_keys [OF md] win base m show ?thesis
    by (simp add: construct_env_def)
qed

lemma distinct_inner: "distinct (map (\<lambda>x. f (g x)) xs) \<Longrightarrow> distinct (map g xs)"
  by (induction xs) auto

lemma dict_set_lower_fresh:
  "upper k \<notin> upper ` fst ` set d \<Longrightarrow> dict_set lower d k v = d @ [(k, v)]"
proof (induction d)
  case Nil
  show ?case by simp
next
  case (Cons a d)
  obtain k' v' where a: "a = (k', v')" by (cases a)
  from Cons.prems a have "upper k' \<noteq> upper k" and "upper k \<notin> upper ` fst ` set d"
    by auto
  with Cons.IH a show ?case
    by (simp add: same_key)
qed

lemma normalized_fold_fresh:
  "distinct (map (\<lambda>kv. upper (fst kv)) (acc @ e)) \<Longrightarrow>
   fold (\<lambda>(k, v) d. normalized_setitem d k v) e acc = acc @ e"
proof (induction e arbitrary: acc)
  case Nil
  show ?case by simp
next
  case (Cons kv e)
  obtain k v where kv: "kv = (k, v)" by (cases kv)
  from Cons.prems kv have new: "upper k \<notin> upper ` fst ` set acc"
    by (auto simp: image_image)
  from Cons.prems kv have "distinct (map (\<lambda>kv. upper (fst kv)) ((acc @ [(k, v)]) @ e))"
    by auto
  from Cons.IH [OF this] new kv show ?case
    by (simp add: normalized_setitem_def dict_set_lower_fresh)
qed

lemma upper_fold_fresh:
  "distinct (map fst acc @ map (\<lambda>kv. upper (fst kv)) m) \<Longrightarrow>
   fold (\<lambda>(k, v) d. setitem d (upper k) v) m acc = acc @ map (\<lambda>(k, v). (upper k, v)) m"
proof (induction m arbitrary: acc)
  case Nil
  show ?case by simp
next
  case (Cons kv m)
  obtain k v where kv: "kv = (k, v)" by (cases kv)
  from Cons.prems kv have new: "upper k \<notin> fst ` set acc"
    by auto
  from Cons.prems kv
  have "distinct (map fst (acc @ [(upper k, v)]) @ map (\<lambda>kv. upper (fst kv)) m)"
    by auto
  from Cons.IH [OF this] new kv show ?case
    by (simp add: setitem_fresh)
qed

lemma construct_env_windows_explicit:
  assumes win: "WINDOWS W" and given: "env' \<noteq> []"
    and keys: "distinct (map (\<lambda>kv. upper (system_encode W (fst kv))) env')"
  shows "construct_env W (Some env') []
    = Inr (Some (map (\<lambda>(k, v). (upper (system_encode W k), system_encode W v)) env'))"
proof -
  let ?enc = "map (\<lambda>(k, v). (system_encode W k, system_encode W v)) env'"
  from keys have "distinct (map (\<lambda>kv. system_encode W (fst kv)) env')"
    by (rule distinct_inner)
  with given have initial: "get_initial_env W (Some env') [] = Some ?enc"
    by (rule get_initial_env_explicit)
  from keys have d: "distinct (map (\<lambda>kv. upper (fst kv)) ?enc)"
    by (simp add: comp_def case_prod_unfold)
  then have n: "fold (\<lambda>(k, v) d. normalized_setitem d k v) ?enc [] = ?enc"
    using normalized_fold_fresh [of "[]" ?enc] by simp
  from d have u: "fold (\<lambda>(k, v) d. setitem d (upper k) v) ?enc []
      = map (\<lambda>(k, v). (upper k, v)) ?enc"
    using upper_fold_fresh [of "[]" ?enc] by simp
  from win initial n u show ?thesis
    by (simp add: construct_env_def comp_def case_prod_unfold)
qed

text \<open>
  Claim C8, as the code has it. An explicit environment mapping that is not empty is
  encoded key by key and value by value and becomes the environment of the process,
  and \<open>os.environ\<close> plays no part in it on any platform. With no overrides the
  environment is exactly the encoded mapping on a platform other than Windows, and on
  Windows the encoded mapping with its keys in upper case. Overrides \<open>env:<name>\<close>
  are stored on top of the base, which is the encoded explicit mapping when that is
  given and not empty, and a copy of \<open>os.environ\<close> otherwise; on Windows the base
  and the overrides are stored under their names in upper case, so that names which
  differ in case only are one name and hold the value stored last. An empty explicit
  mapping counts as none: with no overrides the process gets no environment of its
  own and inherits. On Windows all keys of the result are in upper case.
\<close>

theorem construct_env_replaces_or_layers:
  "(env' \<noteq> [] \<and> \<not> WINDOWS X \<and> distinct (map (\<lambda>kv. system_encode X (fst kv)) env') \<longrightarrow>
      construct_env X (Some env') []
        = Inr (Some (map (\<lambda>(k, v). (system_encode X k, system_encode X v)) env')))
   \<and> (env' \<noteq> [] \<longrightarrow>
        construct_env (X\<lparr>environ := inherited\<rparr>) (Some env') extra = construct_env X (Some env') extra)
   \<and> (\<not> WINDOWS X \<and> (\<forall>(n, v) \<in> set extra. startswith n ''env:'')
        \<and> get_initial_env X given extra = Some base \<longrightarrow>
        (\<exists>merged. construct_env X given extra = Inr (Some merged)
           \<and> map_of merged
               = fold (\<lambda>(n, v) m. m(system_encode X (drop 4 n) \<mapsto> system_encode X v)) extra
                   (map_of base)))
   \<and> (env' \<noteq> [] \<and> distinct (map (\<lambda>kv. system_encode X (fst kv)) env') \<longrightarrow>
        get_initial_env X (Some env') extra
          = Some (map (\<lambda>(k, v). (system_encode X k, system_encode X v)) env'))
   \<and> (extra \<noteq> [] \<longrightarrow>
        get_initial_env X None extra = Some (environ X)
        \<and> get_initial_env X (Some []) extra = Some (environ X))
   \<and> construct_env X (Some []) [] = Inr None
   \<and> construct_env X None [] = Inr None
   \<and> (WINDOWS W \<and> construct_env W given' extra' = Inr (Some merged') \<longrightarrow>
        (\<forall>k \<in> fst ` set merged'. upper k = k))
   \<and> (WINDOWS W \<and> wenv \<noteq> []
        \<and> distinct (map (\<lambda>kv. upper (system_encode W (fst kv))) wenv) \<longrightarrow>
        construct_env W (Some wenv) []
          = Inr (Some (map (\<lambda>(k, v). (upper (system_encode W k), system_encode W v)) wenv)))
   \<and> (WINDOWS W \<and> (\<forall>(n, v) \<in> set wextra. startswith n ''env:'')
        \<and> get_initial_env W wgiven wextra = Some wbase \<longrightarrow>
        (\<exists>merged. construct_env W wgiven wextra = Inr (Some merged)
           \<and> map_of merged
               = fold (\<lambda>(n, v) m. m(upper (system_encode W (drop 4 n)) \<mapsto> system_encode W v))
                   wextra (fold (\<lambda>(k, v) m. m(upper k \<mapsto> v)) wbase Map.empty)))"
proof (intro conjI impI)
  assume "env' \<noteq> [] \<and> \<not> WINDOWS X \<and> distinct (map (\<lambda>kv. system_encode X (fst kv)) env')"
  then show "construct_env X (Some env') []
      = Inr (Some (map (\<lambda>(k, v). (system_encode X k, system_encode X v)) env'))"
    by (simp add: construct_env_def get_initial_env_explicit)
next
  assume "env' \<noteq> []"
  then show "construct_env (X\<lparr>environ := inherited\<rparr>) (Some env') extra
      = construct_env X (Some env') extra"
    by (simp add: construct_env_def get_initial_env_def add_to_env_environ)
next
  assume a: "\<not> WINDOWS X \<and> (\<forall>(n, v) \<in> set extra. startswith n ''env:'')
    \<and> get_initial_env X given extra = Some base"
  then have "\<forall>(n, v) \<in> set extra. startswith n ''env:''"
    by simp
  from add_to_env_layers [OF this, of X base] a
  show "\<exists>merged. construct_env X given extra = Inr (Some merged)
      \<and> map_of merged
          = fold (\<lambda>(n, v) m. m(system_encode X (drop 4 n) \<mapsto> system_encode X v)) extra
              (map_of base)"
    by (auto simp: construct_env_def)
next
  assume "env' \<noteq> [] \<and> distinct (map (\<lambda>kv. system_encode X (fst kv)) env')"
  then show "get_initial_env X (Some env') extra
      = Some (map (\<lambda>(k, v). (system_encode X k, system_encode X v)) env')"
    by (simp add: get_initial_env_explicit)
next
  assume "extra \<noteq> []"
  then show "get_initial_env X None extra = Some (environ X)"
    and "get_initial_env X (Some []) extra = Some (environ X)"
    by (simp_all add: get_initial_env_def)
next
  show "construct_env X (Some []) [] = Inr None" and "construct_env X None [] = Inr None"
    by (simp_all add: construct_env_def get_initial_env_def)
next
  assume "WINDOWS W \<and> construct_env W given' extra' = Inr (Some merged')"
  then show "\<forall>k \<in> fst ` set merged'. upper k = k"
    using construct_env_windows_keys [of W given' extra' merged'] by simp
next
  assume "WINDOWS W \<and> wenv \<noteq> []
    \<and> distinct (map (\<lambda>kv. upper (system_encode W (fst kv))) wenv)"
  then show "construct_env W (Some wenv) []
      = Inr (Some (map (\<lambda>(k, v). (upper (system_encode W k), system_encode W v)) wenv))"
    by (simp add: construct_env_windows_explicit)
next
  assume "WINDOWS W \<and> (\<forall>(n, v) \<in> set wextra. startswith n ''env:'')
    \<and> get_initial_env W wgiven wextra = Some wbase"
  then show "\<exists>merged. construct_env W wgiven wextra = Inr (Some merged)
      \<and> map_of merged
          = fold (\<lambda>(n, v) m. m(upper (system_encode W (drop 4 n)) \<mapsto> system_encode W v))
              wextra (fold (\<lambda>(k, v) m. m(upper k \<mapsto> v)) wbase Map.empty)"
    using construct_env_windows_layers [of W wextra wgiven wbase] by simp
qed

theorem construct_env_replaces_or_layers_witness:
  "[(''A'', ''1'')] \<noteq> ([] :: dict) \<and> \<not> WINDOWS posix
   \<and> distinct (map (\<lambda>kv. system_encode posix (fst kv)) [(''A'', ''1'')])
   \<and> construct_env posix (Some [(''A'', ''1'')]) [] = Inr (Some [(''A'', ''1'')])
   \<and> construct_env (posix\<lparr>environ := []\<rparr>) (Some [(''A'', ''1'')]) [(''env:B'', ''2'')]
       = construct_env posix (Some [(''A'', ''1'')]) [(''env:B'', ''2'')]
   \<and> startswith ''env:B'' ''env:''
   \<and> get_initial_env posix (Some [(''A'', ''1'')]) [(''env:B'', ''2'')] = Some [(''A'', ''1'')]
   \<and> (\<exists>merged. construct_env posix (Some [(''A'', ''1'')]) [(''env:B'', ''2'')] = Inr (Some merged)
         \<and> map_of merged = [''A'' \<mapsto> ''1'', ''B'' \<mapsto> ''2''])
   \<and> get_initial_env posix None [(''env:B'', ''2'')] = Some [(''HOME'', ''/root'')]
   \<and> WINDOWS windows
   \<and> construct_env windows (Some [(''Path'', ''x'')]) [] = Inr (Some [(''PATH'', ''x'')])
   \<and> upper ''PATH'' = ''PATH''
   \<and> distinct (map (\<lambda>kv. upper (system_encode windows (fst kv))) [(''Path'', ''x'')])
   \<and> startswith ''env:path'' ''env:''
   \<and> get_initial_env windows (Some [(''Path'', ''x'')]) [(''env:path'', ''y'')]
       = Some [(''Path'', ''x'')]
   \<and> (\<exists>merged. construct_env windows (Some [(''Path'', ''x'')]) [(''env:path'', ''y'')]
           = Inr (Some merged)
         \<and> map_of merged = [''PATH'' \<mapsto> ''y''])"
proof -
  have up: "upper ''Path'' = ''PATH''" "upper ''path'' = ''PATH''" "upper ''PATH'' = ''PATH''"
    by (simp_all add: upper_def upper_char_def lower_letters_def upper_letters_def)
  have prefix: "startswith ''env:B'' ''env:''" "startswith ''env:path'' ''env:''"
    by (simp_all add: startswith_def)
  have enc: "system_encode posix = (\<lambda>s. s)" "system_encode windows = (\<lambda>s. s)"
    and env: "environ posix = [(''HOME'', ''/root'')]"
    and nowin: "\<not> WINDOWS posix" and iswin: "WINDOWS windows"
    by (simp_all add: posix_def windows_def)
  have initial: "get_initial_env windows (Some [(''Path'', ''x'')]) [(''env:path'', ''y'')]
      = Some [(''Path'', ''x'')]"
    by (simp add: get_initial_env_def enc setitem_def)
  note T = construct_env_replaces_or_layers [where env' = "[(''A'', ''1'')]" and X = posix
      and inherited = "[]" and extra = "[(''env:B'', ''2'')]" and given = "Some [(''A'', ''1'')]"
      and base = "[(''A'', ''1'')]" and W = windows and given' = "Some [(''Path'', ''x'')]"
      and extra' = "[]" and merged' = "[(''PATH'', ''x'')]" and wenv = "[(''Path'', ''x'')]"
      and wextra = "[(''env:path'', ''y'')]" and wgiven = "Some [(''Path'', ''x'')]"
      and wbase = "[(''Path'', ''x'')]"]
  show ?thesis
    using T prefix initial
    by (simp add: enc env nowin iswin up)
qed

text \<open>
  The claim as it was stated fails for the empty mapping: the process does not get an
  empty environment. With no overrides it gets none of its own (it inherits), and
  with overrides these are stored on top of a copy of \<open>os.environ\<close>.
\<close>

theorem construct_env_counterexample:
  "construct_env posix (Some []) [] = Inr None
   \<and> construct_env posix (Some []) [(''env:A'', ''1'')]
       = Inr (Some [(''HOME'', ''/root''), (''A'', ''1'')])"
  by (simp add: construct_env_def get_initial_env_def posix_def startswith_def setitem_def)



section \<open>Properties of joining and splitting command lines\<close>

lemma special_chars_distinct [simp]:
  "space \<noteq> dquote" "space \<noteq> squote" "space \<noteq> backslash" "tab \<noteq> dquote" "tab \<noteq> squote"
  "tab \<noteq> backslash" "dquote \<noteq> squote" "dquote \<noteq> backslash" "squote \<noteq> backslash"
  "dquote \<noteq> space" "dquote \<noteq> tab" "dquote \<noteq> CR" "dquote \<noteq> LF" "space \<noteq> tab"
  "backslash \<noteq> space" "backslash \<noteq> tab" "backslash \<noteq> CR" "backslash \<noteq> LF"
  "backslash \<noteq> dquote" "backslash \<noteq> squote"
  by (simp_all add: space_def tab_def dquote_def squote_def backslash_def CR_def LF_def)

lemma list2cmdline_chars_flush:
  "\<not> List.member a dquote \<Longrightarrow>
   fst (list2cmdline_chars bs a) @ replicate (snd (list2cmdline_chars bs a)) backslash
     = replicate bs backslash @ a"
proof (induction a arbitrary: bs)
  case Nil
  show ?case by simp
next
  case (Cons c a)
  then have IH: "\<And>bs. fst (list2cmdline_chars bs a) @ replicate (snd (list2cmdline_chars bs a)) backslash
      = replicate bs backslash @ a"
    and c: "c \<noteq> dquote"
    by auto
  show ?case
  proof (cases "c = backslash")
    case True
    with IH [of "Suc bs"] show ?thesis
      by (simp add: replicate_append_same)
  next
    case False
    with c IH [of 0] show ?thesis
      by (simp add: case_prod_unfold Let_def)
  qed
qed

lemma endswith_last: "endswith a [x] = (a \<noteq> [] \<and> last a = x)"
  by (cases a rule: rev_cases) (simp_all add: endswith_def)

lemma list2cmdline_chars_pending:
  "a \<noteq> [] \<Longrightarrow> last a \<noteq> backslash \<Longrightarrow> snd (list2cmdline_chars bs a) = 0"
proof (induction a arbitrary: bs)
  case Nil
  then show ?case by simp
next
  case (Cons c a)
  show ?case
  proof (cases "a = []")
    case True
    with Cons.prems show ?thesis
      by (simp add: case_prod_unfold Let_def)
  next
    case False
    with Cons.prems Cons.IH have "\<And>bs. snd (list2cmdline_chars bs a) = 0"
      by simp
    then show ?thesis
      by (simp add: case_prod_unfold Let_def)
  qed
qed

lemma list2cmdline_arg_survives:
  assumes "survives a"
  shows "list2cmdline_arg a = (if needquote a then dquote # a @ [dquote] else a)"
proof -
  have "list_all (\<lambda>c. \<not> List.member [dquote, squote, CR, LF] c) a \<Longrightarrow> \<not> List.member a dquote"
    by (induction a) auto
  with assms have nodq: "\<not> List.member a dquote"
    by (simp add: survives_def)
  note flush = list2cmdline_chars_flush [OF nodq, of 0]
  show ?thesis
  proof (cases "needquote a")
    case False
    with flush show ?thesis
      by (simp add: list2cmdline_arg_def needquote_def case_prod_unfold Let_def)
  next
    case True
    have "snd (list2cmdline_chars 0 a) = 0"
    proof (cases "a = []")
      case True
      then show ?thesis by simp
    next
      case False
      with True assms have "last a \<noteq> backslash"
        by (auto simp: survives_def needquote_def endswith_last)
      with False show ?thesis
        by (simp add: list2cmdline_chars_pending)
    qed
    with flush True show ?thesis
      by (simp add: list2cmdline_arg_def needquote_def case_prod_unfold Let_def)
  qed
qed

lemma list2cmdline_arg_nonempty: "survives a \<Longrightarrow> list2cmdline_arg a \<noteq> []"
  by (auto simp: list2cmdline_arg_survives needquote_def)

lemma list2cmdline_fold:
  "list_all survives args \<Longrightarrow> acc \<noteq> [] \<Longrightarrow>
   fold (\<lambda>arg result. (if result \<noteq> [] then result @ [space] else result) @ list2cmdline_arg arg) args acc
     = acc @ concat (map (\<lambda>a. space # list2cmdline_arg a) args)"
  by (induction args arbitrary: acc) auto

lemma list2cmdline_Cons:
  "list_all survives (a # args) \<Longrightarrow>
   list2cmdline (a # args) = list2cmdline_arg a @ concat (map (\<lambda>a. space # list2cmdline_arg a) args)"
  by (simp add: list2cmdline_def list2cmdline_fold list2cmdline_arg_nonempty)

lemma word_run:
  "list_all (\<lambda>c. \<not> is_whitespace c \<and> \<not> is_quote c) w \<Longrightarrow>
   lexer False InWord tok q (w @ rest) = lexer False InWord (tok @ w) q rest"
  by (induction w arbitrary: tok) auto

lemma quote_run:
  "list_all (\<lambda>c. c \<noteq> dquote) w \<Longrightarrow>
   lexer False (InQuote dquote) tok True (w @ rest) = lexer False (InQuote dquote) (tok @ w) True rest"
  by (induction w arbitrary: tok) auto

lemma survives_chars: "survives a \<Longrightarrow> list_all (\<lambda>c. \<not> List.member [dquote, squote, CR, LF] c) a"
  by (simp add: survives_def)

lemma no_blank_chars:
  "list_all (\<lambda>c. \<not> List.member [dquote, squote, CR, LF] c) a \<Longrightarrow>
   \<not> List.member a space \<Longrightarrow> \<not> List.member a tab \<Longrightarrow>
   list_all (\<lambda>c. \<not> is_whitespace c \<and> \<not> is_quote c) a"
  by (induction a) (auto simp: is_whitespace_def is_quote_def)

lemma no_dquote_chars:
  "list_all (\<lambda>c. \<not> List.member [dquote, squote, CR, LF] c) a \<Longrightarrow> list_all (\<lambda>c. c \<noteq> dquote) a"
  by (induction a) auto

lemma lexer_arg:
  assumes "survives a"
  shows "lexer False Between [] False (list2cmdline_arg a @ rest) = lexer False InWord a (needquote a) rest"
proof (cases "needquote a")
  case True
  with assms have "lexer False Between [] False (list2cmdline_arg a @ rest)
      = lexer False (InQuote dquote) [] True (a @ dquote # rest)"
    by (simp add: list2cmdline_arg_survives is_whitespace_def is_quote_def)
  also have "\<dots> = lexer False (InQuote dquote) a True (dquote # rest)"
    using quote_run [OF no_dquote_chars [OF survives_chars [OF assms]], of "[]" "dquote # rest"]
    by simp
  finally show ?thesis using True by simp
next
  case False
  then obtain c w where a: "a = c # w"
    by (cases a) (auto simp: needquote_def)
  from no_blank_chars [OF survives_chars [OF assms]] False a
  have c: "\<not> is_whitespace c \<and> \<not> is_quote c"
    and w: "list_all (\<lambda>c. \<not> is_whitespace c \<and> \<not> is_quote c) w"
    by (simp_all add: needquote_def)
  from assms False a c have "lexer False Between [] False (list2cmdline_arg a @ rest)
      = lexer False InWord [c] False (w @ rest)"
    by (simp add: list2cmdline_arg_survives)
  also have "\<dots> = lexer False InWord a False rest"
    using word_run [OF w, of "[c]" False rest] a by simp
  finally show ?thesis using False by simp
qed

lemma needquote_or_nonempty: "a \<noteq> [] \<or> needquote a"
  by (simp add: needquote_def)

lemma lexer_args:
  "survives a \<Longrightarrow> list_all survives args \<Longrightarrow>
   lexer False Between [] False
     (list2cmdline_arg a @ concat (map (\<lambda>a. space # list2cmdline_arg a) args))
     = Inr (a # args)"
proof (induction args arbitrary: a)
  case Nil
  then show ?case
    using lexer_arg [of a "[]"] needquote_or_nonempty [of a] by auto
next
  case (Cons b args)
  from Cons.prems have b: "survives b" and rest: "list_all survives args"
    by simp_all
  have "lexer False Between [] False
      (list2cmdline_arg a @ concat (map (\<lambda>a. space # list2cmdline_arg a) (b # args)))
    = lexer False InWord a (needquote a)
        (space # list2cmdline_arg b @ concat (map (\<lambda>a. space # list2cmdline_arg a) args))"
    using lexer_arg [OF Cons.prems(1)] by simp
  also have "\<dots> = emit a (lexer False Between [] False
        (list2cmdline_arg b @ concat (map (\<lambda>a. space # list2cmdline_arg a) args)))"
    using needquote_or_nonempty [of a] by (auto simp: is_whitespace_def)
  also have "\<dots> = Inr (a # b # args)"
    by (simp add: Cons.IH [OF b rest] emit_def)
  finally show ?case .
qed

lemma roundtrip: "list_all survives args \<Longrightarrow> cmdline2list (list2cmdline args) False = Inr args"
proof (cases args)
  case Nil
  then show ?thesis by (simp add: cmdline2list_def list2cmdline_def)
next
  case (Cons a as)
  assume "list_all survives args"
  with Cons show ?thesis
    by (simp add: cmdline2list_def list2cmdline_Cons lexer_args)
qed

text \<open>
  Claim C9, as the code has it. For every sequence of string arguments none of which
  holds a double quote, a single quote, a carriage return or a line feed, and none of
  which both holds a space or tab and ends in a backslash, splitting the joined
  command line returns the original sequence. Spaces and tabs in arguments, empty
  arguments and backslashes elsewhere come back unchanged.
\<close>

theorem split_join_roundtrip:
  "list_all survives args \<Longrightarrow>
   split_command_line (join_command_line (Strings args)) False = Inr args
   \<and> split_command_line (join_command_line (OneList args)) False = Inr args"
  by (simp add: split_command_line_def join_command_line_def roundtrip)

theorem split_join_roundtrip_witness:
  "list_all survives [''--option'', ''value with spaces'', ''C:'' @ [backslash] @ ''temp'', []]
   \<and> split_command_line (join_command_line
        (Strings [''--option'', ''value with spaces'', ''C:'' @ [backslash] @ ''temp'', []])) False
       = Inr [''--option'', ''value with spaces'', ''C:'' @ [backslash] @ ''temp'', []]"
proof -
  have ok: "list_all survives [''--option'', ''value with spaces'', ''C:'' @ [backslash] @ ''temp'', []]"
    by (simp add: survives_def endswith_def dquote_def squote_def backslash_def space_def tab_def
        CR_def LF_def)
  from split_join_roundtrip [OF ok] ok show ?thesis
    by simp
qed

text \<open>
  The claim as it was stated fails for arguments with quotes. \<open>join_command_line\<close>
  writes a double quote as backslash-quote, and \<open>split_command_line\<close>, called without
  \<open>escaping\<close>, takes the backslash as it is and the quote as the start of a quoted
  part: \<open>a"b"c\<close> comes back as \<open>a\b\c\<close>. A single quote is not touched by the join
  and opens a quoted part that nothing closes.
\<close>

theorem split_join_counterexample:
  "split_command_line (join_command_line (Strings [''a'' @ [dquote] @ ''b'' @ [dquote] @ ''c''])) False
     = Inr [''a'' @ [backslash] @ ''b'' @ [backslash] @ ''c'']
   \<and> ''a'' @ [backslash] @ ''b'' @ [backslash] @ ''c'' \<noteq> ''a'' @ [dquote] @ ''b'' @ [dquote] @ ''c''
   \<and> split_command_line (join_command_line (Strings [''it'' @ [squote] @ ''s''])) False
       = Inl ValueError"
  by (simp add: split_command_line_def join_command_line_def cmdline2list_def list2cmdline_def
      list2cmdline_arg_def dquote_def squote_def backslash_def space_def tab_def CR_def LF_def
      is_whitespace_def is_quote_def)



section \<open>Properties of results\<close>

lemma format_output_Some: "\<exists>t. format_output X enc (Some c) = Some t"
  by (simp add: format_output_def Let_def)

lemma open_rb_error:
  "fst (open_rb p s) = Inl e \<Longrightarrow> e = OSError \<and> snd (open_rb p s) = s \<and> disk s p = Missing"
  by (cases "disk s p") (simp_all add: open_rb_def alloc_def)

lemma popens_open_rb [simp]: "popens (snd (open_rb p s)) = popens s"
  by (cases "disk s p") (simp_all add: open_rb_def alloc_def)

lemma popens_read_or_empty [simp]: "popens (snd (read_or_empty i s)) = popens s"
  by (cases "content (heap s i)") (simp_all add: read_or_empty_def)

lemma popens_close [simp]: "popens (close i s) = popens s"
  by (simp add: close_def)

lemma popens_read_stream [simp]: "popens (snd (read_stream X enc path stream s)) = popens s"
  by (simp add: read_stream_def case_prod_unfold Let_def split: sum.split option.split)

lemma read_stream_value: "fst (read_stream X enc path stream s) = Inr v \<Longrightarrow> \<exists>t. v = Some t"
  using format_output_Some [of X enc]
  by (auto simp: read_stream_def case_prod_unfold Let_def split: sum.splits option.splits if_splits)

lemma read_stream_error:
  "fst (read_stream X enc path stream s) = Inl e \<Longrightarrow>
   e = OSError \<and> (\<exists>p. path = Some p \<and> p \<noteq> [] \<and> disk s p = Missing)"
proof -
  assume a: "fst (read_stream X enc path stream s) = Inl e"
  then have t: "truthy path"
    by (auto simp: read_stream_def case_prod_unfold Let_def split: if_splits option.splits)
  then obtain p where p: "path = Some p" "p \<noteq> []"
    by (auto simp: truthy_def split: option.splits)
  with a t have "fst (open_rb p s) = Inl e"
    by (auto simp: read_stream_def case_prod_unfold Let_def split: sum.splits)
  with open_rb_error [of p s e] p show ?thesis by simp
qed


lemma stdout_cached:
  assumes "fst (stdout X r s) = Inr v"
  shows "\<exists>t. v = Some t \<and> r_stdout (fst (snd (stdout X r s))) = Some t"
proof (cases "r_stdout r")
  case (Some t)
  with assms show ?thesis by (auto simp: stdout_def)
next
  case None
  with assms have read: "fst (read_stream X (r_output_encoding r) (stdout_path r)
      (p_stdout (popens s (r_process r))) s) = Inr v"
    by (auto simp: stdout_def read_stdout_def case_prod_unfold split: sum.splits)
  from read_stream_value [OF this] obtain t where "v = Some t" ..
  with None read show ?thesis
    by (simp add: stdout_def read_stdout_def case_prod_unfold)
qed

lemma stdout_again:
  assumes "stdout X r s = (Inr v, r1, s1)"
  shows "stdout X r1 s2 = (Inr v, r1, s2)"
  using stdout_cached [of X r s v] assms by (auto simp: stdout_def)

lemma stderr_cached:
  assumes "fst (stderr X r s) = Inr v"
  shows "\<exists>t. v = Some t \<and> r_stderr (fst (snd (stderr X r s))) = Some t"
proof (cases "r_stderr r")
  case (Some t)
  with assms show ?thesis by (auto simp: stderr_def)
next
  case None
  with assms have read: "fst (read_stream X (r_output_encoding r) (stderr_path r)
      (p_stderr (popens s (r_process r))) s) = Inr v"
    by (auto simp: stderr_def read_stderr_def case_prod_unfold split: sum.splits)
  from read_stream_value [OF this] obtain t where "v = Some t" ..
  with None read show ?thesis
    by (simp add: stderr_def read_stderr_def case_prod_unfold)
qed

lemma stderr_again:
  assumes "stderr X r s = (Inr v, r1, s1)"
  shows "stderr X r1 s2 = (Inr v, r1, s2)"
  using stderr_cached [of X r s v] assms by (auto simp: stderr_def)


lemma is_open_close: "is_open (close i s) st = (is_open s st \<and> st \<noteq> Some i)"
  by (cases st) (auto simp: is_open_def close_def)

lemma popens_close_open [simp]: "popens (close_open l s) = popens s"
  by (induction l arbitrary: s) (auto split: option.splits)

lemma close_open_stays_closed: "\<not> is_open s st \<Longrightarrow> \<not> is_open (close_open l s) st"
  by (induction l arbitrary: s) (auto simp: is_open_close split: option.splits)

lemma close_open_closes: "List.member l st \<Longrightarrow> \<not> is_open (close_open l s) st"
proof (induction l arbitrary: s)
  case Nil
  then show ?case by simp
next
  case (Cons a l)
  show ?case
  proof (cases "a = st")
    case True
    have "\<not> is_open (case a of None \<Rightarrow> s | Some i \<Rightarrow> if is_open s (Some i) then close i s else s) a"
    proof (cases a)
      case None
      then show ?thesis by (simp add: is_open_def)
    next
      case (Some i)
      then show ?thesis by (simp add: is_open_close)
    qed
    with True show ?thesis
      by (simp add: close_open_stays_closed)
  next
    case False
    with Cons show ?thesis by simp
  qed
qed

lemma close_open_nothing: "list_all (\<lambda>st. \<not> is_open s st) l \<Longrightarrow> close_open l s = s"
  by (induction l) (auto split: option.splits)

lemma is_open_heap: "heap s2 = heap s1 \<Longrightarrow> is_open s2 st = is_open s1 st"
  by (cases st) (simp_all add: is_open_def)

lemma read_stdout_frame [simp]:
  "popens (snd (snd (read_stdout X r s))) = popens s"
  "r_process (fst (snd (read_stdout X r s))) = r_process r"
  "r_custom_streams (fst (snd (read_stdout X r s))) = r_custom_streams r"
  "rc (fst (snd (read_stdout X r s))) = rc r"
  "stdout_path (fst (snd (read_stdout X r s))) = stdout_path r"
  "stderr_path (fst (snd (read_stdout X r s))) = stderr_path r"
  "r_output_encoding (fst (snd (read_stdout X r s))) = r_output_encoding r"
  by (simp_all add: read_stdout_def case_prod_unfold split: sum.split)

lemma read_stderr_frame [simp]:
  "popens (snd (snd (read_stderr X r s))) = popens s"
  "r_process (fst (snd (read_stderr X r s))) = r_process r"
  "r_custom_streams (fst (snd (read_stderr X r s))) = r_custom_streams r"
  "rc (fst (snd (read_stderr X r s))) = rc r"
  "stdout_path (fst (snd (read_stderr X r s))) = stdout_path r"
  "stderr_path (fst (snd (read_stderr X r s))) = stderr_path r"
  "r_output_encoding (fst (snd (read_stderr X r s))) = r_output_encoding r"
  by (simp_all add: read_stderr_def case_prod_unfold split: sum.split)

lemma get_and_read_frame [simp]:
  "popens (snd (snd (get_and_read_standard_streams X r s))) = popens s"
  "r_process (fst (snd (get_and_read_standard_streams X r s))) = r_process r"
  "r_custom_streams (fst (snd (get_and_read_standard_streams X r s))) = r_custom_streams r"
  "rc (fst (snd (get_and_read_standard_streams X r s))) = rc r"
  by (simp_all add: get_and_read_standard_streams_def case_prod_unfold Let_def split: sum.split)

lemma get_and_read_streams:
  "fst (get_and_read_standard_streams X r s) = Inr l \<Longrightarrow>
   l = [p_stdin (popens s (r_process r)), p_stdout (popens s (r_process r)),
        p_stderr (popens s (r_process r))]"
  by (auto simp: get_and_read_standard_streams_def case_prod_unfold Let_def split: sum.splits)

lemma get_and_read_closed:
  assumes "\<not> is_open s (p_stdout (popens s (r_process r)))"
    and "\<not> is_open s (p_stderr (popens s (r_process r)))"
  shows "get_and_read_standard_streams X r s
    = (Inr [p_stdin (popens s (r_process r)), p_stdout (popens s (r_process r)),
            p_stderr (popens s (r_process r))], r, s)"
  using assms by (simp add: get_and_read_standard_streams_def Let_def)

lemma close_streams_again:
  assumes first: "close_streams X r s = (Inr u, r1, s1)"
    and heap: "heap s2 = heap s1" and popens: "popens s2 = popens s1"
  shows "close_streams X r1 s2 = (Inr (), r1, s2)"
proof -
  let ?g = "get_and_read_standard_streams X r s"
  from first obtain l where read: "fst ?g = Inr l"
    by (auto simp: close_streams_def case_prod_unfold split: sum.splits)
  with first have r1: "r1 = fst (snd ?g)"
    and s1: "s1 = close_open (l @ map Some (r_custom_streams r1)) (snd (snd ?g))"
    by (auto simp: close_streams_def case_prod_unfold)
  let ?pr = "popens s (r_process r)"
  from get_and_read_streams [OF read] have l: "l = [p_stdin ?pr, p_stdout ?pr, p_stderr ?pr]" .
  from r1 s1 popens have pr2: "popens s2 (r_process r1) = ?pr"
    by simp
  let ?all = "l @ map Some (r_custom_streams r1)"
  have closed1: "\<not> is_open s1 st" if "List.member ?all st" for st
    using that s1 close_open_closes by simp
  then have closed2: "\<not> is_open s2 st" if "List.member ?all st" for st
    using that is_open_heap [OF heap] by simp
  have "\<not> is_open s2 (p_stdout ?pr)" and "\<not> is_open s2 (p_stderr ?pr)"
    using closed2 l by simp_all
  then have again: "get_and_read_standard_streams X r1 s2 = (Inr l, r1, s2)"
    using get_and_read_closed [of s2 r1 X] pr2 l by simp
  have "list_all (\<lambda>st. \<not> is_open s2 st) ?all"
    using closed2 by (simp add: list_all_iff)
  then have "close_open ?all s2 = s2"
    by (rule close_open_nothing)
  with again show ?thesis
    by (simp add: close_streams_def)
qed

lemma zip_filter_requested:
  "map fst (filter snd (zip [x1, x2, x3, x4, x5] [a, b, c, d, e]))
     = requested x1 x2 x3 x4 x5 a b c d e"
  by (simp add: requested_def)

lemma stdout_frame [simp]:
  "rc (fst (snd (stdout X r s))) = rc r"
  "stdout_path (fst (snd (stdout X r s))) = stdout_path r"
  "stderr_path (fst (snd (stdout X r s))) = stderr_path r"
  by (simp_all add: stdout_def case_prod_unfold split: sum.split)

lemma stdout_error:
  "fst (stdout X r s) = Inl e \<Longrightarrow>
   e = OSError \<and> r_stdout r = None \<and> (\<exists>p. stdout_path r = Some p \<and> p \<noteq> [] \<and> disk s p = Missing)"
  using read_stream_error [of X "r_output_encoding r" "stdout_path r" "p_stdout (popens s (r_process r))" s e]
  by (auto simp: stdout_def read_stdout_def case_prod_unfold split: if_splits sum.splits)

lemma stderr_error:
  "fst (stderr X r s) = Inl e \<Longrightarrow>
   e = OSError \<and> r_stderr r = None \<and> (\<exists>p. stderr_path r = Some p \<and> p \<noteq> [] \<and> disk s p = Missing)"
  using read_stream_error [of X "r_output_encoding r" "stderr_path r" "p_stderr (popens s (r_process r))" s e]
  by (auto simp: stderr_def read_stderr_def case_prod_unfold split: if_splits sum.splits)

lemma get_result_attributes_ok:
  assumes "stdout X r s = (Inr (Some out), r1, s1)" and "stderr X r1 s1 = (Inr (Some err), r2, s2)"
  shows "get_result_attributes X r [a, b, c, d, e] s
    = (Inr (requested (of_int_option (rc r)) (PyStr out) (PyStr err) (of_str_option (stdout_path r))
              (of_str_option (stderr_path r)) a b c d e), r2, s2)"
  using assms
  by (simp add: get_result_attributes_def zip_filter_requested of_str_option_def del: zip_Cons_Cons)

lemma get_result_attributes_error:
  assumes "fst (get_result_attributes X r incl s) = Inl e"
  shows "e = OSError"
proof (cases "fst (stdout X r s)")
  case (Inl e')
  with assms have "e' = e"
    by (simp add: get_result_attributes_def case_prod_unfold)
  with Inl stdout_error show ?thesis by blast
next
  case (Inr out)
  with assms obtain r1 s1 where "fst (stderr X r1 s1) = Inl e"
    by (auto simp: get_result_attributes_def case_prod_unfold Let_def split: sum.splits)
  with stderr_error show ?thesis by blast
qed

lemma get_process_result_unfinished:
  assumes "getitem (processes s) h = Inr p" and "results s p = Some r"
  shows "(\<exists>st. get_process_result X h a b c d e s = (Inl (RuntimeError ''Getting results of unfinished processes is not supported.''), st)) = (rc r = None)"
proof (cases "rc r")
  case None
  with assms show ?thesis
    by (simp add: get_process_result_def)
next
  case (Some n)
  have "fst (get_process_result X h a b c d e s) \<noteq> Inl (RuntimeError ''Getting results of unfinished processes is not supported.'')"
  proof
    assume bad: "fst (get_process_result X h a b c d e s) = Inl (RuntimeError ''Getting results of unfinished processes is not supported.'')"
    with assms Some have "fst (get_result_attributes X r [a, b, c, d, e] s) = Inl (RuntimeError ''Getting results of unfinished processes is not supported.'')"
      by (auto simp: get_process_result_def case_prod_unfold split: sum.splits if_splits)
    from get_result_attributes_error [OF this] show False by simp
  qed
  with Some show ?thesis by auto
qed

lemma get_process_result_finished:
  assumes "getitem (processes s) h = Inr p" and "results s p = Some r" and "rc r = Some n"
    and "stdout X r s = (Inr (Some out), r1, s1)" and "stderr X r1 s1 = (Inr (Some err), r2, s2)"
    and "attrs = requested (PyInt n) (PyStr out) (PyStr err) (of_str_option (stdout_path r))
              (of_str_option (stderr_path r)) a b c d e"
  shows "get_process_result X h a b c d e s
    = (if attrs = [] then Inr (Result r2) else if length attrs = 1 then Inr (Attribute (hd attrs))
       else Inr (Attributes attrs), set_result p r2 s2)"
  using assms get_result_attributes_ok [OF assms(4,5), of a b c d e]
  by (simp add: get_process_result_def of_int_option_def)

section \<open>Properties of polling, killing and waiting\<close>

lemma poll_frame [simp]:
  "trace (snd (poll p s)) = trace s"
  "results (snd (poll p s)) = results s"
  "processes (snd (poll p s)) = processes s"
  "heap (snd (poll p s)) = heap s"
  "os (snd (poll p s)) = os s"
  "now (snd (poll p s)) = now s"
  "disk (snd (poll p s)) = disk s"
  by (cases "returncode (popens s p)"; simp add: poll_def set_popen_def Let_def)+

lemma poll_returncode [simp]: "returncode (popens (snd (poll p s)) p) = fst (poll p s)"
  by (cases "returncode (popens s p)") (simp_all add: poll_def set_popen_def Let_def)

lemma poll_others:
  "q \<noteq> p \<Longrightarrow> popens (snd (poll p s)) q = popens s q"
  by (cases "returncode (popens s p)") (simp_all add: poll_def set_popen_def Let_def)

lemma poll_pipes [simp]:
  "p_stdin (popens (snd (poll p s)) q) = p_stdin (popens s q)"
  "p_stdout (popens (snd (poll p s)) q) = p_stdout (popens s q)"
  "p_stderr (popens (snd (poll p s)) q) = p_stderr (popens s q)"
  by (cases "returncode (popens s p)"; simp add: poll_def set_popen_def Let_def)+

lemma sleep_frame [simp]:
  "trace (sleep d s) = trace s" "results (sleep d s) = results s"
  "processes (sleep d s) = processes s" "heap (sleep d s) = heap s" "os (sleep d s) = os s"
  "popens (sleep d s) = popens s" "disk (sleep d s) = disk s" "now (sleep d s) = now s + d"
  by (simp_all add: sleep_def)

lemma stopped_loop_frame:
  "trace (stopped_loop p m st s) = trace s \<and> results (stopped_loop p m st s) = results s
   \<and> processes (stopped_loop p m st s) = processes s \<and> heap (stopped_loop p m st s) = heap s
   \<and> os (stopped_loop p m st s) = os s \<and> disk (stopped_loop p m st s) = disk s"
proof (induction p m st s rule: stopped_loop.induct)
  case (1 p m st s)
  show ?case
  proof (cases "now s \<le> m \<and> fst (poll p s) = None \<and> 0 < st")
    case True
    with "1.IH" show ?thesis
      by (subst (1 2 3 4 5 6) stopped_loop.simps) simp
  next
    case False
    then show ?thesis
      by (subst (1 2 3 4 5 6) stopped_loop.simps) auto
  qed
qed

lemma stopped_loop_running:
  "returncode (popens s p) = None \<Longrightarrow> \<forall>t. poll_at (os s p) t = None \<Longrightarrow>
   returncode (popens (stopped_loop p m st s) p) = None"
proof (induction p m st s rule: stopped_loop.induct)
  case (1 p m st s)
  from "1.prems" have none: "fst (poll p s) = None"
    by (simp add: poll_def Let_def)
  show ?case
  proof (cases "now s \<le> m \<and> fst (poll p s) = None \<and> 0 < st")
    case True
    have "returncode (popens (sleep st (snd (poll p s))) p) = None"
      using none by simp
    moreover have "\<forall>t. poll_at (os (sleep st (snd (poll p s))) p) t = None"
      using "1.prems" by simp
    ultimately show ?thesis
      using "1.IH" True by (subst stopped_loop.simps) simp
  next
    case False
    with none show ?thesis
      by (subst stopped_loop.simps) auto
  qed
qed

lemma process_is_stopped_frame [simp]:
  "trace (snd (process_is_stopped p t s)) = trace s"
  "results (snd (process_is_stopped p t s)) = results s"
  "processes (snd (process_is_stopped p t s)) = processes s"
  "heap (snd (process_is_stopped p t s)) = heap s"
  "os (snd (process_is_stopped p t s)) = os s"
  "disk (snd (process_is_stopped p t s)) = disk s"
  by (simp_all add: process_is_stopped_def Let_def case_prod_unfold stopped_loop_frame)

lemma process_is_stopped_seen:
  "fst (process_is_stopped p t s) = (returncode (popens (snd (process_is_stopped p t s)) p) \<noteq> None)"
  by (simp add: process_is_stopped_def Let_def case_prod_unfold)

lemma process_is_stopped_running:
  assumes "returncode (popens s p) = None" and "\<forall>t. poll_at (os s p) t = None"
  shows "\<not> fst (process_is_stopped p t s)"
proof -
  let ?s1 = "if now s \<le> now s + t then stopped_loop p (now s + t) (min 100 t) s else s"
  have "returncode (popens ?s1 p) = None"
    using assms stopped_loop_running by simp
  moreover have "poll_at (os ?s1 p) (now ?s1) = None"
    using assms(2) by (simp add: stopped_loop_frame)
  ultimately have "fst (poll p ?s1) = None"
    by (simp add: poll_def Let_def)
  then show ?thesis
    by (simp add: process_is_stopped_def Let_def case_prod_unfold)
qed

lemma logger_frame [simp]:
  "trace (logger e s) = trace s @ [e]" "results (logger e s) = results s"
  "processes (logger e s) = processes s" "heap (logger e s) = heap s" "os (logger e s) = os s"
  "popens (logger e s) = popens s" "disk (logger e s) = disk s" "now (logger e s) = now s"
  by (simp_all add: logger_def)

lemma kill_unfold:
  "kill X p s =
     (if delivery_fails (os s p) (kill_delivery X)
      then (Inl OSError, logger (Info ''Forcefully killing process.'') s)
      else if fst (process_is_stopped p KILL_TIMEOUT
                (logger (Sent p (kill_delivery X)) (logger (Info ''Forcefully killing process.'') s)))
      then (Inr (), snd (process_is_stopped p KILL_TIMEOUT
                (logger (Sent p (kill_delivery X)) (logger (Info ''Forcefully killing process.'') s))))
      else (Inl (RuntimeError ''Failed to kill process.''), snd (process_is_stopped p KILL_TIMEOUT
                (logger (Sent p (kill_delivery X)) (logger (Info ''Forcefully killing process.'') s)))))"
  by (simp add: kill_def deliver_def Let_def case_prod_unfold)

lemma kill_frame [simp]:
  "results (snd (kill X p s)) = results s"
  "processes (snd (kill X p s)) = processes s"
  "heap (snd (kill X p s)) = heap s"
  "os (snd (kill X p s)) = os s"
  "disk (snd (kill X p s)) = disk s"
  by (simp_all add: kill_unfold)

lemma kill_outcome:
  "(fst (kill X p s) = Inr () \<and> \<not> delivery_fails (os s p) (kill_delivery X)
      \<and> trace (snd (kill X p s))
          = trace s @ [Info ''Forcefully killing process.'', Sent p (kill_delivery X)]
      \<and> returncode (popens (snd (kill X p s)) p) \<noteq> None)
   \<or> (fst (kill X p s) = Inl OSError \<and> delivery_fails (os s p) (kill_delivery X)
      \<and> trace (snd (kill X p s)) = trace s @ [Info ''Forcefully killing process.''])
   \<or> (fst (kill X p s) = Inl (RuntimeError ''Failed to kill process.'')
      \<and> \<not> delivery_fails (os s p) (kill_delivery X)
      \<and> trace (snd (kill X p s))
          = trace s @ [Info ''Forcefully killing process.'', Sent p (kill_delivery X)]
      \<and> returncode (popens (snd (kill X p s)) p) = None)"
  using process_is_stopped_seen [of p KILL_TIMEOUT
      "logger (Sent p (kill_delivery X)) (logger (Info ''Forcefully killing process.'') s)"]
  by (simp add: kill_unfold)

lemma take_outcome_frame [simp]:
  "trace (take_outcome p script s) = trace s" "results (take_outcome p script s) = results s"
  "processes (take_outcome p script s) = processes s" "heap (take_outcome p script s) = heap s"
  "popens (take_outcome p script s) = popens s" "disk (take_outcome p script s) = disk s"
  "delivery_fails (os (take_outcome p script s) q) = delivery_fails (os s q)"
  "poll_at (os (take_outcome p script s) q) = poll_at (os s q)"
  "now (take_outcome p script s) = now s"
  by (simp_all add: take_outcome_def)

lemma wait_loop_cancelled:
  "\<exists>sk. wait_loop X p r (replicate k TimeoutExpired @ Cancelled # rest) s = cancelled X p sk
     \<and> results sk = results s \<and> trace sk = trace s \<and> popens sk = popens s \<and> heap sk = heap s
     \<and> delivery_fails (os sk p) = delivery_fails (os s p) \<and> now sk = now s + 100 * int k"
proof (induction k arbitrary: s)
  case 0
  show ?case
    by (rule exI [of _ "take_outcome p rest s"]) (simp add: cancelled_def)
next
  case (Suc k)
  let ?s1 = "sleep 100 (take_outcome p (replicate k TimeoutExpired @ Cancelled # rest) s)"
  from Suc [of ?s1] obtain sk where
    "wait_loop X p r (replicate k TimeoutExpired @ Cancelled # rest) ?s1 = cancelled X p sk"
    "results sk = results ?s1" "trace sk = trace ?s1" "popens sk = popens ?s1" "heap sk = heap ?s1"
    "delivery_fails (os sk p) = delivery_fails (os ?s1 p)" "now sk = now ?s1 + 100 * int k"
    by blast
  then show ?case
    by (intro exI [of _ sk]) (simp add: algebra_simps)
qed

lemma cancelled_outcome:
  "\<exists>e s'. cancelled X p s = Some (Inl e, s') \<and> results s' = results s
     \<and> (e = TimeoutExceeded \<and> \<not> delivery_fails (os s p) (kill_delivery X)
          \<and> trace s' = trace s @ [Info ''Timeout exceeded.'', Info ''Forcefully killing process.'',
                                   Sent p (kill_delivery X)]
          \<and> returncode (popens s' p) \<noteq> None
        \<or> e = OSError \<and> delivery_fails (os s p) (kill_delivery X)
          \<and> trace s' = trace s @ [Info ''Timeout exceeded.'', Info ''Forcefully killing process.'']
        \<or> e = RuntimeError ''Failed to kill process.'' \<and> \<not> delivery_fails (os s p) (kill_delivery X)
          \<and> trace s' = trace s @ [Info ''Timeout exceeded.'', Info ''Forcefully killing process.'',
                                   Sent p (kill_delivery X)]
          \<and> returncode (popens s' p) = None)"
  using kill_outcome [of X p "logger (Info ''Timeout exceeded.'') s"]
  by (auto simp: cancelled_def case_prod_unfold split: sum.splits)

lemma set_popen_frame [simp]:
  "trace (set_popen p v s) = trace s" "results (set_popen p v s) = results s"
  "processes (set_popen p v s) = processes s" "heap (set_popen p v s) = heap s"
  "os (set_popen p v s) = os s" "disk (set_popen p v s) = disk s"
  "popens (set_popen p v s) = (popens s)(p := v)"
  by (simp_all add: set_popen_def)

lemma set_result_frame [simp]:
  "trace (set_result p r s) = trace s" "results (set_result p r s) = (results s)(p := Some r)"
  "processes (set_result p r s) = processes s" "heap (set_result p r s) = heap s"
  "os (set_result p r s) = os s" "disk (set_result p r s) = disk s"
  "popens (set_result p r s) = popens s"
  by (simp_all add: set_result_def)

lemma close_streams_rc [simp]: "rc (fst (snd (close_streams X r s))) = rc r"
  by (simp add: close_streams_def case_prod_unfold split: sum.split)

lemma communicate_returns_returncode:
  "returncode (popens (snd (communicate_returns p out err code s)) p) \<noteq> None"
  by (cases "returncode (popens s p)") (simp_all add: communicate_returns_def Let_def del: close_open.simps)

lemma set_output_rc [simp]: "rc (set_stdout X v r) = rc r" "rc (set_stderr X v r) = rc r"
  by (simp_all add: set_stdout_def set_stderr_def)

lemma completed_returns: "completed X p r out err code s \<noteq> None"
  by (simp add: completed_def case_prod_unfold Let_def split: sum.split)

lemma completed_result:
  assumes "completed X p r out err code s = Some (Inr r', s')"
  shows "rc r' \<noteq> None \<and> results s' p = Some r' \<and> close_streams X r' s' = (Inr (), r', s')"
proof -
  let ?c = "communicate_returns p out err code s"
  let ?r2 = "(set_stderr X (snd (fst ?c)) (set_stdout X (fst (fst ?c)) r))
      \<lparr>rc := returncode (popens (snd ?c) p)\<rparr>"
  let ?cl = "close_streams X ?r2 (snd ?c)"
  from assms have ok: "fst ?cl = Inr ()" and r': "r' = fst (snd ?cl)"
    and s': "s' = logger (Info ''Process completed.'') (set_result p r' (snd (snd ?cl)))"
    by (auto simp: completed_def case_prod_unfold Let_def split: sum.splits)
  from r' have "rc r' = returncode (popens (snd ?c) p)"
    by simp
  then have rc: "rc r' \<noteq> None"
    using communicate_returns_returncode [of p out err code s] by simp
  from ok r' have "?cl = (Inr (), r', snd (snd ?cl))"
    by (simp add: prod_eq_iff)
  then have "close_streams X r' s' = (Inr (), r', s')"
    by (rule close_streams_again) (simp_all add: s')
  with rc s' show ?thesis by simp
qed

lemma cancelled_returns: "cancelled X p s \<noteq> None"
  by (simp add: cancelled_def case_prod_unfold split: sum.split)

lemma cancelled_error: "cancelled X p s \<noteq> Some (Inr r', s')"
  by (simp add: cancelled_def case_prod_unfold split: sum.split)

lemma wait_loop_never:
  "(wait_loop X p r script s = None) = list_all (\<lambda>c. c = TimeoutExpired) script"
proof (induction script arbitrary: s)
  case Nil
  show ?case by simp
next
  case (Cons c script)
  show ?case
  proof (cases c)
    case TimeoutExpired
    with Cons show ?thesis by simp
  next
    case Cancelled
    then show ?thesis by (simp add: cancelled_returns)
  next
    case (Done out err code)
    then show ?thesis by (simp add: completed_returns)
  qed
qed

lemma wait_loop_result:
  "wait_loop X p r script s = Some (Inr r', s') \<Longrightarrow>
   rc r' \<noteq> None \<and> results s' p = Some r' \<and> close_streams X r' s' = (Inr (), r', s')"
proof (induction script arbitrary: s)
  case Nil
  then show ?case by simp
next
  case (Cons c script)
  show ?case
  proof (cases c)
    case TimeoutExpired
    with Cons show ?thesis by simp
  next
    case Cancelled
    with Cons.prems show ?thesis by (simp add: cancelled_error)
  next
    case (Done out err code)
    with Cons.prems show ?thesis by (simp add: completed_result)
  qed
qed

lemma forget_closed_stdin_frame [simp]:
  "trace (forget_closed_stdin p s) = trace s" "results (forget_closed_stdin p s) = results s"
  "processes (forget_closed_stdin p s) = processes s" "heap (forget_closed_stdin p s) = heap s"
  "os (forget_closed_stdin p s) = os s" "disk (forget_closed_stdin p s) = disk s"
  by (simp_all add: forget_closed_stdin_def)

lemma wait_unfold:
  "results s p = Some r \<Longrightarrow>
   wait X p s = wait_loop X p r (communicate_script (os s p)) (forget_closed_stdin p s)"
  by (simp add: wait_def)

lemma wait_never:
  "results s p = Some r \<Longrightarrow>
   (wait X p s = None) = list_all (\<lambda>c. c = TimeoutExpired) (communicate_script (os s p))"
  by (simp add: wait_unfold wait_loop_never)

lemma wait_result:
  assumes "wait X p s = Some (Inr r', s')"
  shows "rc r' \<noteq> None \<and> results s' p = Some r' \<and> close_streams X r' s' = (Inr (), r', s')"
proof (cases "results s p")
  case None
  with assms show ?thesis by (simp add: wait_def)
next
  case (Some r)
  with assms wait_loop_result show ?thesis by (simp add: wait_unfold)
qed

lemma wait_cancelled:
  assumes "results s p = Some r"
    and "communicate_script (os s p) = replicate k TimeoutExpired @ Cancelled # rest"
  shows "\<exists>e s'. wait X p s = Some (Inl e, s') \<and> results s' = results s
     \<and> (e = TimeoutExceeded \<and> \<not> delivery_fails (os s p) (kill_delivery X)
          \<and> trace s' = trace s @ [Info ''Timeout exceeded.'', Info ''Forcefully killing process.'',
                                   Sent p (kill_delivery X)]
          \<and> returncode (popens s' p) \<noteq> None
        \<or> e = OSError \<and> delivery_fails (os s p) (kill_delivery X)
          \<and> trace s' = trace s @ [Info ''Timeout exceeded.'', Info ''Forcefully killing process.'']
        \<or> e = RuntimeError ''Failed to kill process.'' \<and> \<not> delivery_fails (os s p) (kill_delivery X)
          \<and> trace s' = trace s @ [Info ''Timeout exceeded.'', Info ''Forcefully killing process.'',
                                   Sent p (kill_delivery X)]
          \<and> returncode (popens s' p) = None)"
proof -
  from wait_loop_cancelled [of X p r k rest "forget_closed_stdin p s"] obtain sk where
    sk: "wait_loop X p r (replicate k TimeoutExpired @ Cancelled # rest) (forget_closed_stdin p s)
      = cancelled X p sk" "results sk = results s" "trace sk = trace s"
      "delivery_fails (os sk p) = delivery_fails (os s p)"
    by auto
  from cancelled_outcome [of X p sk] sk assms show ?thesis
    by (simp add: wait_unfold)
qed

lemma get_timeout_ignored:
  "t = TNone \<or> (\<exists>str. t = TStr str \<and> upper str = ''NONE'') \<or> t = TNum 0
     \<or> (\<exists>n. timestr_to_secs X t = Inr n \<and> n \<le> 0) \<Longrightarrow>
   \<exists>n. get_timeout X t = Inr n \<and> n \<le> 0"
  by (auto simp: get_timeout_def falsy_def)

lemma wait_for_process_no_timeout:
  "getitem (processes s) h = Inr p \<Longrightarrow> get_timeout X t = Inr n \<Longrightarrow> n \<le> 0 \<Longrightarrow>
   wait_for_process X h t on s
     = returned (wait X p (logger (Info ''Waiting for process to complete.'') s))"
  by (simp add: wait_for_process_def Let_def)

lemma wait_for_process_timeout:
  "getitem (processes s) h = Inr p \<Longrightarrow> get_timeout X t = Inr n \<Longrightarrow> 0 < n \<Longrightarrow>
   \<not> fst (process_is_stopped p n (logger (Info ''Waiting for process to complete.'') s)) \<Longrightarrow>
   wait_for_process X h t on s
     = manage_process_timeout X h (lower on)
         (logger (Info (''Process did not complete in '' @ secs_to_timestr X n @ ''.''))
            (snd (process_is_stopped p n (logger (Info ''Waiting for process to complete.'') s))))"
  by (simp add: wait_for_process_def Let_def)

lemma left_running:
  assumes "getitem (processes s) h = Inr p" and "get_timeout X t = Inr n" and "0 < n"
    and "\<not> fst (process_is_stopped p n (logger (Info ''Waiting for process to complete.'') s))"
    and "lower on \<noteq> ''terminate''" and "lower on \<noteq> ''kill''"
  shows "\<exists>s'. wait_for_process X h t on s = Some (Inr None, s')
    \<and> trace s' = trace s @ [Info ''Waiting for process to complete.'',
         Info (''Process did not complete in '' @ secs_to_timestr X n @ ''.''),
         Info ''Leaving process intact.'']
    \<and> returncode (popens s' p) = None
    \<and> results s' = results s \<and> processes s' = processes s \<and> heap s' = heap s \<and> os s' = os s"
  using assms process_is_stopped_seen [of p n "logger (Info ''Waiting for process to complete.'') s"]
  by (simp add: wait_for_process_timeout manage_process_timeout_def)

section \<open>The timeout policy of waiting\<close>

text \<open>
  Claim C1. \<open>wait_for_process\<close> on a handle that resolves to a process. With a
  timeout that is \<open>None\<close>, the string \<open>NONE\<close> in any case, zero, or a time that
  \<open>timestr_to_secs\<close> reads as zero or negative, the keyword is \<open>_wait\<close>: no timeout
  is looked at. \<open>_wait\<close> waits without limit: it has no outcome exactly as long as every
  \<open>communicate\<close> call times out, however many there are. With a positive timeout that
  passes with the process still running (\<open>_process_is_stopped\<close> says no), \<open>on_timeout\<close>
  decides, read in lower case: \<open>continue\<close> returns \<open>None\<close>, sends no signal and leaves
  the process running; \<open>terminate\<close> returns what \<open>terminate_process(handle)\<close> returns,
  and \<open>kill\<close> what \<open>terminate_process(handle, kill=True)\<close> returns.
\<close>

theorem wait_for_process_timeout_policy:
  assumes "getitem (processes s) h = Inr p"
  shows
    "((t = TNone \<or> (\<exists>str. t = TStr str \<and> upper str = ''NONE'') \<or> t = TNum 0
        \<or> (\<exists>n. timestr_to_secs X t = Inr n \<and> n \<le> 0)) \<longrightarrow>
        wait_for_process X h t on s
          = returned (wait X p (logger (Info ''Waiting for process to complete.'') s)))
     \<and> (results s p = Some r \<longrightarrow>
          (wait X p (logger (Info ''Waiting for process to complete.'') s) = None)
            = list_all (\<lambda>c. c = TimeoutExpired) (communicate_script (os s p)))
     \<and> (get_timeout X t' = Inr n \<and> 0 < n
          \<and> \<not> fst (process_is_stopped p n (logger (Info ''Waiting for process to complete.'') s))
        \<longrightarrow>
          (lower on_c = ''continue'' \<longrightarrow>
             (\<exists>s'. wait_for_process X h t' on_c s = Some (Inr None, s')
                \<and> trace s' = trace s @ [Info ''Waiting for process to complete.'',
                     Info (''Process did not complete in '' @ secs_to_timestr X n @ ''.''),
                     Info ''Leaving process intact.'']
                \<and> returncode (popens s' p) = None))
          \<and> (lower on_t = ''terminate'' \<longrightarrow>
               wait_for_process X h t' on_t s
                 = returned (terminate_process X h False
                     (logger (Info (''Process did not complete in '' @ secs_to_timestr X n @ ''.''))
                        (snd (process_is_stopped p n
                           (logger (Info ''Waiting for process to complete.'') s))))))
          \<and> (lower on_k = ''kill'' \<longrightarrow>
               wait_for_process X h t' on_k s
                 = returned (terminate_process X h True
                     (logger (Info (''Process did not complete in '' @ secs_to_timestr X n @ ''.''))
                        (snd (process_is_stopped p n
                           (logger (Info ''Waiting for process to complete.'') s)))))))"
proof (intro conjI impI)
  assume "t = TNone \<or> (\<exists>str. t = TStr str \<and> upper str = ''NONE'') \<or> t = TNum 0
    \<or> (\<exists>n. timestr_to_secs X t = Inr n \<and> n \<le> 0)"
  from get_timeout_ignored [OF this] obtain n where "get_timeout X t = Inr n" "n \<le> 0"
    by blast
  with assms show "wait_for_process X h t on s
      = returned (wait X p (logger (Info ''Waiting for process to complete.'') s))"
    by (rule wait_for_process_no_timeout)
next
  assume "results s p = Some r"
  then show "(wait X p (logger (Info ''Waiting for process to complete.'') s) = None)
      = list_all (\<lambda>c. c = TimeoutExpired) (communicate_script (os s p))"
    using wait_never [of "logger (Info ''Waiting for process to complete.'') s" p r X] by simp
next
  assume a: "get_timeout X t' = Inr n \<and> 0 < n
    \<and> \<not> fst (process_is_stopped p n (logger (Info ''Waiting for process to complete.'') s))"
    and c: "lower on_c = ''continue''"
  from left_running [OF assms, of X t' n on_c] a c
  show "\<exists>s'. wait_for_process X h t' on_c s = Some (Inr None, s')
      \<and> trace s' = trace s @ [Info ''Waiting for process to complete.'',
           Info (''Process did not complete in '' @ secs_to_timestr X n @ ''.''),
           Info ''Leaving process intact.'']
      \<and> returncode (popens s' p) = None"
    by auto
next
  assume a: "get_timeout X t' = Inr n \<and> 0 < n
    \<and> \<not> fst (process_is_stopped p n (logger (Info ''Waiting for process to complete.'') s))"
    and c: "lower on_t = ''terminate''"
  with assms show "wait_for_process X h t' on_t s
      = returned (terminate_process X h False
          (logger (Info (''Process did not complete in '' @ secs_to_timestr X n @ ''.''))
             (snd (process_is_stopped p n (logger (Info ''Waiting for process to complete.'') s)))))"
    by (simp add: wait_for_process_timeout manage_process_timeout_def)
next
  assume a: "get_timeout X t' = Inr n \<and> 0 < n
    \<and> \<not> fst (process_is_stopped p n (logger (Info ''Waiting for process to complete.'') s))"
    and c: "lower on_k = ''kill''"
  with assms show "wait_for_process X h t' on_k s
      = returned (terminate_process X h True
          (logger (Info (''Process did not complete in '' @ secs_to_timestr X n @ ''.''))
             (snd (process_is_stopped p n (logger (Info ''Waiting for process to complete.'') s)))))"
    by (simp add: wait_for_process_timeout manage_process_timeout_def)
qed

lemma tracking_facts:
  "getitem (processes (tracking r)) Active = Inr 0"
  "results (tracking r) 0 = Some r"
  "communicate_script (os (tracking r) 0) = []"
  "returncode (popens (tracking r) 0) = None"
  "poll_at (os (tracking r) 0) = (\<lambda>t. None)"
  "trace (tracking r) = []"
  by (simp_all add: tracking_def fresh_def getitem_def)

lemma lower_examples:
  "lower ''Continue'' = ''continue''" "lower ''terminate'' = ''terminate''" "lower ''KILL'' = ''kill''"
  "lower ''stop'' = ''stop''" "upper ''none'' = ''NONE''"
  by (simp_all add: lower_def lower_char_def upper_def upper_char_def lower_letters_def upper_letters_def)

lemma posix_timeout: "get_timeout posix (TNum 50) = Inr 50" "secs_to_timestr posix 50 = ''some time''"
  by (simp_all add: get_timeout_def falsy_def posix_def)

lemma tracking_still_running:
  "\<not> fst (process_is_stopped 0 n (logger e (tracking r)))"
  by (rule process_is_stopped_running) (simp_all add: tracking_facts)

theorem wait_for_process_timeout_policy_witness:
  "getitem (processes (tracking pending_result)) Active = Inr 0
   \<and> upper ''none'' = ''NONE''
   \<and> wait_for_process posix Active (TStr ''none'') ''continue'' (tracking pending_result)
       = returned (wait posix 0
           (logger (Info ''Waiting for process to complete.'') (tracking pending_result)))
   \<and> results (tracking pending_result) 0 = Some pending_result
   \<and> wait posix 0 (logger (Info ''Waiting for process to complete.'') (tracking pending_result))
       = None
   \<and> get_timeout posix (TNum 50) = Inr 50
   \<and> \<not> fst (process_is_stopped 0 50
            (logger (Info ''Waiting for process to complete.'') (tracking pending_result)))
   \<and> lower ''Continue'' = ''continue''
   \<and> (\<exists>s'. wait_for_process posix Active (TNum 50) ''Continue'' (tracking pending_result)
             = Some (Inr None, s')
          \<and> trace s' = [Info ''Waiting for process to complete.'',
               Info ''Process did not complete in some time.'', Info ''Leaving process intact.'']
          \<and> returncode (popens s' 0) = None)
   \<and> lower ''terminate'' = ''terminate''
   \<and> wait_for_process posix Active (TNum 50) ''terminate'' (tracking pending_result)
       = returned (terminate_process posix Active False
           (logger (Info ''Process did not complete in some time.'')
              (snd (process_is_stopped 0 50
                 (logger (Info ''Waiting for process to complete.'') (tracking pending_result))))))
   \<and> lower ''KILL'' = ''kill''
   \<and> wait_for_process posix Active (TNum 50) ''KILL'' (tracking pending_result)
       = returned (terminate_process posix Active True
           (logger (Info ''Process did not complete in some time.'')
              (snd (process_is_stopped 0 50
                 (logger (Info ''Waiting for process to complete.'') (tracking pending_result))))))"
  using wait_for_process_timeout_policy [of "tracking pending_result" Active 0 "TStr ''none''" posix
      "''continue''" pending_result "TNum 50" 50 "''Continue''" "''terminate''" "''KILL''"]
    tracking_still_running [of 50 "Info ''Waiting for process to complete.''" pending_result]
  by (simp add: tracking_facts lower_examples posix_timeout)

text \<open>
  Claim C10. When a positive timeout passes with the process still running and the
  lower-case form of \<open>on_timeout\<close> is neither \<open>terminate\<close> nor \<open>kill\<close>, whatever
  else it is, \<open>wait_for_process\<close> returns \<open>None\<close> and raises nothing: it logs three
  lines and sends no signal, the process is still running, and the registry, the results
  and the streams are as they were.
\<close>

theorem unknown_on_timeout_continues:
  assumes "getitem (processes s) h = Inr p" and "get_timeout X t = Inr n" and "0 < n"
    and "\<not> fst (process_is_stopped p n (logger (Info ''Waiting for process to complete.'') s))"
    and "lower on \<noteq> ''terminate''" and "lower on \<noteq> ''kill''"
  shows "\<exists>s'. wait_for_process X h t on s = Some (Inr None, s')
    \<and> trace s' = trace s @ [Info ''Waiting for process to complete.'',
         Info (''Process did not complete in '' @ secs_to_timestr X n @ ''.''),
         Info ''Leaving process intact.'']
    \<and> returncode (popens s' p) = None
    \<and> results s' = results s \<and> processes s' = processes s \<and> heap s' = heap s \<and> os s' = os s"
  using assms by (rule left_running)

theorem unknown_on_timeout_continues_witness:
  "getitem (processes (tracking pending_result)) Active = Inr 0
   \<and> get_timeout posix (TNum 50) = Inr 50 \<and> (0::int) < 50
   \<and> \<not> fst (process_is_stopped 0 50
            (logger (Info ''Waiting for process to complete.'') (tracking pending_result)))
   \<and> lower ''stop'' \<noteq> ''terminate'' \<and> lower ''stop'' \<noteq> ''kill''
   \<and> (\<exists>s'. wait_for_process posix Active (TNum 50) ''stop'' (tracking pending_result)
             = Some (Inr None, s')
          \<and> trace s' = [Info ''Waiting for process to complete.'',
               Info ''Process did not complete in some time.'', Info ''Leaving process intact.'']
          \<and> returncode (popens s' 0) = None
          \<and> results s' = results (tracking pending_result)
          \<and> processes s' = processes (tracking pending_result)
          \<and> heap s' = heap (tracking pending_result) \<and> os s' = os (tracking pending_result))"
proof -
  have l: "lower ''stop'' \<noteq> ''terminate''" "lower ''stop'' \<noteq> ''kill''"
    by (simp_all add: lower_examples)
  from unknown_on_timeout_continues [of "tracking pending_result" Active 0 posix "TNum 50" 50
      "''stop''"]
  show ?thesis
    using tracking_still_running [of 50 "Info ''Waiting for process to complete.''" pending_result] l
    by (simp add: tracking_facts posix_timeout)
qed

section \<open>Cancellation while waiting\<close>

lemma forget_closed_stdin_none:
  "p_stdin (popens s p) = None \<Longrightarrow> forget_closed_stdin p s = s"
  by (simp add: forget_closed_stdin_def)

lemma cancelled_run_facts:
  "results (cancelled_run observed fails) 0 = Some pending_result"
  "communicate_script (os (cancelled_run observed fails) 0) = replicate 1 TimeoutExpired @ Cancelled # []"
  "delivery_fails (os (cancelled_run observed fails) 0) = fails"
  "poll_at (os (cancelled_run observed fails) 0) = observed"
  "returncode (popens (cancelled_run observed fails) 0) = None"
  "trace (cancelled_run observed fails) = []"
  "now (cancelled_run observed fails) = 0"
  "p_stdin (popens (cancelled_run observed fails) 0) = None"
  by (simp_all add: cancelled_run_def tracking_def fresh_def)

lemma kill_delivery_posix: "kill_delivery posix = Killpg SIGKILL"
  by (simp add: kill_delivery_def posix_def)


lemma wait_cancelled_run:
  "wait posix 0 (cancelled_run observed fails)
     = cancelled posix 0 (take_outcome 0 [] (sleep 100 (take_outcome 0 [Cancelled]
         (cancelled_run observed fails))))"
  by (simp add: wait_unfold [OF cancelled_run_facts(1)] cancelled_run_facts
      forget_closed_stdin_none)

lemma cancelled_cannot_signal:
  "map_option fst (wait posix 0 (cancelled_run (\<lambda>t. None) (\<lambda>d. True))) = Some (Inl OSError)"
  by (simp add: wait_cancelled_run cancelled_def kill_unfold cancelled_run_facts)

lemma cancelled_survives_kill:
  "map_option fst (wait posix 0 (cancelled_run (\<lambda>t. None) (\<lambda>d. False)))
     = Some (Inl (RuntimeError ''Failed to kill process.''))"
proof -
  let ?s = "logger (Sent 0 (kill_delivery posix)) (logger (Info ''Forcefully killing process.'')
    (logger (Info ''Timeout exceeded.'') (take_outcome 0 [] (sleep 100 (take_outcome 0 [Cancelled]
      (cancelled_run (\<lambda>t. None) (\<lambda>d. False)))))))"
  have "\<not> fst (process_is_stopped 0 KILL_TIMEOUT ?s)"
    by (rule process_is_stopped_running) (simp_all add: cancelled_run_facts)
  then show ?thesis
    by (simp add: wait_cancelled_run cancelled_def kill_unfold cancelled_run_facts)
qed

lemma poll_known: "returncode (popens s p) = Some c \<Longrightarrow> fst (poll p s) = Some c"
  by (simp add: poll_def)

lemma process_is_stopped_exited:
  assumes "fst (poll p s) = Some c"
  shows "fst (process_is_stopped p t s)"
proof -
  have loop: "stopped_loop p m st s = snd (poll p s)" for m st
    using assms by (subst stopped_loop.simps) simp
  have "fst (poll p (snd (poll p s))) = Some c"
    using assms by (intro poll_known) simp
  with assms show ?thesis
    by (simp add: process_is_stopped_def Let_def case_prod_unfold loop)
qed

lemma cancelled_killed:
  "map_option fst (wait posix 0 (cancelled_run (\<lambda>t. if 100 \<le> t then Some (- 9) else None) (\<lambda>d. False)))
     = Some (Inl TimeoutExceeded)"
proof -
  let ?s = "logger (Sent 0 (kill_delivery posix)) (logger (Info ''Forcefully killing process.'')
    (logger (Info ''Timeout exceeded.'') (take_outcome 0 [] (sleep 100 (take_outcome 0 [Cancelled]
      (cancelled_run (\<lambda>t. if 100 \<le> t then Some (- 9) else None) (\<lambda>d. False)))))))"
  have "fst (poll 0 ?s) = Some (- 9)"
    by (simp add: poll_def Let_def cancelled_run_facts)
  then have "fst (process_is_stopped 0 KILL_TIMEOUT ?s)"
    by (rule process_is_stopped_exited)
  then show ?thesis
    by (simp add: wait_cancelled_run cancelled_def kill_unfold cancelled_run_facts)
qed

section \<open>The results of a process\<close>

lemma disk_read_stream [simp]: "disk (snd (read_stream X enc path stream s)) = disk s"
proof -
  have a: "disk (snd (open_rb p s)) = disk s" for p s
    by (cases "disk s p") (simp_all add: open_rb_def alloc_def)
  have b: "disk (snd (read_or_empty i s)) = disk s" for i s
    by (cases "content (heap s i)") (simp_all add: read_or_empty_def)
  have c: "disk (close i s) = disk s" for i s
    by (simp add: close_def)
  show ?thesis
    by (simp add: read_stream_def case_prod_unfold Let_def a b c split: sum.split option.split)
qed

lemma disk_stdout [simp]: "disk (snd (snd (stdout X r s))) = disk s"
  by (simp add: stdout_def read_stdout_def case_prod_unfold split: sum.split)

lemma stdout_keeps_stderr [simp]:
  "r_stderr (fst (snd (stdout X r s))) = r_stderr r"
  by (simp add: stdout_def read_stdout_def case_prod_unfold split: sum.split)

lemma get_process_result_error:
  assumes "getitem (processes s) h = Inr p" and "results s p = Some r" and "rc r \<noteq> None"
    and "fst (get_process_result X h a b c d e s) = Inl err"
  shows "err = OSError
    \<and> (r_stdout r = None \<and> (\<exists>path. stdout_path r = Some path \<and> disk s path = Missing)
       \<or> r_stderr r = None \<and> (\<exists>path. stderr_path r = Some path \<and> disk s path = Missing))"
proof -
  from assms have attrs: "fst (get_result_attributes X r [a, b, c, d, e] s) = Inl err"
    by (auto simp: get_process_result_def case_prod_unfold split: sum.splits if_splits)
  show ?thesis
  proof (cases "fst (stdout X r s)")
    case (Inl e')
    with attrs have "e' = err"
      by (simp add: get_result_attributes_def case_prod_unfold)
    with Inl stdout_error [of X r s err] show ?thesis by auto
  next
    case (Inr out)
    let ?r1 = "fst (snd (stdout X r s))" and ?s1 = "snd (snd (stdout X r s))"
    from Inr attrs have "fst (stderr X ?r1 ?s1) = Inl err"
      by (auto simp: get_result_attributes_def case_prod_unfold Let_def split: sum.splits)
    from stderr_error [OF this] show ?thesis by auto
  qed
qed

lemma get_process_result_cached:
  assumes "getitem (processes s) h = Inr p" and "results s p = Some r" and "rc r \<noteq> None"
    and "r_stdout r \<noteq> None" and "r_stderr r \<noteq> None"
  shows "\<exists>g. fst (get_process_result X h a b c d e s) = Inr g"
proof (cases "fst (get_process_result X h a b c d e s)")
  case (Inl err)
  from get_process_result_error [OF assms(1-3) this] assms(4,5) show ?thesis by simp
next
  case (Inr g)
  then show ?thesis by simp
qed

lemma close_streams_no_paths:
  assumes "stdout_path r = None" and "stderr_path r = None"
  shows "fst (close_streams X r s) = Inr ()"
proof -
  have out: "fst (read_stdout X r s) = Inr ()" for s
    using assms(1) read_stream_error [of X "r_output_encoding r" None "p_stdout (popens s (r_process r))" s]
    by (cases "fst (read_stream X (r_output_encoding r) None (p_stdout (popens s (r_process r))) s)")
      (auto simp: read_stdout_def case_prod_unfold)
  have err: "fst (read_stderr X r' s) = Inr ()" if "stderr_path r' = None" for s r'
    using that read_stream_error [of X "r_output_encoding r'" None "p_stderr (popens s (r_process r'))" s]
    by (cases "fst (read_stream X (r_output_encoding r') None (p_stderr (popens s (r_process r'))) s)")
      (auto simp: read_stderr_def case_prod_unfold)
  have "\<exists>l. fst (get_and_read_standard_streams X r s) = Inr l"
    using assms out err
    by (simp add: get_and_read_standard_streams_def case_prod_unfold Let_def split: sum.split)
  then show ?thesis
    by (auto simp: close_streams_def case_prod_unfold split: sum.split)
qed


lemma set_output_paths [simp]:
  "stdout_path (set_stdout X v r) = stdout_path r" "stderr_path (set_stdout X v r) = stderr_path r"
  "stdout_path (set_stderr X v r) = stdout_path r" "stderr_path (set_stderr X v r) = stderr_path r"
  by (simp_all add: set_stdout_def set_stderr_def)

lemma completed_no_paths:
  assumes "stdout_path r = None" and "stderr_path r = None"
  shows "\<exists>r' s'. completed X p r out err code s = Some (Inr r', s')"
proof -
  let ?c = "communicate_returns p out err code s"
  let ?r2 = "(set_stderr X (snd (fst ?c)) (set_stdout X (fst (fst ?c)) r))
      \<lparr>rc := returncode (popens (snd ?c) p)\<rparr>"
  have "fst (close_streams X ?r2 (snd ?c)) = Inr ()"
    by (rule close_streams_no_paths) (simp_all add: assms)
  then show ?thesis
    by (simp add: completed_def case_prod_unfold Let_def)
qed

lemma piped_facts:
  "getitem (processes piped) Active = Inr 0"
  "results piped 0 = Some pending_result"
  "communicate_script (os piped 0) = [Done (''out'' @ [LF]) [] 0]"
  by (simp_all add: piped_def tracking_def fresh_def getitem_def)

lemma pending_paths: "stdout_path pending_result = None" "stderr_path pending_result = None"
  by (simp_all add: pending_result_def done_result_def)

lemma wait_piped: "\<exists>r' s'. wait posix 0 piped = Some (Inr r', s')"
  using completed_no_paths [OF pending_paths]
  by (simp add: wait_unfold [OF piped_facts(2)] piped_facts)

lemma done_cached:
  "stdout posix done_result s = (Inr (Some ''hello''), done_result, s)"
  "stderr posix done_result s = (Inr (Some []), done_result, s)"
  by (simp_all add: stdout_def stderr_def done_result_def)

lemma done_facts:
  "rc done_result = Some 0" "stdout_path done_result = None" "stderr_path done_result = None"
  "rc pending_result = None" "rc lost_result = Some 0"
  by (simp_all add: done_result_def pending_result_def lost_result_def)

text \<open>
  Claim C3, as the code has it. For a handle that resolves to a tracked process,
  \<open>get_process_result\<close> raises the \<open>RuntimeError\<close> of an unfinished process exactly
  when the return code of its result is unset. With the return code set and both
  outputs readable, no selector gives the result object, exactly one selector gives
  the selected attribute itself and not a tuple, and two or more give the selected
  attributes in the order return code, stdout, stderr, stdout path, stderr path. With
  both outputs already cached the call succeeds; the only error of a call with the
  return code set is the \<open>OSError\<close> of an output file that is not there. A result
  that \<open>_wait\<close> returns has its return code set and is the stored result.
\<close>

theorem get_process_result_contract:
  assumes "getitem (processes s) h = Inr p" and "results s p = Some r"
  shows
    "((\<exists>st. get_process_result X h a b c d e s
         = (Inl (RuntimeError ''Getting results of unfinished processes is not supported.''), st))
        = (rc r = None))
     \<and> (rc r = Some n \<and> stdout X r s = (Inr (Some out), r1, s1)
          \<and> stderr X r1 s1 = (Inr (Some err), r2, s2) \<longrightarrow>
          (\<not> a \<and> \<not> b \<and> \<not> c \<and> \<not> d \<and> \<not> e \<longrightarrow>
             get_process_result X h a b c d e s = (Inr (Result r2), set_result p r2 s2))
          \<and> (\<forall>x. requested (PyInt n) (PyStr out) (PyStr err) (of_str_option (stdout_path r))
                     (of_str_option (stderr_path r)) a b c d e = [x] \<longrightarrow>
                 get_process_result X h a b c d e s = (Inr (Attribute x), set_result p r2 s2))
          \<and> (2 \<le> length (requested (PyInt n) (PyStr out) (PyStr err) (of_str_option (stdout_path r))
                     (of_str_option (stderr_path r)) a b c d e) \<longrightarrow>
                 get_process_result X h a b c d e s
                   = (Inr (Attributes (requested (PyInt n) (PyStr out) (PyStr err)
                        (of_str_option (stdout_path r)) (of_str_option (stderr_path r)) a b c d e)),
                      set_result p r2 s2)))
     \<and> (rc r \<noteq> None \<and> r_stdout r \<noteq> None \<and> r_stderr r \<noteq> None \<longrightarrow>
          (\<exists>g. fst (get_process_result X h a b c d e s) = Inr g))
     \<and> (rc r \<noteq> None \<and> fst (get_process_result X h a b c d e s) = Inl failure \<longrightarrow>
          failure = OSError
          \<and> (r_stdout r = None \<and> (\<exists>path. stdout_path r = Some path \<and> disk s path = Missing)
             \<or> r_stderr r = None \<and> (\<exists>path. stderr_path r = Some path \<and> disk s path = Missing)))
     \<and> (\<forall>r' s'. wait X p s = Some (Inr r', s') \<longrightarrow> rc r' \<noteq> None \<and> results s' p = Some r')"
proof (intro conjI impI allI)
  show "(\<exists>st. get_process_result X h a b c d e s
         = (Inl (RuntimeError ''Getting results of unfinished processes is not supported.''), st))
        = (rc r = None)"
    using assms by (rule get_process_result_unfinished)
next
  assume f: "rc r = Some n \<and> stdout X r s = (Inr (Some out), r1, s1)
    \<and> stderr X r1 s1 = (Inr (Some err), r2, s2)"
  note eq = get_process_result_finished [OF assms, of n X out r1 s1 err r2 s2 _ a b c d e, OF _ _ _ refl]
  {
    assume "\<not> a \<and> \<not> b \<and> \<not> c \<and> \<not> d \<and> \<not> e"
    with f eq show "get_process_result X h a b c d e s = (Inr (Result r2), set_result p r2 s2)"
      by (simp add: requested_def)
  next
    fix x
    assume "requested (PyInt n) (PyStr out) (PyStr err) (of_str_option (stdout_path r))
        (of_str_option (stderr_path r)) a b c d e = [x]"
    with f eq show "get_process_result X h a b c d e s = (Inr (Attribute x), set_result p r2 s2)"
      by simp
  next
    assume "2 \<le> length (requested (PyInt n) (PyStr out) (PyStr err) (of_str_option (stdout_path r))
        (of_str_option (stderr_path r)) a b c d e)"
    with f eq show "get_process_result X h a b c d e s
        = (Inr (Attributes (requested (PyInt n) (PyStr out) (PyStr err)
             (of_str_option (stdout_path r)) (of_str_option (stderr_path r)) a b c d e)),
           set_result p r2 s2)"
      by auto
  }
next
  assume "rc r \<noteq> None \<and> r_stdout r \<noteq> None \<and> r_stderr r \<noteq> None"
  with get_process_result_cached [OF assms, of X a b c d e]
  show "\<exists>g. fst (get_process_result X h a b c d e s) = Inr g"
    by simp
next
  assume "rc r \<noteq> None \<and> fst (get_process_result X h a b c d e s) = Inl failure"
  with get_process_result_error [OF assms, of X a b c d e failure]
  show "failure = OSError" and "r_stdout r = None \<and> (\<exists>path. stdout_path r = Some path \<and> disk s path = Missing)
     \<or> r_stderr r = None \<and> (\<exists>path. stderr_path r = Some path \<and> disk s path = Missing)"
    by simp_all
next
  fix r' s'
  assume "wait X p s = Some (Inr r', s')"
  from wait_result [OF this] show "rc r' \<noteq> None" and "results s' p = Some r'"
    by simp_all
qed

theorem get_process_result_contract_witness:
  "getitem (processes (tracking pending_result)) Active = Inr 0
   \<and> results (tracking pending_result) 0 = Some pending_result
   \<and> rc pending_result = None
   \<and> (\<exists>st. get_process_result posix Active True False False False False (tracking pending_result)
         = (Inl (RuntimeError ''Getting results of unfinished processes is not supported.''), st))
   \<and> getitem (processes (tracking done_result)) Active = Inr 0
   \<and> results (tracking done_result) 0 = Some done_result
   \<and> rc done_result = Some 0
   \<and> stdout posix done_result (tracking done_result)
       = (Inr (Some ''hello''), done_result, tracking done_result)
   \<and> stderr posix done_result (tracking done_result)
       = (Inr (Some []), done_result, tracking done_result)
   \<and> get_process_result posix Active False False False False False (tracking done_result)
       = (Inr (Result done_result), set_result 0 done_result (tracking done_result))
   \<and> requested (PyInt 0) (PyStr ''hello'') (PyStr []) PyNone PyNone False True False False False
       = [PyStr ''hello'']
   \<and> get_process_result posix Active False True False False False (tracking done_result)
       = (Inr (Attribute (PyStr ''hello'')), set_result 0 done_result (tracking done_result))
   \<and> get_process_result posix Active True False True False True (tracking done_result)
       = (Inr (Attributes [PyInt 0, PyStr [], PyNone]),
          set_result 0 done_result (tracking done_result))
   \<and> (\<exists>r' s'. wait posix 0 piped = Some (Inr r', s') \<and> rc r' \<noteq> None \<and> results s' 0 = Some r')"
proof -
  note T = get_process_result_contract [where X = posix and h = Active and p = 0]
  note D = T [where s = "tracking done_result" and r = done_result and n = 0 and out = "''hello''"
      and ?r1.0 = done_result and ?s1.0 = "tracking done_result" and err = "[]" and ?r2.0 = done_result
      and ?s2.0 = "tracking done_result", OF tracking_facts(1,2)]
  have none: "get_process_result posix Active False False False False False (tracking done_result)
      = (Inr (Result done_result), set_result 0 done_result (tracking done_result))"
    using D [of False False False False False] by (simp add: done_facts done_cached)
  have one: "get_process_result posix Active False True False False False (tracking done_result)
      = (Inr (Attribute (PyStr ''hello'')), set_result 0 done_result (tracking done_result))"
    using D [of False True False False False]
    by (simp add: done_facts done_cached requested_def of_str_option_def)
  have three: "get_process_result posix Active True False True False True (tracking done_result)
      = (Inr (Attributes [PyInt 0, PyStr [], PyNone]),
         set_result 0 done_result (tracking done_result))"
    using D [of True False True False True]
    by (simp add: done_facts done_cached requested_def of_str_option_def)
  have unfinished: "\<exists>st. get_process_result posix Active True False False False False
      (tracking pending_result)
      = (Inl (RuntimeError ''Getting results of unfinished processes is not supported.''), st)"
    using T [where s = "tracking pending_result" and r = pending_result, OF tracking_facts(1,2),
        of True False False False False]
    by (simp add: done_facts)
  have waited: "\<exists>r' s'. wait posix 0 piped = Some (Inr r', s') \<and> rc r' \<noteq> None
      \<and> results s' 0 = Some r'"
    using T [where s = piped and r = pending_result, OF piped_facts(1,2),
        THEN conjunct2, THEN conjunct2, THEN conjunct2, THEN conjunct2] wait_piped
    by blast
  show ?thesis
    using none one three unfinished waited
    by (simp add: tracking_facts done_facts done_cached requested_def)
qed

theorem get_process_result_counterexample:
  "rc done_result = Some 0
   \<and> fst (get_process_result posix Active True False False False False (tracking done_result))
       = Inr (Attribute (PyInt 0))
   \<and> Attribute (PyInt 0) \<noteq> Attributes [PyInt 0]
   \<and> rc lost_result = Some 0
   \<and> fst (get_process_result posix Active False False False False False (tracking lost_result))
       = Inl OSError"
proof -
  have a: "fst (get_process_result posix Active True False False False False (tracking done_result))
      = Inr (Attribute (PyInt 0))"
    by (simp add: get_process_result_def tracking_facts done_facts get_result_attributes_def
        done_cached of_int_option_def)
  have "disk (tracking lost_result) ''/work/out.txt'' = Missing"
    by (simp add: tracking_def fresh_def)
  then have "fst (stdout posix lost_result (tracking lost_result)) = Inl OSError"
    by (simp add: stdout_def read_stdout_def read_stream_def open_rb_def lost_result_def
        done_result_def truthy_def)
  then have b: "fst (get_process_result posix Active False False False False False
      (tracking lost_result)) = Inl OSError"
    by (simp add: get_process_result_def tracking_facts done_facts get_result_attributes_def
        case_prod_unfold)
  from a b show ?thesis
    by (simp add: done_facts)
qed

section \<open>Reading and closing twice\<close>

lemma filed_stdout:
  "fst (stdout posix lost_result filed) = Inr (Some (''line1'' @ [LF] @ ''line2''))"
  by (simp add: stdout_def read_stdout_def read_stream_def open_rb_def lost_result_def
      done_result_def truthy_def filed_def tracking_def fresh_def alloc_def read_or_empty_def
      close_def format_output_def set_stdout_def posix_def str_replace.simps endswith_def
      CR_def LF_def Let_def)

lemma filed_stderr: "fst (stderr posix lost_result filed) = Inr (Some [])"
  by (simp add: stderr_def lost_result_def done_result_def)

lemma piped_close_streams: "fst (close_streams posix pending_result piped) = Inr ()"
  by (rule close_streams_no_paths) (simp_all add: pending_paths)

text \<open>
  Claim C6. An access to \<open>stdout\<close> or \<open>stderr\<close> that returns, returns a string, and
  the next access to the result it leaves, in whatever state of the files and
  streams, returns the same string and changes nothing. A \<open>close_streams\<close> that
  returns can be followed by another one, which does not raise, reads nothing and
  closes nothing. On the result that \<open>_wait\<close> returns, \<open>close_streams\<close> does not raise
  and changes nothing, however often it is called.
\<close>

theorem result_access_idempotent:
  "(fst (stdout X r s) = Inr v \<longrightarrow>
      (\<exists>t. v = Some t)
      \<and> stdout X (fst (snd (stdout X r s))) s' = (Inr v, fst (snd (stdout X r s)), s'))
   \<and> (fst (stderr X r s) = Inr v \<longrightarrow>
      (\<exists>t. v = Some t)
      \<and> stderr X (fst (snd (stderr X r s))) s' = (Inr v, fst (snd (stderr X r s)), s'))
   \<and> (fst (close_streams X r s) = Inr u \<and> heap s' = heap (snd (snd (close_streams X r s)))
        \<and> popens s' = popens (snd (snd (close_streams X r s))) \<longrightarrow>
      close_streams X (fst (snd (close_streams X r s))) s'
        = (Inr (), fst (snd (close_streams X r s)), s'))
   \<and> (\<forall>rf sf. wait X p s = Some (Inr rf, sf) \<longrightarrow> close_streams X rf sf = (Inr (), rf, sf))"
proof (intro conjI impI allI)
  assume a: "fst (stdout X r s) = Inr v"
  from stdout_cached [OF a] show "\<exists>t. v = Some t"
    by blast
  from a have "stdout X r s = (Inr v, fst (snd (stdout X r s)), snd (snd (stdout X r s)))"
    by (simp add: prod_eq_iff)
  then show "stdout X (fst (snd (stdout X r s))) s' = (Inr v, fst (snd (stdout X r s)), s')"
    by (rule stdout_again)
next
  assume a: "fst (stderr X r s) = Inr v"
  from stderr_cached [OF a] show "\<exists>t. v = Some t"
    by blast
  from a have "stderr X r s = (Inr v, fst (snd (stderr X r s)), snd (snd (stderr X r s)))"
    by (simp add: prod_eq_iff)
  then show "stderr X (fst (snd (stderr X r s))) s' = (Inr v, fst (snd (stderr X r s)), s')"
    by (rule stderr_again)
next
  assume a: "fst (close_streams X r s) = Inr u \<and> heap s' = heap (snd (snd (close_streams X r s)))
    \<and> popens s' = popens (snd (snd (close_streams X r s)))"
  then have "close_streams X r s
      = (Inr u, fst (snd (close_streams X r s)), snd (snd (close_streams X r s)))"
    by (simp add: prod_eq_iff)
  from close_streams_again [OF this] a
  show "close_streams X (fst (snd (close_streams X r s))) s'
      = (Inr (), fst (snd (close_streams X r s)), s')"
    by simp
next
  fix rf sf
  assume w: "wait X p s = Some (Inr rf, sf)"
  from wait_result [OF w] show "close_streams X rf sf = (Inr (), rf, sf)"
    by simp
qed

theorem result_access_idempotent_witness:
  "fst (stdout posix lost_result filed) = Inr (Some (''line1'' @ [LF] @ ''line2''))
   \<and> stdout posix (fst (snd (stdout posix lost_result filed))) (tracking lost_result)
       = (Inr (Some (''line1'' @ [LF] @ ''line2'')), fst (snd (stdout posix lost_result filed)),
          tracking lost_result)
   \<and> fst (stderr posix lost_result filed) = Inr (Some [])
   \<and> stderr posix (fst (snd (stderr posix lost_result filed))) (tracking lost_result)
       = (Inr (Some []), fst (snd (stderr posix lost_result filed)), tracking lost_result)
   \<and> fst (close_streams posix pending_result piped) = Inr ()
   \<and> close_streams posix (fst (snd (close_streams posix pending_result piped)))
         (snd (snd (close_streams posix pending_result piped)))
       = (Inr (), fst (snd (close_streams posix pending_result piped)),
          snd (snd (close_streams posix pending_result piped)))
   \<and> (\<exists>rf sf. wait posix 0 piped = Some (Inr rf, sf)
         \<and> close_streams posix rf sf = (Inr (), rf, sf))"
proof -
  note out = result_access_idempotent [where X = posix and r = lost_result and s = filed
      and s' = "tracking lost_result"]
  note closing = result_access_idempotent [where X = posix and r = pending_result and s = piped
      and s' = "snd (snd (close_streams posix pending_result piped))" and u = "()"]
  have a: "stdout posix (fst (snd (stdout posix lost_result filed))) (tracking lost_result)
       = (Inr (Some (''line1'' @ [LF] @ ''line2'')), fst (snd (stdout posix lost_result filed)),
          tracking lost_result)"
    using out [where v = "Some (''line1'' @ [LF] @ ''line2'')", THEN conjunct1] filed_stdout
    by simp
  have b: "stderr posix (fst (snd (stderr posix lost_result filed))) (tracking lost_result)
       = (Inr (Some []), fst (snd (stderr posix lost_result filed)), tracking lost_result)"
    using out [where v = "Some []", THEN conjunct2, THEN conjunct1] filed_stderr
    by simp
  have c: "close_streams posix (fst (snd (close_streams posix pending_result piped)))
         (snd (snd (close_streams posix pending_result piped)))
       = (Inr (), fst (snd (close_streams posix pending_result piped)),
          snd (snd (close_streams posix pending_result piped)))"
    using closing [THEN conjunct2, THEN conjunct2, THEN conjunct1] piped_close_streams
    by simp
  have d: "\<exists>rf sf. wait posix 0 piped = Some (Inr rf, sf)
         \<and> close_streams posix rf sf = (Inr (), rf, sf)"
    using closing [where p = 0, THEN conjunct2, THEN conjunct2, THEN conjunct2] wait_piped
    by blast
  from a b c d filed_stdout filed_stderr piped_close_streams show ?thesis
    by simp
qed

section \<open>Starting a process under an alias that is taken\<close>

lemma only_new_objects_refl [simp]: "only_new_objects s s"
  by (simp add: only_new_objects_def)

lemma only_new_objects_trans:
  "only_new_objects s s1 \<Longrightarrow> only_new_objects s1 s2 \<Longrightarrow> only_new_objects s s2"
  by (simp add: only_new_objects_def)

lemma alloc_only_new: "only_new_objects s (snd (alloc f s))"
  by (simp add: only_new_objects_def alloc_def)

lemma logger_only_new: "only_new_objects s (logger e s)"
  by (simp add: only_new_objects_def logger_def)

lemma open_w_only_new: "only_new_objects s (snd (open_w path s))"
  by (simp add: only_new_objects_def open_w_def alloc_def)

lemma open_rb_only_new: "only_new_objects s (snd (open_rb path s))"
  by (cases "disk s path") (simp_all add: only_new_objects_def open_rb_def alloc_def)

lemma new_stream_only_new: "only_new_objects s (snd (new_stream X d n s))"
  by (simp add: new_stream_def open_w_only_new)

lemma get_stderr_only_new: "only_new_objects s (snd (get_stderr X d e out st s))"
  by (simp add: get_stderr_def new_stream_only_new)

lemma stdin_from_text_only_new: "only_new_objects s (snd (stdin_from_text X d enc t s))"
  using open_rb_only_new [of s "normpath X (path_join X d t)"]
  by (simp add: stdin_from_text_def Let_def case_prod_unfold alloc_only_new split: sum.split)

lemma get_stdin_only_new: "only_new_objects s (snd (get_stdin X d enc i s))"
  by (cases i) (simp_all add: get_stdin_def stdin_from_text_only_new)

lemma ProcessConfiguration_init_only_new:
  "only_new_objects s (snd (ProcessConfiguration_init X a s))"
proof -
  define d where "d = (if truthy (a_cwd a)
      then normpath X (case a_cwd a of Some d \<Rightarrow> d | None \<Rightarrow> []) else abspath X ''.'')"
  let ?n = "new_stream X d (a_stdout a) s"
  have 1: "only_new_objects s (snd ?n)"
    by (rule new_stream_only_new)
  show ?thesis
  proof (cases "fst ?n")
    case (Inl e)
    with 1 show ?thesis
      unfolding ProcessConfiguration_init_def d_def [symmetric] Let_def
      by (simp add: case_prod_unfold)
  next
    case out: (Inr out)
    let ?e = "get_stderr X d (a_stderr a) (a_stdout a) out (snd ?n)"
    have 2: "only_new_objects s (snd ?e)"
      by (rule only_new_objects_trans [OF 1 get_stderr_only_new])
    show ?thesis
    proof (cases "fst ?e")
      case (Inl e)
      with out 2 show ?thesis
        unfolding ProcessConfiguration_init_def d_def [symmetric] Let_def
        by (simp add: case_prod_unfold)
    next
      case err: (Inr err)
      let ?i = "get_stdin X d (a_output_encoding a) (a_stdin a) (snd ?e)"
      have 3: "only_new_objects s (snd ?i)"
        by (rule only_new_objects_trans [OF 2 get_stdin_only_new])
      show ?thesis
      proof (cases "fst ?i")
        case (Inl e)
        with out err 3 show ?thesis
          unfolding ProcessConfiguration_init_def d_def [symmetric] Let_def
          by (simp add: case_prod_unfold)
      next
        case (Inr inp)
        with out err 3 show ?thesis
          unfolding ProcessConfiguration_init_def d_def [symmetric] Let_def
          by (cases "construct_env X (a_env a) (a_env_extra a)") (simp_all add: case_prod_unfold)
      qed
    qed
  qed
qed

lemma ProcessConfiguration_init_alias:
  "fst (ProcessConfiguration_init X a s) = Inr conf \<Longrightarrow> alias' conf = a_alias a"
  unfolding ProcessConfiguration_init_def Let_def
  by (simp add: case_prod_unfold split: sum.splits) auto

lemma log_start_only_new: "only_new_objects s (log_start X c conf s)"
  by (simp add: log_start_def Let_def only_new_objects_def logger_def)

lemma make_pipe_only_new: "only_new_objects s (snd (make_pipe w d s))"
  by (simp add: make_pipe_def case_prod_unfold Let_def alloc_only_new)



lemma Popen_error: "fst (Popen X c conf s) = Inl e \<Longrightarrow> \<not> can_spawn X c \<and> snd (Popen X c conf s) = s"
  by (cases "can_spawn X c") (simp_all add: Popen_def Let_def case_prod_unfold)


lemma Popen_started:
  assumes "fst (Popen X c conf s) = Inr p"
  shows "can_spawn X c \<and> p = next_popen s
    \<and> (\<exists>s3 v. only_new_objects s s3 \<and> snd (Popen X c conf s)
          = s3\<lparr>popens := (popens s3)(next_popen s := v), next_popen := Suc (next_popen s)\<rparr>)"
proof -
  let ?a = "make_pipe (stdin_stream conf = Some PIPE) None s"
  let ?b = "make_pipe (stdout_stream conf = PIPE) (out_data (os s (next_popen s))) (snd ?a)"
  let ?c = "make_pipe (stderr_stream conf = PIPE) (err_data (os s (next_popen s))) (snd ?b)"
  have a: "only_new_objects s (snd ?a)"
    by (rule make_pipe_only_new)
  have b: "only_new_objects s (snd ?b)"
    by (rule only_new_objects_trans [OF a make_pipe_only_new])
  have c: "only_new_objects s (snd ?c)"
    by (rule only_new_objects_trans [OF b make_pipe_only_new])
  from assms have spawn: "can_spawn X c"
    by (cases "can_spawn X c") (simp_all add: Popen_def)
  with assms have p: "p = next_popen s"
    by (simp add: Popen_def Let_def case_prod_unfold)
  from spawn have "snd (Popen X c conf s)
      = (snd ?c)\<lparr>popens := (popens (snd ?c))(next_popen s :=
           \<lparr>pid = os_pid (os s (next_popen s)), p_stdin = fst ?a, p_stdout = fst ?b,
            p_stderr = fst ?c, returncode = None\<rparr>), next_popen := Suc (next_popen s)\<rparr>"
    by (simp add: Popen_def Let_def case_prod_unfold)
  with c spawn p show ?thesis
    by blast
qed


lemma start_process_duplicate:
  assumes named: "a_alias a = Some n" and taken: "map_of (aliases (processes s)) n \<noteq> None"
  shows "\<exists>e s'. start_process X command' arguments' a s = (Inl e, s')
     \<and> processes s' = processes s
     \<and> (\<forall>q. q \<noteq> next_popen s \<longrightarrow> results s' q = results s q \<and> popens s' q = popens s q)
     \<and> (\<forall>i. i < next_obj s \<longrightarrow> heap s' i = heap s i)
     \<and> os s' = os s
     \<and> (\<forall>conf. fst (ProcessConfiguration_init X a s) = Inr conf
            \<and> can_spawn X (get_command X conf command' arguments') \<longrightarrow>
          e = ConfigurationError \<and> next_popen s' = Suc (next_popen s)
          \<and> results s' (next_popen s) \<noteq> None)"
proof (cases "fst (ProcessConfiguration_init X a s)")
  case (Inl e)
  with ProcessConfiguration_init_only_new [of s X a] show ?thesis
    by (auto simp: start_process_def case_prod_unfold only_new_objects_def)
next
  case (Inr conf)
  let ?s1 = "snd (ProcessConfiguration_init X a s)"
  let ?cmd = "get_command X conf command' arguments'"
  let ?s2 = "log_start X ?cmd conf ?s1"
  have 2: "only_new_objects s ?s2"
    by (rule only_new_objects_trans [OF ProcessConfiguration_init_only_new log_start_only_new])
  show ?thesis
  proof (cases "fst (Popen X ?cmd conf ?s2)")
    case (Inl e)
    from Popen_error [OF this] Inl Inr 2 show ?thesis
      by (auto simp: start_process_def case_prod_unfold Let_def only_new_objects_def)
  next
    case started: (Inr p)
    from Popen_started [OF started] obtain s3 v where p: "p = next_popen ?s2"
      and new: "only_new_objects ?s2 s3"
      and s3: "snd (Popen X ?cmd conf ?s2)
        = s3\<lparr>popens := (popens s3)(next_popen ?s2 := v), next_popen := Suc (next_popen ?s2)\<rparr>"
      by blast
    have 3: "only_new_objects s s3"
      by (rule only_new_objects_trans [OF 2 new])
    have "alias' conf = Some n"
      using ProcessConfiguration_init_alias [OF Inr] named by simp
    moreover have "processes (snd (Popen X ?cmd conf ?s2)) = processes s"
      using s3 3 by (simp add: only_new_objects_def)
    ultimately have reg: "register (processes (snd (Popen X ?cmd conf ?s2))) p (alias' conf)
        = Inl ConfigurationError"
      using taken by (simp add: register_def)
    from 2 have np: "next_popen ?s2 = next_popen s"
      by (simp add: only_new_objects_def)
    show ?thesis
      using Inr started reg 3 p np
      by (simp add: start_process_def case_prod_unfold Let_def set_result_def s3
          only_new_objects_def)
  qed
qed


lemma register_distinct:
  assumes "distinct (map fst (aliases cache))" and "register cache p al = Inr cache'"
  shows "distinct (map fst (aliases cache'))"
proof (cases al)
  case None
  with assms show ?thesis by (auto simp: register_def)
next
  case (Some n)
  show ?thesis
  proof (cases "map_of (aliases cache) n")
    case None
    then have "n \<notin> fst ` set (aliases cache)"
      by (simp add: map_of_eq_None_iff)
    moreover from None Some assms(2)
    have "aliases cache' = aliases cache @ [(n, Suc (length (connections cache)))]"
      by (auto simp: register_def)
    ultimately show ?thesis
      using assms(1) by simp
  next
    case taken: (Some i)
    with Some assms(2) show ?thesis
      by (simp add: register_def)
  qed
qed

lemma second_start_configuration:
  "fst (ProcessConfiguration_init posix (defaults\<lparr>a_alias := Some ''first''\<rparr>) s)
     = Inr \<lparr>cwd = ''/work'', shell = False, alias' = Some ''first'',
            output_encoding = ''CONSOLE'', stdout_stream = PIPE, stderr_stream = PIPE,
            stdin_stream = None, env = None\<rparr>"
  by (simp add: ProcessConfiguration_init_def defaults_def truthy_def new_stream_def
      get_stderr_def get_stdin_def construct_env_def get_initial_env_def posix_def)

lemma posix_can_spawn: "can_spawn posix c"
  by (simp add: posix_def)

text \<open>
  Claim C7. \<open>start_process\<close> with an alias that the registry already holds always
  ends with an error and never changes the registry: the process registered under the
  alias is still found by it, its result and its process object are what they were,
  and no file object that existed is touched. When the configuration can be built
  and the command can be spawned, the error is the configuration error of
  \<open>register\<close>; it comes after the new process has been spawned and its result
  stored. \<open>register\<close> refuses an alias that is taken, and a registration that succeeds
  keeps the aliases of the registry distinct.
\<close>

theorem duplicate_alias_rejected:
  assumes "a_alias a = Some n" and "map_of (aliases (processes s)) n \<noteq> None"
  shows "(\<exists>e s'. start_process X command' arguments' a s = (Inl e, s')
     \<and> processes s' = processes s
     \<and> (\<forall>q. q \<noteq> next_popen s \<longrightarrow> results s' q = results s q \<and> popens s' q = popens s q)
     \<and> (\<forall>i. i < next_obj s \<longrightarrow> heap s' i = heap s i)
     \<and> os s' = os s
     \<and> (\<forall>conf. fst (ProcessConfiguration_init X a s) = Inr conf
            \<and> can_spawn X (get_command X conf command' arguments') \<longrightarrow>
          e = ConfigurationError \<and> next_popen s' = Suc (next_popen s)
          \<and> results s' (next_popen s) \<noteq> None))
     \<and> register (processes s) p (Some n) = Inl ConfigurationError
     \<and> (\<forall>al cache'. distinct (map fst (aliases (processes s)))
            \<and> register (processes s) p al = Inr cache' \<longrightarrow> distinct (map fst (aliases cache')))"
proof (intro conjI allI impI)
  show "\<exists>e s'. start_process X command' arguments' a s = (Inl e, s')
     \<and> processes s' = processes s
     \<and> (\<forall>q. q \<noteq> next_popen s \<longrightarrow> results s' q = results s q \<and> popens s' q = popens s q)
     \<and> (\<forall>i. i < next_obj s \<longrightarrow> heap s' i = heap s i)
     \<and> os s' = os s
     \<and> (\<forall>conf. fst (ProcessConfiguration_init X a s) = Inr conf
            \<and> can_spawn X (get_command X conf command' arguments') \<longrightarrow>
          e = ConfigurationError \<and> next_popen s' = Suc (next_popen s)
          \<and> results s' (next_popen s) \<noteq> None)"
    using assms by (rule start_process_duplicate)
next
  from assms(2) show "register (processes s) p (Some n) = Inl ConfigurationError"
    by (simp add: register_def)
next
  fix al cache'
  assume "distinct (map fst (aliases (processes s))) \<and> register (processes s) p al = Inr cache'"
  then show "distinct (map fst (aliases cache'))"
    using register_distinct by blast
qed

theorem duplicate_alias_rejected_witness:
  "a_alias (defaults\<lparr>a_alias := Some ''first''\<rparr>) = Some ''first''
   \<and> map_of (aliases (processes (tracking done_result))) ''first'' \<noteq> None
   \<and> (\<exists>s'. start_process posix ''python'' [] (defaults\<lparr>a_alias := Some ''first''\<rparr>)
              (tracking done_result) = (Inl ConfigurationError, s')
         \<and> processes s' = processes (tracking done_result)
         \<and> getitem (processes s') (Alias ''first'') = Inr 0
         \<and> results s' 0 = Some done_result
         \<and> popens s' 0 = popens (tracking done_result) 0
         \<and> next_popen s' = 2
         \<and> results s' 1 \<noteq> None)
   \<and> register (processes (tracking done_result)) 1 (Some ''first'') = Inl ConfigurationError"
proof -
  have a: "a_alias (defaults\<lparr>a_alias := Some ''first''\<rparr>) = Some ''first''"
    by simp
  have b: "map_of (aliases (processes (tracking done_result))) ''first'' \<noteq> None"
    by (simp add: tracking_def)
  have c: "getitem (processes (tracking done_result)) (Alias ''first'') = Inr 0"
    "results (tracking done_result) 0 = Some done_result"
    "next_popen (tracking done_result) = 1"
    by (simp_all add: tracking_def getitem_def by_index_def)
  note T = duplicate_alias_rejected [OF a b, of posix "''python''" "[]" 1]
  from T obtain e s' where
    run: "start_process posix ''python'' [] (defaults\<lparr>a_alias := Some ''first''\<rparr>)
        (tracking done_result) = (Inl e, s')"
    and reg: "processes s' = processes (tracking done_result)"
    and others: "\<forall>q. q \<noteq> next_popen (tracking done_result) \<longrightarrow>
        results s' q = results (tracking done_result) q
        \<and> popens s' q = popens (tracking done_result) q"
    and conf: "\<forall>conf. fst (ProcessConfiguration_init posix (defaults\<lparr>a_alias := Some ''first''\<rparr>)
          (tracking done_result)) = Inr conf
        \<and> can_spawn posix (get_command posix conf ''python'' []) \<longrightarrow>
        e = ConfigurationError \<and> next_popen s' = Suc (next_popen (tracking done_result))
        \<and> results s' (next_popen (tracking done_result)) \<noteq> None"
    by blast
  from conf second_start_configuration [of "tracking done_result"] posix_can_spawn
  have e: "e = ConfigurationError" and n: "next_popen s' = Suc (next_popen (tracking done_result))"
    and r: "results s' (next_popen (tracking done_result)) \<noteq> None"
    by blast+
  from others c(3) have o: "results s' 0 = results (tracking done_result) 0"
    "popens s' 0 = popens (tracking done_result) 0"
    by simp_all
  from T have d: "register (processes (tracking done_result)) 1 (Some ''first'')
      = Inl ConfigurationError"
    by blast
  from run e reg n r o c d a b show ?thesis
    by simp
qed

section \<open>Cancellation that is lost\<close>

lemma cancelled_unsignalled:
  "map_option (\<lambda>x. (fst x, trace (snd x), returncode (popens (snd x) 0)))
     (wait posix 0 (cancelled_run (\<lambda>t. None) (\<lambda>d. True)))
   = Some (Inl OSError, [Info ''Timeout exceeded.'', Info ''Forcefully killing process.''], None)"
  by (simp add: wait_cancelled_run cancelled_def kill_unfold cancelled_run_facts
      take_outcome_def sleep_def logger_def)

lemma cancelled_after_exit:
  "map_option fst (wait posix 0 (cancelled_run (\<lambda>t. Some 0) (\<lambda>d. True))) = Some (Inl OSError)"
  by (simp add: wait_cancelled_run cancelled_def kill_unfold cancelled_run_facts)

lemma process_is_stopped_pipes [simp]:
  "p_stdin (popens (snd (process_is_stopped p t s)) q) = p_stdin (popens s q)"
proof -
  have loop: "p_stdin (popens (stopped_loop p m st s) q) = p_stdin (popens s q)" for m st s
    by (induction p m st s rule: stopped_loop.induct)
       (subst stopped_loop.simps, simp add: sleep_def)
  show ?thesis
    by (simp add: process_is_stopped_def Let_def case_prod_unfold loop)
qed

lemma terminate_process_tolerates:
  "\<exists>r s'. terminate_process posix Active True
      (take_outcome 0 [Done [] [] 0] (cancelled_run (\<lambda>t. Some 0) (\<lambda>d. True)))
    = Some (Inr r, s')"
proof -
  let ?s = "take_outcome 0 [Done [] [] 0] (cancelled_run (\<lambda>t. Some 0) (\<lambda>d. True))"
  let ?k = "logger (Info ''Forcefully killing process.'') ?s"
  let ?w = "logger (Debug ''Ignored OSError because process was stopped.'')
      (snd (process_is_stopped 0 KILL_TIMEOUT ?k))"
  have h: "getitem (processes ?s) Active = Inr 0" "has_terminate posix"
    by (simp_all add: cancelled_run_def tracking_def fresh_def getitem_def posix_def)
  have k: "kill posix 0 ?s = (Inl OSError, ?k)"
    by (simp add: kill_unfold cancelled_run_facts)
  have "fst (poll 0 ?k) = Some 0"
    by (simp add: poll_def Let_def cancelled_run_facts)
  then have stopped: "fst (process_is_stopped 0 KILL_TIMEOUT ?k)"
    by (rule process_is_stopped_exited)
  have r: "results ?w 0 = Some pending_result"
    by (simp add: cancelled_run_facts)
  have script: "communicate_script (os ?s 0) = [Done [] [] 0]"
    by (simp add: take_outcome_def)
  have "p_stdin (popens ?w 0) = None"
    by (simp add: cancelled_run_facts)
  then have f: "forget_closed_stdin 0 ?w = ?w"
    by (rule forget_closed_stdin_none)
  from completed_no_paths [OF pending_paths]
  have "\<exists>r s'. wait posix 0 ?w = Some (Inr r, s')"
    by (simp add: wait_unfold [OF r] script f)
  with h k stopped show ?thesis
    by (simp add: terminate_process_def case_prod_unfold)
qed

text \<open>
  Claim C2 fails on the code where \<open>_kill\<close> raises inside the handler of
  \<open>TimeoutExceeded\<close>: the \<open>raise\<close> after it is not reached, and the caller gets the
  error of \<open>_kill\<close> in place of the cancellation. Four runs of \<open>_wait\<close> in which the
  second \<open>communicate\<close> call is cancelled. When \<open>os.killpg\<close> raises and the process
  runs on, the error is \<open>OSError\<close>, no signal has been sent and the process has no
  return code. When \<open>os.killpg\<close> raises because the process has ended already, the
  error is \<open>OSError\<close> again. When the signal is sent and the process is still running
  after the kill timeout, the error is the \<open>RuntimeError\<close> \<open>Failed to kill process.\<close>
  Only when the signal is sent and the process ends is the error the cancellation.
  \<open>terminate_process\<close>, on the run where the process has ended and \<open>os.killpg\<close>
  raises, ignores the \<open>OSError\<close> and returns the result.
\<close>

theorem cancellation_lost_when_kill_fails:
  "map_option (\<lambda>x. (fst x, trace (snd x), returncode (popens (snd x) 0)))
     (wait posix 0 (cancelled_run (\<lambda>t. None) (\<lambda>d. True)))
     = Some (Inl OSError, [Info ''Timeout exceeded.'', Info ''Forcefully killing process.''], None)
   \<and> map_option fst (wait posix 0 (cancelled_run (\<lambda>t. Some 0) (\<lambda>d. True)))
       = Some (Inl OSError)
   \<and> map_option fst (wait posix 0 (cancelled_run (\<lambda>t. None) (\<lambda>d. False)))
       = Some (Inl (RuntimeError ''Failed to kill process.''))
   \<and> map_option fst (wait posix 0
         (cancelled_run (\<lambda>t. if 100 \<le> t then Some (- 9) else None) (\<lambda>d. False)))
       = Some (Inl TimeoutExceeded)
   \<and> (\<exists>r s'. terminate_process posix Active True
         (take_outcome 0 [Done [] [] 0] (cancelled_run (\<lambda>t. Some 0) (\<lambda>d. True)))
        = Some (Inr r, s'))"
  using cancelled_unsignalled cancelled_after_exit cancelled_survives_kill cancelled_killed
    terminate_process_tolerates
  by simp

end
